theory Spec2Isabelle
  imports Complex_Main "HOL-Library.Word"
begin

section \<open>Adaptive frame encoding and chunked delivery (python-version/main.py)\<close>

text \<open>
  The development embeds the encoder suite, the palette cache, the frame store and the
  request handlers of \<^verbatim>\<open>src/python-version/main.py\<close>. Mutable globals
  (\<^verbatim>\<open>palette_manager\<close>, \<^verbatim>\<open>IMAGE_FRAMES\<close>) are passed explicitly, exceptions
  are values of a sum type, and every loop is a recursive function.
\<close>

subsection \<open>Constants\<close>

definition CHUNK_SIZE_LIMIT :: nat where "CHUNK_SIZE_LIMIT = 4000"
definition IMG_WIDTH :: nat where "IMG_WIDTH = 200"
definition MAX_PALETTES_TO_KEEP :: int where "MAX_PALETTES_TO_KEEP = 500"
definition MAX_PALETTE_COLORS :: nat where "MAX_PALETTE_COLORS = 256"
definition MAX_FRAMES_TO_KEEP :: nat where "MAX_FRAMES_TO_KEEP = 10"

subsection \<open>Pixel buffers\<close>

text \<open>
  A pixel is a row of three \<^verbatim>\<open>uint8\<close> channels; an image is the \<^verbatim>\<open>ndarray\<close> of
  shape (H, W, 3), held as its list of rows. \<^verbatim>\<open>image_data.reshape(-1, 3)\<close> is the
  row-major list of pixels.
\<close>

type_synonym pixel = "8 word \<times> 8 word \<times> 8 word"
type_synonym image = "pixel list list"

definition reshape_pixels :: "image \<Rightarrow> pixel list" where
  "reshape_pixels image_data = concat image_data"

subsection \<open>Exceptions\<close>

datatype error = ValueError | KeyError | ShapeError | ProducerError | IOError

subsection \<open>String formatting\<close>

definition hex_digit :: "nat \<Rightarrow> char" where
  "hex_digit d = ''0123456789abcdef'' ! (d mod 16)"

text \<open>\<^verbatim>\<open>f"{n:x}"\<close>: lowercase hexadecimal, no padding.\<close>

fun hex_x :: "nat \<Rightarrow> string" where
  "hex_x n = (if n < 16 then [hex_digit n] else hex_x (n div 16) @ [hex_digit (n mod 16)])"

declare hex_x.simps [simp del]

text \<open>\<^verbatim>\<open>f"{n:02x}"\<close>: at least two digits, padded with zeros on the left.\<close>

definition hex_02x :: "nat \<Rightarrow> string" where
  "hex_02x n = (if n < 16 then CHR ''0'' # hex_x n else hex_x n)"

definition dec_digit :: "nat \<Rightarrow> char" where
  "dec_digit d = ''0123456789'' ! (d mod 10)"

fun dec_nat :: "nat \<Rightarrow> string" where
  "dec_nat n = (if n < 10 then [dec_digit n] else dec_nat (n div 10) @ [dec_digit (n mod 10)])"

declare dec_nat.simps [simp del]

text \<open>\<^verbatim>\<open>str(i)\<close> of a Python integer.\<close>

definition str_int :: "int \<Rightarrow> string" where
  "str_int i = (if i < 0 then CHR ''-'' # dec_nat (nat (- i)) else dec_nat (nat i))"

text \<open>\<^verbatim>\<open>sep.join(parts)\<close>.\<close>

fun join :: "string \<Rightarrow> string list \<Rightarrow> string" where
  "join sep [] = []"
| "join sep [p] = p"
| "join sep (p # q # ps) = p @ sep @ join sep (q # ps)"

text \<open>\<^verbatim>\<open>f"{p[0]:02x}{p[1]:02x}{p[2]:02x}"\<close>.\<close>

fun hex_color :: "pixel \<Rightarrow> string" where
  "hex_color (r, g, b) = hex_02x (unat r) @ hex_02x (unat g) @ hex_02x (unat b)"

subsection \<open>RLE primitive\<close>

text \<open>
  \<^verbatim>\<open>_rle_encode\<close>: the \<^verbatim>\<open>for\<close> loop over the rest of the iterator, with the
  loop variables \<^verbatim>\<open>prev_val\<close>, \<^verbatim>\<open>count\<close> and \<^verbatim>\<open>encoded\<close>; the final
  \<^verbatim>\<open>append\<close> is the base case.
\<close>

fun rle_loop :: "'a \<Rightarrow> nat \<Rightarrow> ('a \<times> nat) list \<Rightarrow> 'a list \<Rightarrow> ('a \<times> nat) list" where
  "rle_loop prev_val count encoded [] = encoded @ [(prev_val, count)]"
| "rle_loop prev_val count encoded (val # it) =
     (if val = prev_val then rle_loop prev_val (count + 1) encoded it
      else rle_loop val 1 (encoded @ [(prev_val, count)]) it)"

fun rle_encode :: "'a list \<Rightarrow> ('a \<times> nat) list" where
  "rle_encode [] = []"
| "rle_encode (first # it) = rle_loop first 1 [] it"

text \<open>The decoder of the contract: each pair expands to its run.\<close>

definition rle_expand :: "('a \<times> nat) list \<Rightarrow> 'a list" where
  "rle_expand pairs = concat (map (\<lambda>(sym, n). replicate n sym) pairs)"

definition run_length_sum :: "('a \<times> nat) list \<Rightarrow> nat" where
  "run_length_sum pairs = sum_list (map snd pairs)"

subsection \<open>Palette cache\<close>

text \<open>
  An entry of \<^verbatim>\<open>PaletteManager.palettes\<close> is the dictionary
  \<^verbatim>\<open>{'colors': colors_tuple, 'colors_list': [...]}\<close>. The \<^verbatim>\<open>OrderedDict\<close> is an
  association list in iteration order: the first pair is the oldest, the last pair the
  most recently used.
\<close>

record palette_data =
  colors :: "pixel list"
  colors_list :: "pixel list"

record PaletteManager =
  palettes :: "(int \<times> palette_data) list"
  max_size :: int
  next_palette_id :: int

text \<open>\<^verbatim>\<open>PaletteManager.__init__\<close>.\<close>

definition PaletteManager_init :: "int \<Rightarrow> PaletteManager" where
  "PaletteManager_init n = \<lparr>palettes = [], max_size = n, next_palette_id = 0\<rparr>"

text \<open>\<^verbatim>\<open>od[k] = v\<close>: an existing key keeps its position, a new key goes last.\<close>

fun od_set :: "'k \<Rightarrow> 'v \<Rightarrow> ('k \<times> 'v) list \<Rightarrow> ('k \<times> 'v) list" where
  "od_set k v [] = [(k, v)]"
| "od_set k v ((k', v') # rest) =
     (if k' = k then (k, v) # rest else (k', v') # od_set k v rest)"

text \<open>\<^verbatim>\<open>od.move_to_end(k)\<close>; it raises \<^verbatim>\<open>KeyError\<close> on a missing key.\<close>

definition od_move_to_end :: "'k \<Rightarrow> ('k \<times> 'v) list \<Rightarrow> error + ('k \<times> 'v) list" where
  "od_move_to_end k od =
     (case map_of od k of
        None \<Rightarrow> Inl KeyError
      | Some v \<Rightarrow> Inr (filter (\<lambda>kv. fst kv \<noteq> k) od @ [(k, v)]))"

text \<open>The \<^verbatim>\<open>for pid, data in self.palettes.items()\<close> scan for equal colors.\<close>

fun find_palette :: "pixel list \<Rightarrow> (int \<times> palette_data) list \<Rightarrow> (int \<times> palette_data) option" where
  "find_palette colors_tuple [] = None"
| "find_palette colors_tuple ((pid, data) # rest) =
     (if colors data = colors_tuple then Some (pid, data)
      else find_palette colors_tuple rest)"

text \<open>
  \<^verbatim>\<open>get_or_create_palette\<close> returns the manager as it is left (also when the last
  line raises) and \<^verbatim>\<open>(palette_id, created, colors_list)\<close>.
\<close>

definition get_or_create_palette ::
  "pixel list \<Rightarrow> PaletteManager \<Rightarrow> PaletteManager \<times> (error + int \<times> bool \<times> pixel list)" where
  "get_or_create_palette cols pm =
     (case find_palette cols (palettes pm) of
        Some (pid, data) \<Rightarrow>
          (case od_move_to_end pid (palettes pm) of
             Inl e \<Rightarrow> (pm, Inl e)
           | Inr od \<Rightarrow> (pm\<lparr>palettes := od\<rparr>, Inr (pid, False, colors_list data)))
      | None \<Rightarrow>
          (let palette_id = next_palette_id pm;
               pm1 = pm\<lparr>next_palette_id := next_palette_id pm + 1\<rparr>;
               pm2 = pm1\<lparr>palettes :=
                       od_set palette_id \<lparr>colors = cols, colors_list = cols\<rparr> (palettes pm1)\<rparr>;
               pm3 = (if int (length (palettes pm2)) > max_size pm2
                      then pm2\<lparr>palettes := tl (palettes pm2)\<rparr> else pm2)
           in (pm3, case map_of (palettes pm3) palette_id of
                      None \<Rightarrow> Inl KeyError
                    | Some d \<Rightarrow> Inr (palette_id, True, colors_list d))))"

text \<open>A sequence of \<^verbatim>\<open>get_or_create_palette\<close> calls; a call that raises leaves its partial
  effect and the next call goes on. The second component lists the palette ids returned,
  oldest first.\<close>

fun run_palette_ops :: "pixel list list \<Rightarrow> PaletteManager \<Rightarrow> PaletteManager \<times> int list" where
  "run_palette_ops [] pm = (pm, [])"
| "run_palette_ops (cols # rest) pm =
     (case get_or_create_palette cols pm of
        (pm', Inl e) \<Rightarrow> run_palette_ops rest pm'
      | (pm', Inr (pid, created, lst)) \<Rightarrow>
          (case run_palette_ops rest pm' of (pm'', pids) \<Rightarrow> (pm'', pid # pids)))"

text \<open>
  The state invariant of the cache: keys are distinct and below the counter, every entry
  holds the same colors in both fields, and no two entries hold the same colors.
\<close>

definition pm_wf :: "PaletteManager \<Rightarrow> bool" where
  "pm_wf pm \<longleftrightarrow> distinct (map fst (palettes pm))
     \<and> (\<forall>k \<in> set (map fst (palettes pm)). k < next_palette_id pm)
     \<and> (\<forall>kd \<in> set (palettes pm). colors_list (snd kd) = colors (snd kd))
     \<and> distinct (map (\<lambda>kd. colors (snd kd)) (palettes pm))"

text \<open>The last \<open>n\<close> elements of a list.\<close>

definition lastn :: "nat \<Rightarrow> 'a list \<Rightarrow> 'a list" where
  "lastn n xs = drop (length xs - n) xs"

subsection \<open>Encoder suite\<close>

text \<open>\<^verbatim>\<open>image_data.tobytes()\<close>: the channels of every pixel in row-major order.\<close>

definition tobytes :: "image \<Rightarrow> 8 word list" where
  "tobytes img = concat (map (\<lambda>(r, g, b). [r, g, b]) (reshape_pixels img))"

definition b64_char :: "nat \<Rightarrow> char" where
  "b64_char n =
     ''ABCDEFGHIJKLMNOPQRSTUVWXYZabcdefghijklmnopqrstuvwxyz0123456789+/'' ! (n mod 64)"

text \<open>\<^verbatim>\<open>base64.b64encode(...).decode('ascii')\<close>: three bytes give four characters, a
  last group of one or two bytes is padded with \<^verbatim>\<open>=\<close>.\<close>

fun b64encode :: "8 word list \<Rightarrow> string" where
  "b64encode [] = []"
| "b64encode [a] =
     [b64_char (unat a div 4), b64_char ((unat a mod 4) * 16), CHR ''='', CHR ''='']"
| "b64encode [a, b] =
     [b64_char (unat a div 4), b64_char ((unat a mod 4) * 16 + unat b div 16),
      b64_char ((unat b mod 16) * 4), CHR ''='']"
| "b64encode (a # b # c # rest) =
     [b64_char (unat a div 4), b64_char ((unat a mod 4) * 16 + unat b div 16),
      b64_char ((unat b mod 16) * 4 + unat c div 64), b64_char (unat c mod 64)]
     @ b64encode rest"

text \<open>\<^verbatim>\<open>_create_full_update\<close>.\<close>

definition create_full_update :: "image \<Rightarrow> string" where
  "create_full_update img = ''F|'' @ b64encode (tobytes img)"

text \<open>\<^verbatim>\<open>_create_full_rle_update\<close>.\<close>

definition create_full_rle_update :: "image \<Rightarrow> string option" where
  "create_full_rle_update img =
     (let hex_colors = map hex_color (reshape_pixels img);
          rle_data = rle_encode hex_colors
      in if rle_data = [] then None
         else Some (''FR|'' @ join ''|''
                 (map (\<lambda>(color_hex, count). color_hex @ '','' @ hex_x count) rle_data)))"

text \<open>
  \<^verbatim>\<open>zip(*np.where(np.any(image_data != prev_data, axis=2)))\<close>: the coordinates
  \<open>(y, x)\<close> of the pixels that differ in some channel, in row-major order. The
  comparison is elementwise on arrays of one shape; the handler only ever compares
  buffers of the same dimensions, and the model raises \<open>ShapeError\<close> on any other pair
  (for most of them numpy raises too; it broadcasts the rest, which no caller produces).
\<close>

definition same_shape :: "image \<Rightarrow> image \<Rightarrow> bool" where
  "same_shape a b \<longleftrightarrow> map length a = map length b"

definition diff_coords :: "image \<Rightarrow> image \<Rightarrow> (nat \<times> nat) list" where
  "diff_coords a b =
     concat (map (\<lambda>(y, ra, rb).
                map (\<lambda>(x, pa, pb). (y, x))
                  (filter (\<lambda>(x, pa, pb). pa \<noteq> pb) (enumerate 0 (zip ra rb))))
             (enumerate 0 (zip a b)))"

text \<open>\<^verbatim>\<open>_create_diff_update\<close>.\<close>

definition create_diff_update :: "image \<Rightarrow> image option \<Rightarrow> error + string option" where
  "create_diff_update img prev_data =
     (case prev_data of
        None \<Rightarrow> Inr None
      | Some prev \<Rightarrow>
          if \<not> same_shape img prev then Inl ShapeError
          else (let coords = diff_coords img prev
                in if coords = [] then Inr None
                   else Inr (Some (''D|'' @ join ''|''
                          (map (\<lambda>(y, x). hex_x (y * IMG_WIDTH + x) @ '':''
                                          @ hex_color (img ! y ! x)) coords)))))"

text \<open>
  \<^verbatim>\<open>np.unique(pixels, axis=0)\<close>: the distinct rows in ascending lexicographic
  order of their unsigned channels, built by sorted insertion without duplicates.
\<close>

fun pixel_less :: "pixel \<Rightarrow> pixel \<Rightarrow> bool" where
  "pixel_less (r, g, b) (r', g', b') \<longleftrightarrow>
     r < r' \<or> (r = r' \<and> (g < g' \<or> (g = g' \<and> b < b')))"

fun insert_unique :: "pixel \<Rightarrow> pixel list \<Rightarrow> pixel list" where
  "insert_unique p [] = [p]"
| "insert_unique p (q # qs) =
     (if p = q then q # qs
      else if pixel_less p q then p # q # qs
      else q # insert_unique p qs)"

definition np_unique :: "pixel list \<Rightarrow> pixel list" where
  "np_unique ps = foldr insert_unique ps []"

text \<open>
  \<^verbatim>\<open>{tuple(color): i for i, color in enumerate(palette)}\<close>: a later index replaces
  an earlier one of the same color.
\<close>

definition color_to_idx :: "pixel list \<Rightarrow> pixel \<rightharpoonup> nat" where
  "color_to_idx palette = map_of (rev (map (\<lambda>(i, color). (color, i)) (enumerate 0 palette)))"

text \<open>\<^verbatim>\<open>[d[k] for k in keys]\<close>: the first missing key raises \<^verbatim>\<open>KeyError\<close>.\<close>

fun lookup_all :: "('k \<rightharpoonup> 'v) \<Rightarrow> 'k list \<Rightarrow> error + 'v list" where
  "lookup_all d [] = Inr []"
| "lookup_all d (k # ks) =
     (case d k of
        None \<Rightarrow> Inl KeyError
      | Some v \<Rightarrow> (case lookup_all d ks of Inl e \<Rightarrow> Inl e | Inr vs \<Rightarrow> Inr (v # vs)))"

text \<open>\<^verbatim>\<open>hex_format = "{:x}" if num_colors <= 16 else "{:02x}"\<close>, applied to an index.\<close>

definition hex_format :: "nat \<Rightarrow> nat \<Rightarrow> string" where
  "hex_format num_colors idx = (if num_colors \<le> 16 then hex_x idx else hex_02x idx)"

definition palette_payload :: "bool \<Rightarrow> pixel list \<Rightarrow> string" where
  "palette_payload send_palette_data palette =
     (if send_palette_data then join '','' (map hex_color palette) else [])"

definition color_count_ok :: "nat \<Rightarrow> bool" where
  "color_count_ok num_colors \<longleftrightarrow> 1 < num_colors \<and> num_colors \<le> MAX_PALETTE_COLORS"

text \<open>\<^verbatim>\<open>_create_indexed_update\<close>; the palette manager is returned as it is left.\<close>

definition create_indexed_update ::
  "image \<Rightarrow> int set \<Rightarrow> PaletteManager \<Rightarrow> PaletteManager \<times> (error + string option)" where
  "create_indexed_update img client_cached_pids pm =
     (let unique_colors = np_unique (reshape_pixels img);
          num_colors = length unique_colors
      in if \<not> color_count_ok num_colors then (pm, Inr None)
         else (case get_or_create_palette unique_colors pm of
                 (pm', Inl e) \<Rightarrow> (pm', Inl e)
               | (pm', Inr (pid, is_new_to_server, palette)) \<Rightarrow>
                   (let send_palette_data = (is_new_to_server \<or> pid \<notin> client_cached_pids);
                        pal = palette_payload send_palette_data palette
                    in case lookup_all (color_to_idx palette) (reshape_pixels img) of
                         Inl e \<Rightarrow> (pm', Inl e)
                       | Inr indices \<Rightarrow>
                           (pm', Inr (Some (''I|'' @ str_int pid @ ''|'' @ pal @ ''|''
                                   @ concat (map (hex_format num_colors) indices)))))))"

text \<open>\<^verbatim>\<open>_create_indexed_rle_update\<close>.\<close>

definition create_indexed_rle_update ::
  "image \<Rightarrow> int set \<Rightarrow> PaletteManager \<Rightarrow> PaletteManager \<times> (error + string option)" where
  "create_indexed_rle_update img client_cached_pids pm =
     (let unique_colors = np_unique (reshape_pixels img);
          num_colors = length unique_colors
      in if \<not> color_count_ok num_colors then (pm, Inr None)
         else (case get_or_create_palette unique_colors pm of
                 (pm', Inl e) \<Rightarrow> (pm', Inl e)
               | (pm', Inr (pid, is_new_to_server, palette)) \<Rightarrow>
                   (let send_palette_data = (is_new_to_server \<or> pid \<notin> client_cached_pids);
                        pal = palette_payload send_palette_data palette
                    in case lookup_all (color_to_idx palette) (reshape_pixels img) of
                         Inl e \<Rightarrow> (pm', Inl e)
                       | Inr indices \<Rightarrow>
                           (let rle_data = rle_encode indices
                            in if rle_data = [] then (pm', Inr None)
                               else (pm', Inr (Some (''IR|'' @ str_int pid @ ''|'' @ pal @ ''|''
                                       @ join ''|''
                                           (map (\<lambda>(idx, count).
                                                   hex_format num_colors idx @ '','' @ hex_x count)
                                              rle_data))))))))"

text \<open>\<^verbatim>\<open>_create_diff_indexed_update\<close>.\<close>

definition create_diff_indexed_update ::
  "image \<Rightarrow> image option \<Rightarrow> int set \<Rightarrow> PaletteManager
     \<Rightarrow> PaletteManager \<times> (error + string option)" where
  "create_diff_indexed_update img prev_data client_cached_pids pm =
     (case prev_data of
        None \<Rightarrow> (pm, Inr None)
      | Some prev \<Rightarrow>
          (let unique_colors = np_unique (reshape_pixels img);
               num_colors = length unique_colors
           in if \<not> color_count_ok num_colors then (pm, Inr None)
              else if \<not> same_shape img prev then (pm, Inl ShapeError)
              else (let coords = diff_coords img prev
                    in if coords = [] then (pm, Inr None)
                       else (case get_or_create_palette unique_colors pm of
                               (pm', Inl e) \<Rightarrow> (pm', Inl e)
                             | (pm', Inr (pid, is_new_to_server, palette)) \<Rightarrow>
                                 (let send_palette_data =
                                        (is_new_to_server \<or> pid \<notin> client_cached_pids);
                                      pal = palette_payload send_palette_data palette
                                  in case lookup_all (color_to_idx palette)
                                            (map (\<lambda>(y, x). img ! y ! x) coords) of
                                       Inl e \<Rightarrow> (pm', Inl e)
                                     | Inr idxs \<Rightarrow>
                                         (pm', Inr (Some (''DI|'' @ str_int pid @ ''|'' @ pal @ ''|''
                                            @ join ''|''
                                                (map (\<lambda>((y, x), i).
                                                        hex_x (y * IMG_WIDTH + x) @ '':''
                                                        @ hex_format num_colors i)
                                                   (zip coords idxs))))))))))"

subsection \<open>Request parameters\<close>

text \<open>
  A character of a request parameter is a code point below 256. \<^verbatim>\<open>int(s)\<close> on a
  string is CPython's \<^verbatim>\<open>PyLong_FromUnicodeObject\<close>: the string is first mapped to
  ASCII, then parsed by \<^verbatim>\<open>PyLong_FromString\<close> in base 10.

  \<^verbatim>\<open>Py_ISSPACE\<close> is the white space of the parser: the blank and the code points 9 to
  13. \<^verbatim>\<open>Py_UNICODE_ISSPACE\<close> is the white space of \<^verbatim>\<open>str\<close>; below 256 it has also
  the code points 28 to 31, U+0085 and U+00A0.
\<close>

definition Py_ISSPACE :: "char \<Rightarrow> bool" where
  "Py_ISSPACE c \<longleftrightarrow> c \<in> set [CHR '' '', CHR 0x09, CHR 0x0A, CHR 0x0B, CHR 0x0C, CHR 0x0D]"

definition Py_UNICODE_ISSPACE :: "char \<Rightarrow> bool" where
  "Py_UNICODE_ISSPACE c \<longleftrightarrow>
     c \<in> set [CHR 0x09, CHR 0x0A, CHR 0x0B, CHR 0x0C, CHR 0x0D, CHR 0x1C, CHR 0x1D, CHR 0x1E,
              CHR 0x1F, CHR '' '', CHR 0x85, CHR 0xA0]"

text \<open>
  \<^verbatim>\<open>_PyUnicode_TransformDecimalAndSpaceToASCII\<close>: a string of code points below 128 is
  returned as it is. In any other string a code point below 127 is kept, white space
  becomes a blank, a decimal digit becomes its ASCII digit, and the first code point that
  is none of these becomes \<^verbatim>\<open>?\<close> and ends the result. No code point from 127 to 255 is a
  decimal digit.
\<close>

definition is_ascii :: "string \<Rightarrow> bool" where
  "is_ascii s \<longleftrightarrow> list_all (\<lambda>c. (of_char c :: nat) < 128) s"

fun transform_loop :: "string \<Rightarrow> string" where
  "transform_loop [] = []"
| "transform_loop (ch # rest) =
     (if (of_char ch :: nat) < 127 then ch # transform_loop rest
      else if Py_UNICODE_ISSPACE ch then CHR '' '' # transform_loop rest
      else ''?'')"

definition transform_to_ascii :: "string \<Rightarrow> string" where
  "transform_to_ascii s = (if is_ascii s then s else transform_loop s)"

fun index_of :: "'a \<Rightarrow> 'a list \<Rightarrow> nat option" where
  "index_of x [] = None"
| "index_of x (y # ys) = (if x = y then Some 0 else map_option Suc (index_of x ys))"

definition digit_of :: "char \<Rightarrow> nat option" where
  "digit_of c = index_of c ''0123456789''"

text \<open>
  The digits of a base-10 literal: decimal digits with single underscores between them,
  so neither a leading, nor a trailing, nor a doubled underscore, and at least one digit.
\<close>

fun parse_digits :: "bool \<Rightarrow> nat \<Rightarrow> string \<Rightarrow> nat option" where
  "parse_digits after_digit acc [] = (if after_digit then Some acc else None)"
| "parse_digits after_digit acc (c # cs) =
     (case digit_of c of
        Some d \<Rightarrow> parse_digits True (acc * 10 + d) cs
      | None \<Rightarrow> if c = CHR ''_'' \<and> after_digit then parse_digits False acc cs else None)"

definition digit_or_underscore :: "char \<Rightarrow> bool" where
  "digit_or_underscore c \<longleftrightarrow> digit_of c \<noteq> None \<or> c = CHR ''_''"

text \<open>\<^verbatim>\<open>sys.int_info.default_max_str_digits\<close>, the limit on the digits of a decimal
  literal.\<close>

definition default_max_str_digits :: nat where "default_max_str_digits = 4300"

text \<open>
  \<^verbatim>\<open>PyLong_FromString(buffer, &end, 10)\<close> with the test that \<^verbatim>\<open>end\<close> is the end of
  the buffer: leading white space, one optional sign, the digits (more than 4300 of them
  raise), trailing white space, and nothing else. Every failure is a \<^verbatim>\<open>ValueError\<close>.
\<close>

definition PyLong_FromString :: "string \<Rightarrow> error + int" where
  "PyLong_FromString buffer =
     (let str = dropWhile Py_ISSPACE buffer;
          negative = (str \<noteq> [] \<and> hd str = CHR ''-'');
          start = (if str \<noteq> [] \<and> (hd str = CHR ''+'' \<or> hd str = CHR ''-'') then tl str else str);
          scan = takeWhile digit_or_underscore start;
          after = dropWhile digit_or_underscore start
      in case parse_digits False 0 scan of
           None \<Rightarrow> Inl ValueError
         | Some n \<Rightarrow>
             if length (filter (\<lambda>c. c \<noteq> CHR ''_'') scan) > default_max_str_digits
             then Inl ValueError
             else if dropWhile Py_ISSPACE after \<noteq> [] then Inl ValueError
             else Inr (if negative then - int n else int n))"

definition py_int :: "string \<Rightarrow> error + int" where
  "py_int s = PyLong_FromString (transform_to_ascii s)"

text \<open>\<^verbatim>\<open>s.split(sep)\<close> for a one-character separator.\<close>

fun split_on :: "char \<Rightarrow> string \<Rightarrow> string list" where
  "split_on sep [] = [[]]"
| "split_on sep (c # cs) =
     (if c = sep then [] # split_on sep cs
      else (case split_on sep cs of
              p # ps \<Rightarrow> (c # p) # ps
            | [] \<Rightarrow> [[c]]))"

fun ints_of :: "string list \<Rightarrow> error + int list" where
  "ints_of [] = Inr []"
| "ints_of (p # ps) =
     (case py_int p of
        Inl e \<Rightarrow> Inl e
      | Inr i \<Rightarrow> (case ints_of ps of Inl e \<Rightarrow> Inl e | Inr is \<Rightarrow> Inr (i # is)))"

text \<open>
  The query parameters after \<^verbatim>\<open>parse_qs\<close>: for each key the first value,
  \<^verbatim>\<open>params.get(key, [None])[0]\<close>, or \<open>None\<close> when the key is absent.
\<close>

record params =
  action :: "string option"
  cached_pids :: "string option"
  frame_id :: "string option"
  chunk :: "string option"

text \<open>The \<^verbatim>\<open>client_cached_pids\<close> block of \<^verbatim>\<open>_handle_new_frame\<close>: a
  \<^verbatim>\<open>ValueError\<close> leaves the empty set.\<close>

definition parse_cached_pids :: "string option \<Rightarrow> int set" where
  "parse_cached_pids cached_pids_str =
     (case cached_pids_str of
        None \<Rightarrow> {}
      | Some str \<Rightarrow>
          if str = [] then {}
          else (case ints_of (split_on CHR '','' str) of
                  Inl e \<Rightarrow> {}
                | Inr ps \<Rightarrow> set ps))"

subsection \<open>Frame store and frame publisher\<close>

record frame =
  chunks :: "string list"
  timestamp :: real
  image_data :: image

record server_state =
  palette_manager :: PaletteManager
  IMAGE_FRAMES :: "(string \<times> frame) list"

text \<open>
  What a request takes from outside the core: the outcome of \<^verbatim>\<open>_generate_image\<close>
  for the current mode (a buffer, or an exception of the producer), the value of
  \<^verbatim>\<open>uuid.uuid4().hex\<close>, the clock, and whether writing to \<^verbatim>\<open>self.wfile\<close> raises
  (the peer has closed the connection).
\<close>

record env =
  generated_image :: "error + image"
  uuid4_hex :: string
  time_now :: real
  write_raises :: bool

text \<open>
  What a request ends in: a response (\<^verbatim>\<open>send_response(200)\<close> with a body,
  \<^verbatim>\<open>send_response(204)\<close>, \<^verbatim>\<open>send_error(code)\<close>), or an exception that leaves
  \<^verbatim>\<open>do_GET\<close>, in which case no response has been written in full and none has a
  status.
\<close>

datatype response = Body200 string | NoContent204 | SendError nat | Raised error

fun status :: "response \<Rightarrow> nat option" where
  "status (Body200 body) = Some 200"
| "status NoContent204 = Some 204"
| "status (SendError code) = Some code"
| "status (Raised err) = None"

text \<open>
  Sending a response, by \<^verbatim>\<open>send_response\<close>, \<^verbatim>\<open>end_headers\<close> and
  \<^verbatim>\<open>self.wfile.write\<close>, or by \<^verbatim>\<open>send_error\<close>: each of them writes to
  \<^verbatim>\<open>self.wfile\<close>, which raises once the peer has closed the connection.
\<close>

definition send :: "env \<Rightarrow> response \<Rightarrow> error + response" where
  "send e r = (if write_raises e then Inl IOError else Inr r)"

text \<open>The keys of the \<^verbatim>\<open>candidates\<close> dictionary.\<close>

datatype fmt = FULL | DIFF | FR | IDX | D_IDX | IR

text \<open>
  The \<^verbatim>\<open>candidates\<close> dictionary literal of \<^verbatim>\<open>_handle_new_frame\<close>: its values are
  evaluated in the order written, and its items keep that order.
\<close>

definition build_candidates ::
  "image \<Rightarrow> image option \<Rightarrow> int set \<Rightarrow> PaletteManager
     \<Rightarrow> PaletteManager \<times> (error + (fmt \<times> string option) list)" where
  "build_candidates img prev_frame_data client_cached_pids pm =
     (let full = create_full_update img
      in case create_diff_update img prev_frame_data of
           Inl e \<Rightarrow> (pm, Inl e)
         | Inr diff \<Rightarrow>
             (let fr = create_full_rle_update img
              in case create_indexed_update img client_cached_pids pm of
                   (pm1, Inl e) \<Rightarrow> (pm1, Inl e)
                 | (pm1, Inr idx) \<Rightarrow>
                     (case create_diff_indexed_update img prev_frame_data client_cached_pids pm1 of
                        (pm2, Inl e) \<Rightarrow> (pm2, Inl e)
                      | (pm2, Inr d_idx) \<Rightarrow>
                          (case create_indexed_rle_update img client_cached_pids pm2 of
                             (pm3, Inl e) \<Rightarrow> (pm3, Inl e)
                           | (pm3, Inr ir) \<Rightarrow>
                               (pm3, Inr [(FULL, Some full), (DIFF, diff), (FR, fr),
                                          (IDX, idx), (D_IDX, d_idx), (IR, ir)])))))"

text \<open>\<^verbatim>\<open>{k: v for k, v in candidates.items() if v is not None}\<close>.\<close>

fun valid_candidates :: "('k \<times> 'v option) list \<Rightarrow> ('k \<times> 'v) list" where
  "valid_candidates [] = []"
| "valid_candidates ((k, None) # rest) = valid_candidates rest"
| "valid_candidates ((k, Some v) # rest) = (k, v) # valid_candidates rest"

text \<open>
  \<^verbatim>\<open>min(items, key=...)\<close>: the first item is the best so far, a later item replaces
  it only when its key is strictly smaller; an empty argument raises \<^verbatim>\<open>ValueError\<close>.
\<close>

fun min_loop :: "('a \<Rightarrow> nat) \<Rightarrow> 'a \<Rightarrow> 'a list \<Rightarrow> 'a" where
  "min_loop key best [] = best"
| "min_loop key best (x # xs) = min_loop key (if key x < key best then x else best) xs"

definition py_min :: "('a \<Rightarrow> nat) \<Rightarrow> 'a list \<Rightarrow> error + 'a" where
  "py_min key items = (case items of [] \<Rightarrow> Inl ValueError | x # xs \<Rightarrow> Inr (min_loop key x xs))"

text \<open>\<^verbatim>\<open>min(valid_candidates.items(), key=lambda item: len(item[1]))\<close>.\<close>

definition select_best :: "(fmt \<times> string) list \<Rightarrow> error + fmt \<times> string" where
  "select_best valid = py_min (\<lambda>item. length (snd item)) valid"

text \<open>\<^verbatim>\<open>range(0, n, step)\<close>; a zero step raises \<^verbatim>\<open>ValueError\<close>.\<close>

definition py_range_step :: "nat \<Rightarrow> nat \<Rightarrow> error + nat list" where
  "py_range_step n step =
     (if step = 0 then Inl ValueError
      else Inr (map (\<lambda>k. k * step) [0 ..< (n + step - 1) div step]))"

text \<open>\<^verbatim>\<open>[data[i:i + limit] for i in range(0, len(data), limit)]\<close>.\<close>

definition make_chunks :: "nat \<Rightarrow> string \<Rightarrow> error + string list" where
  "make_chunks limit data =
     (case py_range_step (length data) limit of
        Inl e \<Rightarrow> Inl e
      | Inr starts \<Rightarrow> Inr (map (\<lambda>i. take limit (drop i data)) starts))"

text \<open>
  The previous buffer, \<^verbatim>\<open>IMAGE_FRAMES[next(reversed(IMAGE_FRAMES))]\<close> with
  \<^verbatim>\<open>.get('image_data')\<close>: the buffer of the frame stored last, or \<open>None\<close> for the
  empty store.
\<close>

definition prev_frame_data_of :: "(string \<times> frame) list \<Rightarrow> image option" where
  "prev_frame_data_of frames =
     (if frames = [] then None else Some (image_data (snd (last frames))))"

text \<open>
  \<^verbatim>\<open>IMAGE_FRAMES[frame_id] = {...}\<close> followed by
  \<^verbatim>\<open>if len(IMAGE_FRAMES) > MAX_FRAMES_TO_KEEP: IMAGE_FRAMES.popitem(last=False)\<close>.
\<close>

definition store_frame :: "string \<Rightarrow> frame \<Rightarrow> (string \<times> frame) list \<Rightarrow> (string \<times> frame) list" where
  "store_frame fid fr frames =
     (let frames1 = od_set fid fr frames
      in if length frames1 > MAX_FRAMES_TO_KEEP then tl frames1 else frames1)"

text \<open>
  \<^verbatim>\<open>_handle_new_frame\<close>. The rotation of the mode is the producer's side and is not
  part of the state here. The result is the state as the request leaves it, and the
  response or the exception that reaches \<^verbatim>\<open>do_GET\<close>.
\<close>

definition handle_new_frame ::
  "env \<Rightarrow> params \<Rightarrow> server_state \<Rightarrow> server_state \<times> (error + response)" where
  "handle_new_frame e p s =
     (let client_cached_pids = parse_cached_pids (cached_pids p);
          prev_frame_data = prev_frame_data_of (IMAGE_FRAMES s)
      in case generated_image e of
           Inl err \<Rightarrow> (s, Inl err)
         | Inr img \<Rightarrow>
             (case build_candidates img prev_frame_data client_cached_pids (palette_manager s) of
                (pm', Inl err) \<Rightarrow> (s\<lparr>palette_manager := pm'\<rparr>, Inl err)
              | (pm', Inr candidates) \<Rightarrow>
                  (let s1 = s\<lparr>palette_manager := pm'\<rparr>;
                       valid = valid_candidates candidates
                   in if valid = [] then (s1, send e NoContent204)
                      else (case select_best valid of
                              Inl err \<Rightarrow> (s1, Inl err)
                            | Inr (best_format, data_to_send) \<Rightarrow>
                                (case make_chunks CHUNK_SIZE_LIMIT data_to_send of
                                   Inl err \<Rightarrow> (s1, Inl err)
                                 | Inr chs \<Rightarrow>
                                     (let fid = uuid4_hex e;
                                          s2 = s1\<lparr>IMAGE_FRAMES := store_frame fid
                                            \<lparr>chunks = chs, timestamp = time_now e, image_data = img\<rparr>
                                            (IMAGE_FRAMES s1)\<rparr>;
                                          response_body = fid @ '';'' @ str_int (int (length chs));
                                          response_body' =
                                            (if chs \<noteq> [] \<and> length response_body + 1 + length (hd chs)
                                                    < CHUNK_SIZE_LIMIT
                                             then response_body @ '';'' @ hd chs
                                             else response_body)
                                      in (s2, send e (Body200 response_body'))))))))"

text \<open>\<^verbatim>\<open>int(params.get('chunk', [0])[0])\<close>: an absent parameter is the integer 0.\<close>

definition chunk_param :: "params \<Rightarrow> error + int" where
  "chunk_param p = (case chunk p of None \<Rightarrow> Inr 0 | Some c \<Rightarrow> py_int c)"

text \<open>\<^verbatim>\<open>_handle_get_chunk\<close>: the chunk index is converted first, then the frame is
  looked up.\<close>

definition handle_get_chunk ::
  "env \<Rightarrow> params \<Rightarrow> server_state \<Rightarrow> server_state \<times> (error + response)" where
  "handle_get_chunk e p s =
     (case chunk_param p of
        Inl err \<Rightarrow> (s, Inl err)
      | Inr chunk_index \<Rightarrow>
          (case frame_id p of
             None \<Rightarrow> (s, send e (SendError 404))
           | Some fid \<Rightarrow>
               (case map_of (IMAGE_FRAMES s) fid of
                  None \<Rightarrow> (s, send e (SendError 404))
                | Some f \<Rightarrow>
                    if fid \<noteq> [] \<and> 0 \<le> chunk_index \<and> chunk_index < int (length (chunks f))
                    then (s, send e (Body200 (fid @ '';'' @ str_int chunk_index @ '';''
                                               @ chunks f ! nat chunk_index)))
                    else (s, send e (SendError 404)))))"

text \<open>
  \<^verbatim>\<open>do_GET\<close>: any exception of a handler is caught and answered by
  \<^verbatim>\<open>send_error(500)\<close>. That call is outside the \<^verbatim>\<open>try\<close> block: when it raises
  too, as it does on a closed connection, the exception leaves \<^verbatim>\<open>do_GET\<close>.
\<close>

definition do_GET :: "env \<Rightarrow> params \<Rightarrow> server_state \<Rightarrow> server_state \<times> response" where
  "do_GET e p s =
     (case (if action p = Some ''new_frame'' then handle_new_frame e p s
            else if action p = Some ''get_chunk'' then handle_get_chunk e p s
            else (s, send e (SendError 400))) of
        (s', Inl err) \<Rightarrow>
          (case send e (SendError 500) of
             Inl err' \<Rightarrow> (s', Raised err')
           | Inr r \<Rightarrow> (s', r))
      | (s', Inr r) \<Rightarrow> (s', r))"

text \<open>The server as it starts: \<^verbatim>\<open>PaletteManager(MAX_PALETTES_TO_KEEP)\<close> and an empty
  \<^verbatim>\<open>IMAGE_FRAMES\<close>.\<close>

definition initial_state :: server_state where
  "initial_state =
     \<lparr>palette_manager = PaletteManager_init MAX_PALETTES_TO_KEEP, IMAGE_FRAMES = []\<rparr>"

text \<open>The tie order as the specification's table lists the encodings.\<close>

fun table_rank :: "fmt \<Rightarrow> nat" where
  "table_rank FULL = 0"
| "table_rank FR = 1"
| "table_rank DIFF = 2"
| "table_rank IDX = 3"
| "table_rank D_IDX = 4"
| "table_rank IR = 5"

text \<open>The order of the keys in the \<^verbatim>\<open>candidates\<close> dictionary literal.\<close>

fun dict_rank :: "fmt \<Rightarrow> nat" where
  "dict_rank FULL = 0"
| "dict_rank DIFF = 1"
| "dict_rank FR = 2"
| "dict_rank IDX = 3"
| "dict_rank D_IDX = 4"
| "dict_rank IR = 5"

text \<open>A sequence of requests, each with what it takes from outside, served one after
  the other; the states the server can reach are the results from \<open>initial_state\<close>.\<close>

fun run_requests :: "(env \<times> params) list \<Rightarrow> server_state \<Rightarrow> server_state" where
  "run_requests [] s = s"
| "run_requests ((e, p) # rest) s = run_requests rest (fst (do_GET e p s))"

text \<open>The invariant of the server state.\<close>

definition server_inv :: "server_state \<Rightarrow> bool" where
  "server_inv s \<longleftrightarrow> pm_wf (palette_manager s) \<and> 0 < max_size (palette_manager s)
     \<and> length (IMAGE_FRAMES s) \<le> MAX_FRAMES_TO_KEEP"

subsection \<open>Two buffers of the production size\<close>

text \<open>
  Two buffers of 150 rows of 200 pixels. \<open>tie_frame\<close> is black but for a white first
  pixel; \<open>tie_prev\<close> differs from it at the linear indices 256 and 512, that is at
  (row 1, column 56) and (row 2, column 112).
\<close>

definition tie_frame :: image where
  "tie_frame =
     ((255, 255, 255) # replicate 199 (0, 0, 0))
     # replicate 200 (0, 0, 0)
     # replicate 200 (0, 0, 0)
     # replicate 147 (replicate 200 (0, 0, 0))"

definition tie_prev :: image where
  "tie_prev =
     ((255, 255, 255) # replicate 199 (0, 0, 0))
     # (replicate 56 (0, 0, 0) @ (1, 1, 1) # replicate 143 (0, 0, 0))
     # (replicate 112 (0, 0, 0) @ (1, 1, 1) # replicate 87 (0, 0, 0))
     # replicate 147 (replicate 200 (0, 0, 0))"

subsection \<open>A family of palettes\<close>


section \<open>Properties\<close>

subsection \<open>RLE round trip\<close>

lemma rle_expand_Nil: "rle_expand [] = []"
  by (simp add: rle_expand_def)

lemma run_length_sum_Nil: "run_length_sum [] = 0"
  by (simp add: run_length_sum_def)

lemma rle_loop_expand:
  "rle_expand (rle_loop p c enc xs) = rle_expand enc @ replicate c p @ xs"
proof (induction xs arbitrary: p c enc)
  case Nil
  show ?case by (simp add: rle_expand_def)
next
  case (Cons v xs)
  show ?case
  proof (cases "v = p")
    case True
    then show ?thesis
      using Cons.IH [of p "c + 1" enc] by (simp add: replicate_append_same)
  next
    case False
    then show ?thesis
      using Cons.IH [of v 1 "enc @ [(p, c)]"] by (simp add: rle_expand_def)
  qed
qed

lemma rle_loop_sum:
  "run_length_sum (rle_loop p c enc xs) = run_length_sum enc + c + length xs"
  by (induction xs arbitrary: p c enc) (simp_all add: run_length_sum_def)

text \<open>
  C6. For every finite sequence of symbols, expanding the output of the RLE encoder
  (the run-length repetitions of each symbol, concatenated in pair order) gives back the
  input, the run lengths add up to the length of the input, and the empty sequence
  encodes to the empty output.
\<close>

theorem rle_round_trip:
  "rle_expand (rle_encode xs) = xs
   \<and> run_length_sum (rle_encode xs) = length xs
   \<and> rle_encode ([] :: 'a list) = []"
proof (cases xs)
  case Nil
  then show ?thesis by (simp add: rle_expand_Nil run_length_sum_Nil)
next
  case (Cons x it)
  have "rle_expand (rle_loop x 1 [] it) = x # it"
    by (simp add: rle_loop_expand rle_expand_Nil)
  moreover have "run_length_sum (rle_loop x 1 [] it) = Suc (length it)"
    by (simp add: rle_loop_sum run_length_sum_Nil)
  ultimately show ?thesis using Cons by simp
qed

subsection \<open>Palette cache\<close>

lemma find_palette_Some:
  "find_palette c ps = Some (pid, d) \<Longrightarrow> (pid, d) \<in> set ps \<and> colors d = c"
  by (induction ps) (auto split: if_splits)

lemma find_palette_None:
  "find_palette c ps = None \<longleftrightarrow> (\<forall>kd \<in> set ps. colors (snd kd) \<noteq> c)"
  by (induction ps) (auto split: if_splits)

lemma od_set_fresh: "k \<notin> set (map fst od) \<Longrightarrow> od_set k v od = od @ [(k, v)]"
  by (induction od) auto

lemma length_od_set: "length (od_set k v od) \<le> Suc (length od)"
  by (induction od) auto

lemma od_move_to_end_length:
  "od_move_to_end k od = Inr od' \<Longrightarrow> length od' \<le> length od"
proof -
  assume a: "od_move_to_end k od = Inr od'"
  then obtain v where v: "map_of od k = Some v" and od': "od' = filter (\<lambda>kv. fst kv \<noteq> k) od @ [(k, v)]"
    by (auto simp: od_move_to_end_def split: option.splits)
  from v have "(k, v) \<in> set od" by (rule map_of_SomeD)
  then have "length (filter (\<lambda>kv. fst kv \<noteq> k) od) < length od"
    by (intro length_filter_less[of "(k, v)"]) auto
  with od' show ?thesis by simp
qed

lemma get_or_create_size:
  assumes "int (length (palettes pm)) \<le> max_size pm"
  shows "int (length (palettes (fst (get_or_create_palette cols pm)))) \<le> max_size pm
         \<and> max_size (fst (get_or_create_palette cols pm)) = max_size pm"
proof (cases "find_palette cols (palettes pm)")
  case None
  have "length (od_set (next_palette_id pm) \<lparr>colors = cols, colors_list = cols\<rparr> (palettes pm)) \<le> Suc (length (palettes pm))"
    by (rule length_od_set)
  with assms None show ?thesis
    by (auto simp: get_or_create_palette_def Let_def)
next
  case (Some a)
  obtain pid d where a: "a = (pid, d)" by (cases a)
  show ?thesis
  proof (cases "od_move_to_end pid (palettes pm)")
    case (Inl e)
    with Some a assms show ?thesis by (simp add: get_or_create_palette_def)
  next
    case (Inr od)
    from od_move_to_end_length[OF Inr] Some a assms Inr show ?thesis
      by (simp add: get_or_create_palette_def)
  qed
qed

lemma goc_hit:
  assumes wf: "pm_wf pm" and f: "find_palette cols (palettes pm) = Some (pid, d)"
  shows "get_or_create_palette cols pm =
           (pm\<lparr>palettes := filter (\<lambda>kv. fst kv \<noteq> pid) (palettes pm) @ [(pid, d)]\<rparr>,
            Inr (pid, False, colors_list d))"
proof -
  from find_palette_Some[OF f] have "(pid, d) \<in> set (palettes pm)" by simp
  moreover from wf have "distinct (map fst (palettes pm))" by (simp add: pm_wf_def)
  ultimately have "map_of (palettes pm) pid = Some d" by simp
  with f show ?thesis
    by (simp add: get_or_create_palette_def od_move_to_end_def)
qed

lemma goc_miss:
  assumes wf: "pm_wf pm" and f: "find_palette cols (palettes pm) = None"
    and cap: "0 < max_size pm"
  shows "get_or_create_palette cols pm =
           (pm\<lparr>next_palette_id := next_palette_id pm + 1,
               palettes := (if int (length (palettes pm)) + 1 > max_size pm
                            then tl (palettes pm) else palettes pm)
                           @ [(next_palette_id pm, \<lparr>colors = cols, colors_list = cols\<rparr>)]\<rparr>,
            Inr (next_palette_id pm, True, cols))"
proof -
  from wf have fresh: "next_palette_id pm \<notin> set (map fst (palettes pm))"
    by (auto simp: pm_wf_def)
  have fresh_tl: "next_palette_id pm \<notin> set (map fst (tl (palettes pm)))"
    using fresh by (cases "palettes pm") auto
  have m1: "map_of (tl (palettes pm)) (next_palette_id pm) = None"
    using fresh_tl by (simp add: map_of_eq_None_iff)
  have m2: "map_of (palettes pm) (next_palette_id pm) = None"
    using fresh by (simp add: map_of_eq_None_iff)
  show ?thesis
  proof (cases "palettes pm = []")
    case True
    with f cap show ?thesis
      by (simp add: get_or_create_palette_def Let_def)
  next
    case False
    with f fresh m1 m2 show ?thesis
      by (simp add: get_or_create_palette_def Let_def od_set_fresh map_add_def)
  qed
qed

lemma pm_wf_init: "pm_wf (PaletteManager_init n)"
  by (simp add: pm_wf_def PaletteManager_init_def)

lemma goc_wf:
  assumes wf: "pm_wf pm" and cap: "0 < max_size pm"
  shows "pm_wf (fst (get_or_create_palette cols pm))"
proof (cases "find_palette cols (palettes pm)")
  case None
  define ps where "ps = (if int (length (palettes pm)) + 1 > max_size pm
                            then tl (palettes pm) else palettes pm)"
  have sub: "set ps \<subseteq> set (palettes pm)"
    unfolding ps_def by (cases "palettes pm") auto
  have dist: "distinct (map fst ps)"
    using wf unfolding ps_def by (cases "palettes pm") (auto simp: pm_wf_def)
  have distc: "distinct (map (\<lambda>kd. colors (snd kd)) ps)"
    using wf unfolding ps_def by (cases "palettes pm") (auto simp: pm_wf_def)
  have lt: "\<forall>k \<in> set (map fst ps). k < next_palette_id pm"
    using wf sub by (auto simp: pm_wf_def)
  have cl: "\<forall>kd \<in> set ps. colors_list (snd kd) = colors (snd kd)"
    using wf sub by (auto simp: pm_wf_def)
  have nc: "\<forall>kd \<in> set ps. colors (snd kd) \<noteq> cols"
    using None sub by (auto simp: find_palette_None)
  have "fst (get_or_create_palette cols pm) =
          pm\<lparr>next_palette_id := next_palette_id pm + 1,
             palettes := ps @ [(next_palette_id pm, \<lparr>colors = cols, colors_list = cols\<rparr>)]\<rparr>"
    unfolding ps_def by (subst goc_miss[OF wf None cap]) simp
  then show ?thesis
    using dist distc lt cl nc by (auto simp: pm_wf_def)
next
  case (Some a)
  obtain pid d where a: "a = (pid, d)" by (cases a)
  let ?ps = "filter (\<lambda>kv. fst kv \<noteq> pid) (palettes pm)"
  from find_palette_Some[OF Some[unfolded a]] have mem: "(pid, d) \<in> set (palettes pm)" by simp
  from wf have dk: "distinct (map fst (palettes pm))"
    and dc: "distinct (map (\<lambda>kd. colors (snd kd)) (palettes pm))"
    and lt: "\<forall>k \<in> set (map fst (palettes pm)). k < next_palette_id pm"
    and cl: "\<forall>kd \<in> set (palettes pm). colors_list (snd kd) = colors (snd kd)"
    by (simp_all add: pm_wf_def)
  from dc have inj: "inj_on (\<lambda>kd. colors (snd kd)) (set (palettes pm))"
    by (simp add: distinct_map)
  have other: "\<forall>kd \<in> set ?ps. colors (snd kd) \<noteq> colors d"
  proof
    fix kd assume kd: "kd \<in> set ?ps"
    then have in_ps: "kd \<in> set (palettes pm)" and ne: "kd \<noteq> (pid, d)" by auto
    show "colors (snd kd) \<noteq> colors d"
    proof
      assume "colors (snd kd) = colors d"
      then have "(\<lambda>kd. colors (snd kd)) kd = (\<lambda>kd. colors (snd kd)) (pid, d)" by simp
      from inj_onD[OF inj this in_ps mem] ne show False by simp
    qed
  qed
  have "pm_wf (pm\<lparr>palettes := ?ps @ [(pid, d)]\<rparr>)"
    unfolding pm_wf_def
  proof (intro conjI)
    show "distinct (map fst (palettes (pm\<lparr>palettes := ?ps @ [(pid, d)]\<rparr>)))"
      using dk by (auto simp: distinct_map_filter)
    show "\<forall>k \<in> set (map fst (palettes (pm\<lparr>palettes := ?ps @ [(pid, d)]\<rparr>))).
            k < next_palette_id (pm\<lparr>palettes := ?ps @ [(pid, d)]\<rparr>)"
      using lt mem by force
    show "\<forall>kd \<in> set (palettes (pm\<lparr>palettes := ?ps @ [(pid, d)]\<rparr>)).
            colors_list (snd kd) = colors (snd kd)"
      using cl mem by auto
    have d1: "distinct (map (\<lambda>kd. colors (snd kd)) ?ps)"
      using dc by (rule distinct_map_filter)
    have d2: "colors d \<notin> (\<lambda>kd. colors (snd kd)) ` set ?ps"
    proof
      assume "colors d \<in> (\<lambda>kd. colors (snd kd)) ` set ?ps"
      then obtain kd where "kd \<in> set ?ps" and "colors d = colors (snd kd)" by blast
      with other show False by force
    qed
    show "distinct (map (\<lambda>kd. colors (snd kd)) (palettes (pm\<lparr>palettes := ?ps @ [(pid, d)]\<rparr>)))"
      using d1 d2 by simp
  qed
  then show ?thesis
    by (simp add: goc_hit[OF wf Some[unfolded a]])
qed

lemma goc_max_size: "max_size (fst (get_or_create_palette cols pm)) = max_size pm"
  by (auto simp: get_or_create_palette_def Let_def split: option.splits sum.splits prod.splits)

lemma goc_returns:
  assumes wf: "pm_wf pm" and cap: "0 < max_size pm"
  shows "\<exists>pid created. snd (get_or_create_palette cols pm) = Inr (pid, created, cols)"
proof (cases "find_palette cols (palettes pm)")
  case None
  have "snd (get_or_create_palette cols pm) = Inr (next_palette_id pm, True, cols)"
    by (simp add: goc_miss[OF wf None cap])
  then show ?thesis by blast
next
  case (Some a)
  obtain pid d where a: "a = (pid, d)" by (cases a)
  from find_palette_Some[OF Some[unfolded a]]
  have "colors d = cols" and "(pid, d) \<in> set (palettes pm)" by simp_all
  with wf have "colors_list d = cols" by (force simp: pm_wf_def)
  then have "snd (get_or_create_palette cols pm) = Inr (pid, False, cols)"
    by (simp add: goc_hit[OF wf Some[unfolded a]])
  then show ?thesis by blast
qed

lemma remdups_snoc: "remdups (xs @ [x]) = filter (\<lambda>y. y \<noteq> x) (remdups xs) @ [x]"
  by (induction xs) auto

lemma length_filter_distinct:
  "distinct R \<Longrightarrow> x \<in> set R \<Longrightarrow> length (filter (\<lambda>y. y \<noteq> x) R) = length R - 1"
proof (induction R)
  case Nil
  then show ?case by simp
next
  case (Cons a R)
  show ?case
  proof (cases "a = x")
    case True
    with Cons.prems have "x \<notin> set R" by simp
    then have "filter (\<lambda>y. y \<noteq> x) R = R" by (auto intro: filter_True)
    with True show ?thesis by simp
  next
    case False
    with Cons.prems have "x \<in> set R" "distinct R" by simp_all
    with Cons.IH have "length (filter (\<lambda>y. y \<noteq> x) R) = length R - 1" by simp
    moreover from \<open>x \<in> set R\<close> have "length R > 0" by (cases R) auto
    ultimately show ?thesis using False by simp
  qed
qed

lemma lastn_touch:
  assumes d: "distinct R" and x: "x \<in> set (lastn n R)"
  shows "lastn n (filter (\<lambda>y. y \<noteq> x) R @ [x]) = filter (\<lambda>y. y \<noteq> x) (lastn n R) @ [x]"
proof -
  define k where "k = length R - n"
  have R: "R = take k R @ drop k R" by simp
  from x have xd: "x \<in> set (drop k R)" by (simp add: lastn_def k_def)
  have "distinct (take k R @ drop k R)" using d by simp
  then have "set (take k R) \<inter> set (drop k R) = {}" by (simp only: distinct_append)
  with xd have xt: "x \<notin> set (take k R)" by blast
  then have ft: "filter (\<lambda>y. y \<noteq> x) (take k R) = take k R"
    by (auto intro: filter_True)
  have fR: "filter (\<lambda>y. y \<noteq> x) R = take k R @ filter (\<lambda>y. y \<noteq> x) (drop k R)"
    by (subst R) (simp only: filter_append ft)
  from xd d have "x \<in> set R" by (meson in_set_dropD)
  with d have len: "length (filter (\<lambda>y. y \<noteq> x) R) = length R - 1"
    by (rule length_filter_distinct)
  from \<open>x \<in> set R\<close> have "length R > 0" by (cases R) auto
  with len have "length (filter (\<lambda>y. y \<noteq> x) R @ [x]) = length R" by simp
  then have "lastn n (filter (\<lambda>y. y \<noteq> x) R @ [x]) = drop k (filter (\<lambda>y. y \<noteq> x) R @ [x])"
    by (simp add: lastn_def k_def)
  also have "\<dots> = drop k (take k R @ (filter (\<lambda>y. y \<noteq> x) (drop k R) @ [x]))"
    by (simp add: fR)
  also have "\<dots> = filter (\<lambda>y. y \<noteq> x) (drop k R) @ [x]"
    using \<open>length R > 0\<close> by (simp add: k_def min_def)
  finally show ?thesis by (simp add: lastn_def k_def)
qed

lemma lastn_insert:
  assumes n: "0 < n"
  shows "lastn n (R @ [x]) = (if length (lastn n R) + 1 > n then tl (lastn n R) else lastn n R) @ [x]"
  using n by (auto simp: lastn_def drop_Suc tl_drop Suc_diff_le)

lemma goc_step_inv:
  assumes wf: "pm_wf pm" and cap: "0 < max_size pm"
    and K: "map fst (palettes pm) = lastn (nat (max_size pm)) (remdups H)"
    and H: "\<forall>k \<in> set H. k < next_palette_id pm"
  shows "\<exists>pid created.
           snd (get_or_create_palette cols pm) = Inr (pid, created, cols)
         \<and> map fst (palettes (fst (get_or_create_palette cols pm)))
             = lastn (nat (max_size pm)) (remdups (H @ [pid]))
         \<and> (\<forall>k \<in> set (H @ [pid]). k < next_palette_id (fst (get_or_create_palette cols pm)))"
proof (cases "find_palette cols (palettes pm)")
  case None
  let ?new = "next_palette_id pm"
  let ?n = "nat (max_size pm)"
  from H have fresh: "?new \<notin> set (remdups H)" by auto
  then have "filter (\<lambda>y. y \<noteq> ?new) (remdups H) = remdups H"
    by (auto intro: filter_True)
  then have rd: "remdups (H @ [?new]) = remdups H @ [?new]"
    by (simp add: remdups_snoc)
  from cap have n: "0 < ?n" by simp
  have tlmap: "map fst (tl (palettes pm)) = tl (map fst (palettes pm))"
    by (simp add: map_tl)
  have cond: "(int (length (palettes pm)) + 1 > max_size pm)
                \<longleftrightarrow> (length (lastn ?n (remdups H)) + 1 > ?n)"
    using cap K[symmetric] by (simp add: nat_less_iff) linarith
  have keys: "map fst (palettes (fst (get_or_create_palette cols pm)))
                = lastn ?n (remdups (H @ [?new]))"
    unfolding rd lastn_insert[OF n]
    using cond by (simp add: goc_miss[OF wf None cap] tlmap K)
  have "snd (get_or_create_palette cols pm) = Inr (?new, True, cols)"
    by (simp add: goc_miss[OF wf None cap])
  moreover have "\<forall>k \<in> set (H @ [?new]). k < next_palette_id (fst (get_or_create_palette cols pm))"
    using H by (auto simp: goc_miss[OF wf None cap])
  ultimately show ?thesis using keys by blast
next
  case (Some a)
  obtain pid d where a: "a = (pid, d)" by (cases a)
  note hit = goc_hit[OF wf Some[unfolded a]]
  from find_palette_Some[OF Some[unfolded a]]
  have cd: "colors d = cols" and mem: "(pid, d) \<in> set (palettes pm)" by simp_all
  from wf mem have "colors_list (snd (pid, d)) = colors (snd (pid, d))"
    unfolding pm_wf_def by blast
  with cd have cl: "colors_list d = cols" by simp
  from mem have pk: "pid \<in> set (map fst (palettes pm))" by force
  with wf have lt: "pid < next_palette_id pm" unfolding pm_wf_def by blast
  have fm: "map fst (filter (\<lambda>kv. fst kv \<noteq> pid) (palettes pm))
              = filter (\<lambda>y. y \<noteq> pid) (map fst (palettes pm))"
    by (simp add: filter_map comp_def)
  have "map fst (palettes (fst (get_or_create_palette cols pm)))
          = filter (\<lambda>y. y \<noteq> pid) (lastn (nat (max_size pm)) (remdups H)) @ [pid]"
    by (simp add: hit fm K)
  also have "\<dots> = lastn (nat (max_size pm)) (filter (\<lambda>y. y \<noteq> pid) (remdups H) @ [pid])"
    using pk by (subst lastn_touch) (simp_all add: K)
  finally have keys: "map fst (palettes (fst (get_or_create_palette cols pm)))
          = lastn (nat (max_size pm)) (remdups (H @ [pid]))"
    by (simp add: remdups_snoc)
  have "snd (get_or_create_palette cols pm) = Inr (pid, False, cols)"
    by (simp add: hit cl)
  moreover have "\<forall>k \<in> set (H @ [pid]). k < next_palette_id (fst (get_or_create_palette cols pm))"
    using H lt by (auto simp: hit)
  ultimately show ?thesis using keys by blast
qed

lemma run_inv:
  assumes "pm_wf pm" and "0 < max_size pm"
    and "map fst (palettes pm) = lastn (nat (max_size pm)) (remdups H)"
    and "\<forall>k \<in> set H. k < next_palette_id pm"
  shows "pm_wf (fst (run_palette_ops ops pm))
       \<and> max_size (fst (run_palette_ops ops pm)) = max_size pm
       \<and> map fst (palettes (fst (run_palette_ops ops pm)))
           = lastn (nat (max_size pm)) (remdups (H @ snd (run_palette_ops ops pm)))
       \<and> (\<forall>k \<in> set (H @ snd (run_palette_ops ops pm)).
             k < next_palette_id (fst (run_palette_ops ops pm)))
       \<and> length (snd (run_palette_ops ops pm)) = length ops"
  using assms
proof (induction ops arbitrary: pm H)
  case Nil
  then show ?case by simp
next
  case (Cons cols ops)
  obtain pm1 r where g: "get_or_create_palette cols pm = (pm1, r)"
    by (cases "get_or_create_palette cols pm")
  from goc_step_inv[OF Cons.prems, of cols] g
  obtain pid created where r: "r = Inr (pid, created, cols)"
    and k1: "map fst (palettes pm1) = lastn (nat (max_size pm)) (remdups (H @ [pid]))"
    and h1: "\<forall>k \<in> set (H @ [pid]). k < next_palette_id pm1"
    by auto
  have wf1: "pm_wf pm1" using goc_wf[OF Cons.prems(1,2), of cols] g by simp
  have ms1: "max_size pm1 = max_size pm" using goc_max_size[of cols pm] g by simp
  have cap1: "0 < max_size pm1" using ms1 Cons.prems(2) by simp
  from Cons.IH[OF wf1 cap1 k1[folded ms1] h1]
  show ?case
    by (cases "run_palette_ops ops pm1") (simp add: g r ms1)
qed

lemma run_size:
  assumes "int (length (palettes pm)) \<le> max_size pm"
  shows "int (length (palettes (fst (run_palette_ops ops pm)))) \<le> max_size pm"
  using assms
proof (induction ops arbitrary: pm)
  case Nil
  then show ?case by simp
next
  case (Cons cols ops)
  obtain pm1 r where g: "get_or_create_palette cols pm = (pm1, r)"
    by (cases "get_or_create_palette cols pm")
  from get_or_create_size[OF Cons.prems, of cols] g
  have s1: "int (length (palettes pm1)) \<le> max_size pm1" and m1: "max_size pm1 = max_size pm"
    by simp_all
  from Cons.IH[OF s1] m1 show ?case
    by (cases r; cases "run_palette_ops ops pm1") (auto simp: g split: prod.splits)
qed



lemma reachable_wf:
  assumes "0 < n"
  shows "pm_wf (fst (run_palette_ops ops (PaletteManager_init n)))
       \<and> max_size (fst (run_palette_ops ops (PaletteManager_init n))) = n
       \<and> map fst (palettes (fst (run_palette_ops ops (PaletteManager_init n))))
           = lastn (nat n) (remdups (snd (run_palette_ops ops (PaletteManager_init n))))"
proof -
  have i: "pm_wf (PaletteManager_init n)" by (rule pm_wf_init)
  have c: "0 < max_size (PaletteManager_init n)" using assms by (simp add: PaletteManager_init_def)
  have k: "map fst (palettes (PaletteManager_init n))
             = lastn (nat (max_size (PaletteManager_init n))) (remdups [])"
    by (simp add: PaletteManager_init_def lastn_def)
  have h: "\<forall>k \<in> set []. k < next_palette_id (PaletteManager_init n)" by simp
  from run_inv[OF i c k h, of ops] show ?thesis
    by (simp add: PaletteManager_init_def)
qed

subsection \<open>Selection\<close>

lemma valid_candidates_iff:
  "(k, v) \<in> set (valid_candidates cs) \<longleftrightarrow> (k, Some v) \<in> set cs"
  by (induction cs rule: valid_candidates.induct) auto

lemma build_candidates_full:
  assumes "build_candidates img prev cached pm = (pm', Inr cands)"
  shows "(FULL, Some (create_full_update img)) \<in> set cands
       \<and> map fst cands = [FULL, DIFF, FR, IDX, D_IDX, IR]"
  using assms
  by (auto simp: build_candidates_def Let_def split: sum.splits prod.splits)

lemma select_best_returns: "valid \<noteq> [] \<Longrightarrow> \<exists>k v. select_best valid = Inr (k, v)"
  by (cases valid) (auto simp: select_best_def py_min_def intro: prod.exhaust)

lemma make_chunks_returns: "\<exists>chs. make_chunks CHUNK_SIZE_LIMIT data = Inr chs"
  by (simp add: make_chunks_def py_range_step_def CHUNK_SIZE_LIMIT_def)

lemma handle_new_frame_result:
  "(\<exists>err. snd (handle_new_frame e p s) = Inl err) \<or> (\<exists>body. snd (handle_new_frame e p s) = Inr (Body200 body))"
proof (cases "generated_image e")
  case (Inl err)
  then show ?thesis by (simp add: handle_new_frame_def)
next
  case (Inr img)
  let ?prev = "prev_frame_data_of (IMAGE_FRAMES s)"
  obtain pm' r where b: "build_candidates img ?prev (parse_cached_pids (cached_pids p))
                           (palette_manager s) = (pm', r)"
    by (cases "build_candidates img ?prev (parse_cached_pids (cached_pids p)) (palette_manager s)")
  show ?thesis
  proof (cases r)
    case (Inl err)
    with Inr b show ?thesis by (simp add: handle_new_frame_def Let_def)
  next
    case (Inr cands)
    from build_candidates_full[OF b[unfolded Inr]]
    have "(FULL, create_full_update img) \<in> set (valid_candidates cands)"
      by (simp add: valid_candidates_iff)
    then have ne: "valid_candidates cands \<noteq> []" by auto
    from select_best_returns[OF ne] obtain k v
      where sb: "select_best (valid_candidates cands) = Inr (k, v)" by blast
    from make_chunks_returns obtain chs where mc: "make_chunks CHUNK_SIZE_LIMIT v = Inr chs"
      by blast
    from \<open>generated_image e = Inr img\<close> b Inr ne sb mc show ?thesis
      by (simp add: handle_new_frame_def Let_def send_def)
  qed
qed

lemma handle_get_chunk_result:
  "(\<exists>err. snd (handle_get_chunk e p s) = Inl err)
   \<or> (\<exists>body. snd (handle_get_chunk e p s) = Inr (Body200 body))
   \<or> snd (handle_get_chunk e p s) = Inr (SendError 404)"
  by (auto simp: handle_get_chunk_def send_def split: option.splits sum.splits)

lemma do_GET_status:
  "status (snd (do_GET e p s)) \<in> {Some 200, Some 400, Some 404, Some 500, None}"
  using handle_new_frame_result[of e p s] handle_get_chunk_result[of e p s]
  by (cases "handle_new_frame e p s"; cases "handle_get_chunk e p s")
     (auto simp: do_GET_def send_def)

text \<open>
  C10. For every pixel buffer the FULL encoder returns a string, so whenever the six
  encoders have run without an exception the FULL candidate is among the valid ones;
  \<^verbatim>\<open>_handle_new_frame\<close> never answers 204, and no request does.
\<close>

theorem full_never_declines:
  "(snd (build_candidates img prev cached pm) = Inr cands \<longrightarrow>
      (FULL, create_full_update img) \<in> set (valid_candidates cands))
   \<and> snd (handle_new_frame e p s) \<noteq> Inr NoContent204
   \<and> status (snd (do_GET e p s)) \<noteq> Some 204"
proof -
  have a: "snd (build_candidates img prev cached pm) = Inr cands \<longrightarrow>
      (FULL, create_full_update img) \<in> set (valid_candidates cands)"
  proof
    assume "snd (build_candidates img prev cached pm) = Inr cands"
    then have "build_candidates img prev cached pm
                 = (fst (build_candidates img prev cached pm), Inr cands)"
      by (metis prod.collapse)
    from build_candidates_full[OF this] show "(FULL, create_full_update img) \<in> set (valid_candidates cands)"
      by (simp add: valid_candidates_iff)
  qed
  have b: "snd (handle_new_frame e p s) \<noteq> Inr NoContent204"
    using handle_new_frame_result[of e p s] by auto
  have c: "status (snd (do_GET e p s)) \<noteq> Some 204"
    using do_GET_status[of e p s] by auto
  from a b c show ?thesis by blast
qed

lemmas eval_defs = create_full_update_def create_full_rle_update_def create_indexed_update_def
  create_indexed_rle_update_def create_diff_update_def create_diff_indexed_update_def
  build_candidates_def tobytes_def reshape_pixels_def b64_char_def hex_x.simps dec_nat.simps
  hex_02x_def hex_digit_def dec_digit_def str_int_def np_unique_def color_to_idx_def
  hex_format_def palette_payload_def color_count_ok_def MAX_PALETTE_COLORS_def
  get_or_create_palette_def PaletteManager_init_def od_move_to_end_def same_shape_def
  diff_coords_def IMG_WIDTH_def Let_def select_best_def py_min_def

lemma candidates_two_pixels:
  "snd (build_candidates [[(0, 0, 0), (255, 255, 255)]] None {} (PaletteManager_init MAX_PALETTES_TO_KEEP))
     = Inr [(FULL, Some ''F|AAAA////''), (DIFF, None), (FR, Some ''FR|000000,1|ffffff,1''),
          (IDX, Some ''I|0|000000,ffffff|01''), (D_IDX, None),
          (IR, Some ''IR|0|000000,ffffff|0,1|1,1'')]"
  by (simp add: eval_defs MAX_PALETTES_TO_KEEP_def)

theorem full_never_declines_witness:
  "snd (build_candidates [[(0, 0, 0), (255, 255, 255)]] None {} (PaletteManager_init MAX_PALETTES_TO_KEEP))
     = Inr [(FULL, Some ''F|AAAA////''), (DIFF, None), (FR, Some ''FR|000000,1|ffffff,1''),
          (IDX, Some ''I|0|000000,ffffff|01''), (D_IDX, None),
          (IR, Some ''IR|0|000000,ffffff|0,1|1,1'')]
   \<and> (FULL, create_full_update [[(0, 0, 0), (255, 255, 255)]]) \<in> set (valid_candidates [(FULL, Some ''F|AAAA////''), (DIFF, None), (FR, Some ''FR|000000,1|ffffff,1''),
          (IDX, Some ''I|0|000000,ffffff|01''), (D_IDX, None),
          (IR, Some ''IR|0|000000,ffffff|0,1|1,1'')])"
  using full_never_declines [of "[[(0, 0, 0), (255, 255, 255)]]" None "{}" "PaletteManager_init MAX_PALETTES_TO_KEEP"
      "[(FULL, Some ''F|AAAA////''), (DIFF, None), (FR, Some ''FR|000000,1|ffffff,1''),
          (IDX, Some ''I|0|000000,ffffff|01''), (D_IDX, None),
          (IR, Some ''IR|0|000000,ffffff|0,1|1,1'')]"]
    candidates_two_pixels
  by simp

lemmas handler_defs = do_GET_def handle_new_frame_def handle_get_chunk_def initial_state_def
  prev_frame_data_of_def store_frame_def send_def
  parse_cached_pids_def make_chunks_def py_range_step_def CHUNK_SIZE_LIMIT_def
  MAX_FRAMES_TO_KEEP_def MAX_PALETTES_TO_KEEP_def

text \<open>
  C2, as the code has it. For the buffer of the two pixels (0,0,0) and (255,255,255), no
  previous frame, no palette hint and the fresh palette cache, the INDEXED candidate is
  \<^verbatim>\<open>I|0|000000,ffffff|01\<close> (20 bytes), the FULL_RLE candidate is
  \<^verbatim>\<open>FR|000000,1|ffffff,1\<close> (20 bytes) and the FULL candidate is
  \<^verbatim>\<open>F|AAAA////\<close> (10 bytes); the publisher selects FULL and sends it inline.
\<close>

theorem indexed_scenario:
  "snd (create_indexed_update [[(0, 0, 0), (255, 255, 255)]] {} (palette_manager initial_state))
     = Inr (Some ''I|0|000000,ffffff|01'')
   \<and> create_full_rle_update [[(0, 0, 0), (255, 255, 255)]] = Some ''FR|000000,1|ffffff,1''
   \<and> create_full_update [[(0, 0, 0), (255, 255, 255)]] = ''F|AAAA////''
   \<and> length ''I|0|000000,ffffff|01'' = 20
   \<and> length ''FR|000000,1|ffffff,1'' = 20
   \<and> length ''F|AAAA////'' = 10
   \<and> snd (build_candidates [[(0, 0, 0), (255, 255, 255)]] None {} (palette_manager initial_state))
       = Inr [(FULL, Some ''F|AAAA////''), (DIFF, None), (FR, Some ''FR|000000,1|ffffff,1''),
          (IDX, Some ''I|0|000000,ffffff|01''), (D_IDX, None),
          (IR, Some ''IR|0|000000,ffffff|0,1|1,1'')]
   \<and> select_best (valid_candidates [(FULL, Some ''F|AAAA////''), (DIFF, None), (FR, Some ''FR|000000,1|ffffff,1''),
          (IDX, Some ''I|0|000000,ffffff|01''), (D_IDX, None),
          (IR, Some ''IR|0|000000,ffffff|0,1|1,1'')]) = Inr (FULL, ''F|AAAA////'')
   \<and> snd (do_GET \<lparr>generated_image = Inr [[(0, 0, 0), (255, 255, 255)]], uuid4_hex = ''0123456789abcdef0123456789abcdef'', time_now = 0, write_raises = False\<rparr> \<lparr>action = Some ''new_frame'', cached_pids = None, frame_id = None, chunk = None\<rparr> initial_state) = Body200 ''0123456789abcdef0123456789abcdef;1;F|AAAA////''"
proof -
  have c: "snd (build_candidates [[(0, 0, 0), (255, 255, 255)]] None {} (palette_manager initial_state))
       = Inr [(FULL, Some ''F|AAAA////''), (DIFF, None), (FR, Some ''FR|000000,1|ffffff,1''),
          (IDX, Some ''I|0|000000,ffffff|01''), (D_IDX, None),
          (IR, Some ''IR|0|000000,ffffff|0,1|1,1'')]"
    using candidates_two_pixels by (simp add: initial_state_def)
  have sel: "select_best (valid_candidates [(FULL, Some ''F|AAAA////''), (DIFF, None), (FR, Some ''FR|000000,1|ffffff,1''),
          (IDX, Some ''I|0|000000,ffffff|01''), (D_IDX, None),
          (IR, Some ''IR|0|000000,ffffff|0,1|1,1'')]) = Inr (FULL, ''F|AAAA////'')"
    by (simp add: select_best_def py_min_def)
  have i: "snd (create_indexed_update [[(0, 0, 0), (255, 255, 255)]] {} (palette_manager initial_state))
     = Inr (Some ''I|0|000000,ffffff|01'')"
    by (simp add: eval_defs initial_state_def MAX_PALETTES_TO_KEEP_def)
  have fr: "create_full_rle_update [[(0, 0, 0), (255, 255, 255)]] = Some ''FR|000000,1|ffffff,1''"
    by (simp add: eval_defs)
  have f: "create_full_update [[(0, 0, 0), (255, 255, 255)]] = ''F|AAAA////''"
    by (simp add: eval_defs)
  obtain pm' where b: "build_candidates [[(0, 0, 0), (255, 255, 255)]] None {} (palette_manager initial_state)
       = (pm', Inr [(FULL, Some ''F|AAAA////''), (DIFF, None), (FR, Some ''FR|000000,1|ffffff,1''),
          (IDX, Some ''I|0|000000,ffffff|01''), (D_IDX, None),
          (IR, Some ''IR|0|000000,ffffff|0,1|1,1'')])"
    using c by (cases "build_candidates [[(0, 0, 0), (255, 255, 255)]] None {} (palette_manager initial_state)") simp
  have g: "snd (do_GET \<lparr>generated_image = Inr [[(0, 0, 0), (255, 255, 255)]], uuid4_hex = ''0123456789abcdef0123456789abcdef'', time_now = 0, write_raises = False\<rparr> \<lparr>action = Some ''new_frame'', cached_pids = None, frame_id = None, chunk = None\<rparr> initial_state) = Body200 ''0123456789abcdef0123456789abcdef;1;F|AAAA////''"
    using b sel
    by (simp add: do_GET_def handle_new_frame_def parse_cached_pids_def make_chunks_def
        prev_frame_data_of_def store_frame_def py_range_step_def CHUNK_SIZE_LIMIT_def MAX_FRAMES_TO_KEEP_def Let_def str_int_def
        dec_nat.simps dec_digit_def initial_state_def send_def)
  from c sel i fr f g show ?thesis by simp
qed

text \<open>
  The INDEXED candidate of that buffer is not shorter than the FULL candidate, nor than
  the FULL_RLE candidate, and it is not the one selected.
\<close>

theorem indexed_scenario_counterexample:
  "snd (create_indexed_update [[(0, 0, 0), (255, 255, 255)]] {} (palette_manager initial_state))
     = Inr (Some ''I|0|000000,ffffff|01'')
   \<and> \<not> length ''I|0|000000,ffffff|01'' < length (create_full_update [[(0, 0, 0), (255, 255, 255)]])
   \<and> \<not> length ''I|0|000000,ffffff|01'' < length ''FR|000000,1|ffffff,1''
   \<and> select_best (valid_candidates [(FULL, Some ''F|AAAA////''), (DIFF, None), (FR, Some ''FR|000000,1|ffffff,1''),
          (IDX, Some ''I|0|000000,ffffff|01''), (D_IDX, None),
          (IR, Some ''IR|0|000000,ffffff|0,1|1,1'')]) \<noteq> Inr (IDX, ''I|0|000000,ffffff|01'')"
  by (simp add: eval_defs initial_state_def MAX_PALETTES_TO_KEEP_def)

subsection \<open>Selection of the smallest candidate\<close>

lemma min_loop_split:
  "\<exists>pre post. b # xs = pre @ min_loop key b xs # post
     \<and> (\<forall>x \<in> set pre. key (min_loop key b xs) < key x)
     \<and> (\<forall>x \<in> set post. key (min_loop key b xs) \<le> key x)"
proof (induction xs arbitrary: b)
  case Nil
  have "[b] = [] @ min_loop key b [] # []" by simp
  then show ?case by (intro exI[of _ "[]"]) simp
next
  case (Cons x xs)
  show ?case
  proof (cases "key x < key b")
    case True
    define r where "r = min_loop key x xs"
    from Cons.IH[of x] obtain pre post where s: "x # xs = pre @ r # post"
      and p: "\<forall>y \<in> set pre. key r < key y" and q: "\<forall>y \<in> set post. key r \<le> key y"
      unfolding r_def by blast
    have "key r \<le> key x"
    proof (cases pre)
      case Nil
      with s have "x = r" by simp
      then show ?thesis by simp
    next
      case (Cons a pre1)
      with s have "x \<in> set pre" by simp
      with p show ?thesis by auto
    qed
    with True have "key r < key b" by simp
    with p have p': "\<forall>y \<in> set (b # pre). key r < key y" by simp
    from s have s': "b # x # xs = (b # pre) @ r # post" by simp
    have m: "min_loop key b (x # xs) = r" using True by (simp add: r_def)
    from s' p' q show ?thesis unfolding m by blast
  next
    case False
    define r where "r = min_loop key b xs"
    from Cons.IH[of b] obtain pre post where s: "b # xs = pre @ r # post"
      and p: "\<forall>y \<in> set pre. key r < key y" and q: "\<forall>y \<in> set post. key r \<le> key y"
      unfolding r_def by blast
    have m: "min_loop key b (x # xs) = r" using False by (simp add: r_def)
    show ?thesis
    proof (cases pre)
      case Nil
      with s have rb: "b = r" and post: "xs = post" by simp_all
      from rb False have "key r \<le> key x" by simp
      with q post have q': "\<forall>y \<in> set (x # xs). key r \<le> key y" by simp
      from rb have s': "b # x # xs = [] @ r # (x # xs)" by simp
      have p': "\<forall>y \<in> set []. key r < key y" by simp
      from s' p' q' show ?thesis unfolding m by blast
    next
      case (Cons a pre1)
      with s have ab: "a = b" and xs: "xs = pre1 @ r # post" by simp_all
      from p Cons ab have "key r < key b" by simp
      with False have "key r < key x" by simp
      with p Cons ab have p': "\<forall>y \<in> set (b # x # pre1). key r < key y" by simp
      from xs have s': "b # x # xs = (b # x # pre1) @ r # post" by simp
      from s' p' q show ?thesis unfolding m by blast
    qed
  qed
qed

lemma valid_candidates_sorted:
  "sorted_wrt (\<lambda>a b. rank a < (rank b :: nat)) (map fst cs)
     \<Longrightarrow> sorted_wrt (\<lambda>a b. rank (fst a) < rank (fst b)) (valid_candidates cs)"
proof (induction cs rule: valid_candidates.induct)
  case 1
  show ?case by simp
next
  case (2 k rest)
  then show ?case by simp
next
  case (3 k v rest)
  then have "\<forall>kv \<in> set (valid_candidates rest). rank k < rank (fst kv)"
    by (force simp: valid_candidates_iff)
  with 3 show ?case by simp
qed

text \<open>
  C1, as the code has it. Whenever the six encoders have run, the publisher selects a
  valid candidate of the fewest bytes, and among the valid candidates of that length the
  one that comes first in the \<^verbatim>\<open>candidates\<close> dictionary, whose order is FULL, DIFF,
  FULL_RLE, INDEXED, DIFF_INDEXED, INDEXED_RLE.
\<close>

theorem selection_minimal:
  assumes b: "build_candidates img prev cached pm = (pm', Inr cands)"
  shows "\<exists>k v. select_best (valid_candidates cands) = Inr (k, v)
           \<and> (k, Some v) \<in> set cands
           \<and> (\<forall>k' v'. (k', Some v') \<in> set cands \<longrightarrow>
                 length v \<le> length v'
                 \<and> (length v' = length v \<longrightarrow> dict_rank k \<le> dict_rank k'))"
proof -
  let ?key = "\<lambda>item :: fmt \<times> string. length (snd item)"
  from build_candidates_full[OF b]
  have full: "(FULL, create_full_update img) \<in> set (valid_candidates cands)"
    and keys: "map fst cands = [FULL, DIFF, FR, IDX, D_IDX, IR]"
    by (simp_all add: valid_candidates_iff)
  have "sorted_wrt (\<lambda>a b. dict_rank a < dict_rank b) (map fst cands)"
    by (simp add: keys)
  then have srt: "sorted_wrt (\<lambda>a b. dict_rank (fst a) < dict_rank (fst b)) (valid_candidates cands)"
    by (rule valid_candidates_sorted)
  from full obtain c cs where v: "valid_candidates cands = c # cs"
    by (cases "valid_candidates cands") auto
  define r where "r = min_loop ?key c cs"
  have sel: "select_best (valid_candidates cands) = Inr r"
    by (simp add: select_best_def py_min_def v r_def)
  from min_loop_split[of c cs ?key] obtain pre post where s: "c # cs = pre @ r # post"
    and p: "\<forall>x \<in> set pre. ?key r < ?key x" and q: "\<forall>x \<in> set post. ?key r \<le> ?key x"
    unfolding r_def by blast
  obtain k w where r: "r = (k, w)" by (cases r)
  from s v have mem: "(k, w) \<in> set (valid_candidates cands)" by (simp add: r)
  from srt s v have after: "\<forall>x \<in> set post. dict_rank k < dict_rank (fst x)"
    by (simp add: sorted_wrt_append r)
  have "\<forall>k' v'. (k', Some v') \<in> set cands \<longrightarrow>
          length w \<le> length v' \<and> (length v' = length w \<longrightarrow> dict_rank k \<le> dict_rank k')"
  proof (intro allI impI)
    fix k' v' assume "(k', Some v') \<in> set cands"
    then have "(k', v') \<in> set (pre @ r # post)"
      using s v by (simp add: valid_candidates_iff[symmetric])
    then consider "(k', v') \<in> set pre" | "(k', v') = r" | "(k', v') \<in> set post" by auto
    then show "length w \<le> length v' \<and> (length v' = length w \<longrightarrow> dict_rank k \<le> dict_rank k')"
    proof cases
      case 1
      with p r show ?thesis by force
    next
      case 2
      with r show ?thesis by simp
    next
      case 3
      with q after r show ?thesis by force
    qed
  qed
  with sel mem r show ?thesis by (simp add: valid_candidates_iff)
qed

lemma candidates_tie:
  "build_candidates [[(7, 7, 7)], [(7, 7, 7)], [(7, 7, 7)]] (Some [[(7, 7, 7)], [(0, 0, 0)], [(7, 7, 7)]]) {} (PaletteManager_init MAX_PALETTES_TO_KEEP)
     = ((PaletteManager_init MAX_PALETTES_TO_KEEP), Inr [(FULL, Some ''F|BwcHBwcHBwcH''), (DIFF, Some ''D|c8:070707''),
          (FR, Some ''FR|070707,3''), (IDX, None), (D_IDX, None), (IR, None)])"
  by (simp add: eval_defs)

theorem selection_minimal_witness:
  "build_candidates [[(7, 7, 7)], [(7, 7, 7)], [(7, 7, 7)]] (Some [[(7, 7, 7)], [(0, 0, 0)], [(7, 7, 7)]]) {} (PaletteManager_init MAX_PALETTES_TO_KEEP)
     = ((PaletteManager_init MAX_PALETTES_TO_KEEP), Inr [(FULL, Some ''F|BwcHBwcHBwcH''), (DIFF, Some ''D|c8:070707''),
          (FR, Some ''FR|070707,3''), (IDX, None), (D_IDX, None), (IR, None)])
   \<and> (\<exists>k v. select_best (valid_candidates [(FULL, Some ''F|BwcHBwcHBwcH''), (DIFF, Some ''D|c8:070707''),
          (FR, Some ''FR|070707,3''), (IDX, None), (D_IDX, None), (IR, None)]) = Inr (k, v)
           \<and> (k, Some v) \<in> set [(FULL, Some ''F|BwcHBwcHBwcH''), (DIFF, Some ''D|c8:070707''),
          (FR, Some ''FR|070707,3''), (IDX, None), (D_IDX, None), (IR, None)]
           \<and> (\<forall>k' v'. (k', Some v') \<in> set [(FULL, Some ''F|BwcHBwcHBwcH''), (DIFF, Some ''D|c8:070707''),
          (FR, Some ''FR|070707,3''), (IDX, None), (D_IDX, None), (IR, None)] \<longrightarrow>
                 length v \<le> length v'
                 \<and> (length v' = length v \<longrightarrow> dict_rank k \<le> dict_rank k')))"
  by (rule conjI [OF candidates_tie selection_minimal [OF candidates_tie]])

subsection \<open>Chunk requests\<close>

text \<open>
  The conversion on some strings: white space of the parser around the digits, a sign and
  single underscores are accepted; U+00A0 and U+0085 count as white space; the code points
  28 to 31, which \<^verbatim>\<open>str.strip\<close> would remove, are not accepted.
\<close>

lemmas int_defs = chunk_param_def py_int_def PyLong_FromString_def transform_to_ascii_def
  is_ascii_def Py_ISSPACE_def Py_UNICODE_ISSPACE_def digit_of_def digit_or_underscore_def
  default_max_str_digits_def Let_def

lemma py_int_accepts:
  "py_int ''7'' = Inr 7"
  "py_int '' 7 '' = Inr 7"
  "py_int [CHR 0x09, CHR ''7'', CHR 0x0A] = Inr 7"
  "py_int ''+7'' = Inr 7"
  "py_int ''-7'' = Inr (- 7)"
  "py_int ''1_0'' = Inr 10"
  "py_int ''007'' = Inr 7"
  "py_int [CHR 0xA0, CHR ''7''] = Inr 7"
  "py_int [CHR ''7'', CHR 0x85] = Inr 7"
  by (simp_all add: int_defs)

lemma py_int_rejects:
  "py_int ''abc'' = Inl ValueError"
  "py_int [] = Inl ValueError"
  "py_int ''+'' = Inl ValueError"
  "py_int ''- 7'' = Inl ValueError"
  "py_int ''7 8'' = Inl ValueError"
  "py_int ''_1'' = Inl ValueError"
  "py_int ''1_'' = Inl ValueError"
  "py_int ''1__0'' = Inl ValueError"
  "py_int ''1.0'' = Inl ValueError"
  "py_int [CHR 0x1C, CHR ''7''] = Inl ValueError"
  "py_int [CHR ''7'', CHR 0x1F] = Inl ValueError"
  "py_int [CHR 0xA0, CHR 0x1C, CHR ''7''] = Inl ValueError"
  "py_int [CHR 0xE9, CHR ''7''] = Inl ValueError"
  "py_int [CHR ''7'', CHR 0x00] = Inl ValueError"
  by (simp_all add: int_defs)

lemma parse_digits_ones:
  "n \<noteq> 0 \<or> b \<Longrightarrow> \<exists>y. parse_digits b acc (replicate n CHR ''1'') = Some y"
  by (induction n arbitrary: b acc) (simp_all add: digit_of_def)

text \<open>A literal of 4301 digits is over the limit of 4300.\<close>

lemma py_int_too_long: "py_int (replicate 4301 CHR ''1'') = Inl ValueError"
proof -
  have a: "transform_to_ascii (replicate 4301 CHR ''1'') = replicate 4301 CHR ''1''"
    by (simp add: transform_to_ascii_def is_ascii_def list_all_iff)
  have d: "digit_or_underscore CHR ''1''" "\<not> Py_ISSPACE CHR ''1''"
    by (simp_all add: digit_or_underscore_def digit_of_def Py_ISSPACE_def)
  have h: "hd (replicate 4301 CHR ''1'') = CHR ''1''" by (simp add: hd_replicate)
  show ?thesis
    using d h
    by (simp add: py_int_def a PyLong_FromString_def Let_def takeWhile_replicate
        dropWhile_replicate default_max_str_digits_def split: option.splits)
qed

lemma get_chunk_unknown:
  assumes "chunk_param p = Inr i"
    and "frame_id p = None \<or> (\<exists>fid. frame_id p = Some fid \<and> map_of (IMAGE_FRAMES s) fid = None)"
  shows "handle_get_chunk e p s = (s, send e (SendError 404))"
  using assms by (auto simp: handle_get_chunk_def)

lemma get_chunk_out_of_range:
  assumes "chunk_param p = Inr i"
    and "frame_id p = Some fid" and "map_of (IMAGE_FRAMES s) fid = Some f"
    and "i < 0 \<or> int (length (chunks f)) \<le> i"
  shows "handle_get_chunk e p s = (s, send e (SendError 404))"
  using assms by (auto simp: handle_get_chunk_def)

lemma get_chunk_bad_index:
  assumes "chunk_param p = Inl err"
  shows "handle_get_chunk e p s = (s, Inl err)"
  using assms by (simp add: handle_get_chunk_def)

text \<open>
  C4, as the code has it. For a \<^verbatim>\<open>get_chunk\<close> request whose \<^verbatim>\<open>chunk\<close> parameter is
  absent or converts to an integer, the response is 404 when the frame id is absent or not
  a key of the frame store, and also when the frame is known and the index is negative or
  not below the number of its chunks. The conversion comes first: when it raises, the
  response is 500, whatever the frame id. The store is never changed. On a closed
  connection none of these responses can be written and the exception leaves
  \<^verbatim>\<open>do_GET\<close>.
\<close>

theorem get_chunk_not_found:
  assumes act: "action p = Some ''get_chunk''"
  shows "(chunk_param p = Inr i
            \<and> (frame_id p = None
                \<or> (\<exists>fid. frame_id p = Some fid \<and> map_of (IMAGE_FRAMES s) fid = None))
          \<longrightarrow> do_GET e p s = (s, if write_raises e then Raised IOError else SendError 404))
       \<and> (chunk_param p = Inr i \<and> frame_id p = Some fid
            \<and> map_of (IMAGE_FRAMES s) fid = Some f
            \<and> (i < 0 \<or> int (length (chunks f)) \<le> i)
          \<longrightarrow> do_GET e p s = (s, if write_raises e then Raised IOError else SendError 404))
       \<and> (chunk_param p = Inl err
          \<longrightarrow> do_GET e p s = (s, if write_raises e then Raised IOError else SendError 500))"
proof (intro conjI impI)
  assume "chunk_param p = Inr i
            \<and> (frame_id p = None
                \<or> (\<exists>fid. frame_id p = Some fid \<and> map_of (IMAGE_FRAMES s) fid = None))"
  then have "handle_get_chunk e p s = (s, send e (SendError 404))"
    using get_chunk_unknown[of p i s e] by blast
  with act show "do_GET e p s = (s, if write_raises e then Raised IOError else SendError 404)"
    by (simp add: do_GET_def send_def)
next
  assume "chunk_param p = Inr i \<and> frame_id p = Some fid
            \<and> map_of (IMAGE_FRAMES s) fid = Some f
            \<and> (i < 0 \<or> int (length (chunks f)) \<le> i)"
  then have "handle_get_chunk e p s = (s, send e (SendError 404))"
    using get_chunk_out_of_range[of p i fid s f e] by blast
  with act show "do_GET e p s = (s, if write_raises e then Raised IOError else SendError 404)"
    by (simp add: do_GET_def send_def)
next
  assume "chunk_param p = Inl err"
  then have "handle_get_chunk e p s = (s, Inl err)" by (rule get_chunk_bad_index)
  with act show "do_GET e p s = (s, if write_raises e then Raised IOError else SendError 500)"
    by (simp add: do_GET_def send_def)
qed

theorem get_chunk_not_found_witness:
  "action \<lparr>action = Some ''get_chunk'', cached_pids = None, frame_id = Some ''nope'', chunk = Some ''7''\<rparr> = Some ''get_chunk''
   \<and> chunk_param \<lparr>action = Some ''get_chunk'', cached_pids = None, frame_id = Some ''nope'', chunk = Some ''7''\<rparr> = Inr 7
   \<and> map_of (IMAGE_FRAMES initial_state) ''nope'' = None
   \<and> do_GET \<lparr>generated_image = Inl ProducerError, uuid4_hex = [], time_now = 0, write_raises = False\<rparr> \<lparr>action = Some ''get_chunk'', cached_pids = None, frame_id = Some ''nope'', chunk = Some ''7''\<rparr> initial_state = (initial_state, SendError 404)
   \<and> chunk_param \<lparr>action = Some ''get_chunk'', cached_pids = None, frame_id = Some ''f1'', chunk = Some ''1''\<rparr> = Inr 1
   \<and> map_of (IMAGE_FRAMES (initial_state\<lparr>IMAGE_FRAMES := [(''f1'', \<lparr>chunks = [''F|AAAA''], timestamp = 0, image_data = [[(0, 0, 0)]]\<rparr>)]\<rparr>)) ''f1'' = Some \<lparr>chunks = [''F|AAAA''], timestamp = 0, image_data = [[(0, 0, 0)]]\<rparr>
   \<and> int (length (chunks \<lparr>chunks = [''F|AAAA''], timestamp = 0, image_data = [[(0, 0, 0)]]\<rparr>)) \<le> 1
   \<and> do_GET \<lparr>generated_image = Inl ProducerError, uuid4_hex = [], time_now = 0, write_raises = False\<rparr> \<lparr>action = Some ''get_chunk'', cached_pids = None, frame_id = Some ''f1'', chunk = Some ''1''\<rparr> (initial_state\<lparr>IMAGE_FRAMES := [(''f1'', \<lparr>chunks = [''F|AAAA''], timestamp = 0, image_data = [[(0, 0, 0)]]\<rparr>)]\<rparr>)
       = ((initial_state\<lparr>IMAGE_FRAMES := [(''f1'', \<lparr>chunks = [''F|AAAA''], timestamp = 0, image_data = [[(0, 0, 0)]]\<rparr>)]\<rparr>), SendError 404)
   \<and> chunk_param \<lparr>action = Some ''get_chunk'', cached_pids = None, frame_id = Some ''nope'', chunk = Some ''abc''\<rparr> = Inl ValueError
   \<and> do_GET \<lparr>generated_image = Inl ProducerError, uuid4_hex = [], time_now = 0, write_raises = False\<rparr> \<lparr>action = Some ''get_chunk'', cached_pids = None, frame_id = Some ''nope'', chunk = Some ''abc''\<rparr> initial_state = (initial_state, SendError 500)
   \<and> chunk_param \<lparr>action = Some ''get_chunk'', cached_pids = None, frame_id = Some ''nope'', chunk = Some [CHR 0x1C, CHR ''7'']\<rparr> = Inl ValueError
   \<and> do_GET \<lparr>generated_image = Inl ProducerError, uuid4_hex = [], time_now = 0, write_raises = False\<rparr> \<lparr>action = Some ''get_chunk'', cached_pids = None, frame_id = Some ''nope'', chunk = Some [CHR 0x1C, CHR ''7'']\<rparr> initial_state = (initial_state, SendError 500)"
  using get_chunk_not_found [where p = "\<lparr>action = Some ''get_chunk'', cached_pids = None, frame_id = Some ''nope'', chunk = Some ''7''\<rparr>" and i = 7 and s = initial_state
      and e = "\<lparr>generated_image = Inl ProducerError, uuid4_hex = [], time_now = 0, write_raises = False\<rparr>"]
    get_chunk_not_found [where p = "\<lparr>action = Some ''get_chunk'', cached_pids = None, frame_id = Some ''f1'', chunk = Some ''1''\<rparr>" and i = 1 and fid = "''f1''"
      and s = "(initial_state\<lparr>IMAGE_FRAMES := [(''f1'', \<lparr>chunks = [''F|AAAA''], timestamp = 0, image_data = [[(0, 0, 0)]]\<rparr>)]\<rparr>)" and f = "\<lparr>chunks = [''F|AAAA''], timestamp = 0, image_data = [[(0, 0, 0)]]\<rparr>" and e = "\<lparr>generated_image = Inl ProducerError, uuid4_hex = [], time_now = 0, write_raises = False\<rparr>"]
    get_chunk_not_found [where p = "\<lparr>action = Some ''get_chunk'', cached_pids = None, frame_id = Some ''nope'', chunk = Some ''abc''\<rparr>" and err = ValueError
      and s = initial_state and e = "\<lparr>generated_image = Inl ProducerError, uuid4_hex = [], time_now = 0, write_raises = False\<rparr>"]
    get_chunk_not_found [where p = "\<lparr>action = Some ''get_chunk'', cached_pids = None, frame_id = Some ''nope'', chunk = Some [CHR 0x1C, CHR ''7'']\<rparr>" and err = ValueError
      and s = initial_state and e = "\<lparr>generated_image = Inl ProducerError, uuid4_hex = [], time_now = 0, write_raises = False\<rparr>"]
  by (simp add: int_defs initial_state_def)

text \<open>
  An unknown frame id with \<^verbatim>\<open>chunk=abc\<close>: \<^verbatim>\<open>int('abc')\<close> raises before the
  lookup and the response is 500, not 404.
\<close>

theorem get_chunk_unknown_frame_counterexample:
  "frame_id \<lparr>action = Some ''get_chunk'', cached_pids = None, frame_id = Some ''nope'', chunk = Some ''abc''\<rparr> = Some ''nope''
   \<and> map_of (IMAGE_FRAMES initial_state) ''nope'' = None
   \<and> status (snd (do_GET \<lparr>generated_image = Inl ProducerError, uuid4_hex = [], time_now = 0, write_raises = False\<rparr> \<lparr>action = Some ''get_chunk'', cached_pids = None, frame_id = Some ''nope'', chunk = Some ''abc''\<rparr> initial_state)) = Some 500
   \<and> status (snd (do_GET \<lparr>generated_image = Inl ProducerError, uuid4_hex = [], time_now = 0, write_raises = False\<rparr> \<lparr>action = Some ''get_chunk'', cached_pids = None, frame_id = Some ''nope'', chunk = Some ''abc''\<rparr> initial_state)) \<noteq> Some 404"
  by (simp add: int_defs initial_state_def do_GET_def handle_get_chunk_def send_def)

subsection \<open>Chunking\<close>

lemma concat_slices:
  "concat (map (\<lambda>i. take L (drop i data)) (map (\<lambda>k. k * L) [0 ..< m])) = take (m * L) data"
proof (induction m)
  case 0
  show ?case by simp
next
  case (Suc m)
  have "Suc m * L = m * L + L" by simp
  then have "take (Suc m * L) data = take (m * L) data @ take L (drop (m * L) data)"
    by (simp only: take_add)
  with Suc show ?case by simp
qed

lemma ceil_div_covers: "0 < L \<Longrightarrow> n \<le> (n + L - 1) div L * (L :: nat)"
proof -
  assume L: "0 < L"
  have "n + L - 1 = (n + L - 1) div L * L + (n + L - 1) mod L" by simp
  moreover have "(n + L - 1) mod L < L" using L by simp
  ultimately show ?thesis by linarith
qed

lemma slice_start_in_range: "0 < L \<Longrightarrow> k < (n + L - 1) div L \<Longrightarrow> k * L < (n :: nat)"
proof -
  assume L: "0 < L" and k: "k < (n + L - 1) div L"
  then have "Suc k \<le> (n + L - 1) div L" by simp
  then have "Suc k * L \<le> (n + L - 1) div L * L" by (rule mult_le_mono1)
  also have "\<dots> \<le> n + L - 1" by (rule div_times_less_eq_dividend)
  finally show ?thesis using L by simp
qed

lemma make_chunks_props:
  assumes L: "0 < L" and mc: "make_chunks L data = Inr chs"
  shows "concat chs = data"
    and "\<forall>c \<in> set chs. 0 < length c \<and> length c \<le> L"
    and "length chs = (length data + L - 1) div L"
    and "\<forall>i < length chs. chs ! i = take L (drop (i * L) data)"
proof -
  let ?m = "(length data + L - 1) div L"
  from L mc have chs: "chs = map (\<lambda>i. take L (drop i data)) (map (\<lambda>k. k * L) [0 ..< ?m])"
    by (auto simp: make_chunks_def py_range_step_def)
  show "concat chs = data"
    unfolding chs concat_slices using ceil_div_covers[OF L, of "length data"] by simp
  show len: "length chs = ?m" by (simp add: chs)
  show nth: "\<forall>i < length chs. chs ! i = take L (drop (i * L) data)"
    by (simp add: chs)
  show "\<forall>c \<in> set chs. 0 < length c \<and> length c \<le> L"
  proof
    fix c assume "c \<in> set chs"
    then obtain i where i: "i < length chs" and c: "c = chs ! i" by (auto simp: in_set_conv_nth)
    from i len have "i < ?m" by simp
    from slice_start_in_range[OF L this] have "i * L < length data" .
    with nth i c L show "0 < length c \<and> length c \<le> L" by simp
  qed
qed

lemma make_chunks_exact_multiple:
  assumes L: "0 < L" and mc: "make_chunks L data = Inr chs" and n: "length data = j * L"
  shows "length chs = j \<and> (\<forall>c \<in> set chs. length c = L)"
proof -
  have "(j * L + L - 1) div L = j"
  proof (rule div_nat_eqI)
    show "L * j \<le> j * L + L - 1" using L by (simp add: mult.commute)
    have "L * Suc j = j * L + L" by (simp add: mult.commute)
    moreover have "j * L + L - 1 < j * L + L" using L by linarith
    ultimately show "j * L + L - 1 < L * Suc j" by (simp only:)
  qed
  with make_chunks_props(3)[OF L mc] n have len: "length chs = j" by simp
  have "\<forall>c \<in> set chs. length c = L"
  proof
    fix c assume "c \<in> set chs"
    then obtain i where i: "i < length chs" and c: "c = chs ! i" by (auto simp: in_set_conv_nth)
    from i len have "Suc i \<le> j" by simp
    then have "Suc i * L \<le> j * L" by (rule mult_le_mono1)
    then have "L \<le> j * L - i * L" by simp
    with make_chunks_props(4)[OF L mc] i c n show "length c = L" by simp
  qed
  with len show ?thesis by simp
qed

subsection \<open>Invariant of the server state\<close>

lemma create_indexed_update_fst:
  "fst (create_indexed_update img c pm) = pm
   \<or> fst (create_indexed_update img c pm)
       = fst (get_or_create_palette (np_unique (reshape_pixels img)) pm)"
  by (auto simp: create_indexed_update_def Let_def split: prod.splits sum.splits)

lemma create_indexed_rle_update_fst:
  "fst (create_indexed_rle_update img c pm) = pm
   \<or> fst (create_indexed_rle_update img c pm)
       = fst (get_or_create_palette (np_unique (reshape_pixels img)) pm)"
  by (auto simp: create_indexed_rle_update_def Let_def split: prod.splits sum.splits)

lemma create_diff_indexed_update_fst:
  "fst (create_diff_indexed_update img prev c pm) = pm
   \<or> fst (create_diff_indexed_update img prev c pm)
       = fst (get_or_create_palette (np_unique (reshape_pixels img)) pm)"
  by (auto simp: create_diff_indexed_update_def Let_def split: prod.splits sum.splits option.splits)

lemma pm_ok_step:
  assumes "pm_wf pm \<and> 0 < max_size pm"
    and "pm' = pm \<or> pm' = fst (get_or_create_palette cols pm)"
  shows "pm_wf pm' \<and> 0 < max_size pm' \<and> max_size pm' = max_size pm"
  using assms goc_wf[of pm cols] goc_max_size[of cols pm] by auto

lemma build_candidates_pm_ok:
  assumes ok: "pm_wf pm \<and> 0 < max_size pm"
  shows "pm_wf (fst (build_candidates img prev c pm))
       \<and> 0 < max_size (fst (build_candidates img prev c pm))
       \<and> max_size (fst (build_candidates img prev c pm)) = max_size pm"
proof -
  let ?u = "np_unique (reshape_pixels img)"
  define pm1 where "pm1 = fst (create_indexed_update img c pm)"
  define pm2 where "pm2 = fst (create_diff_indexed_update img prev c pm1)"
  define pm3 where "pm3 = fst (create_indexed_rle_update img c pm2)"
  have ok1: "pm_wf pm1 \<and> 0 < max_size pm1 \<and> max_size pm1 = max_size pm"
    using pm_ok_step[OF ok, of pm1 ?u] create_indexed_update_fst[of img c pm]
    by (simp add: pm1_def)
  then have ok1': "pm_wf pm1 \<and> 0 < max_size pm1" by simp
  have ok2: "pm_wf pm2 \<and> 0 < max_size pm2 \<and> max_size pm2 = max_size pm1"
    using pm_ok_step[OF ok1', of pm2 ?u] create_diff_indexed_update_fst[of img prev c pm1]
    by (simp add: pm2_def)
  then have ok2': "pm_wf pm2 \<and> 0 < max_size pm2" by simp
  have ok3: "pm_wf pm3 \<and> 0 < max_size pm3 \<and> max_size pm3 = max_size pm2"
    using pm_ok_step[OF ok2', of pm3 ?u] create_indexed_rle_update_fst[of img c pm2]
    by (simp add: pm3_def)
  have "fst (build_candidates img prev c pm) \<in> {pm, pm1, pm2, pm3}"
    by (auto simp: build_candidates_def Let_def pm1_def pm2_def pm3_def
             split: prod.splits sum.splits)
  with ok ok1 ok2 ok3 show ?thesis by auto
qed

lemma handle_new_frame_ok:
  assumes "handle_new_frame e p s = (s', Inr r)"
  shows "\<exists>img pm' cands k data chs.
           generated_image e = Inr img
         \<and> build_candidates img (prev_frame_data_of (IMAGE_FRAMES s))
               (parse_cached_pids (cached_pids p)) (palette_manager s) = (pm', Inr cands)
         \<and> select_best (valid_candidates cands) = Inr (k, data)
         \<and> make_chunks CHUNK_SIZE_LIMIT data = Inr chs
         \<and> s' = s\<lparr>palette_manager := pm',
                    IMAGE_FRAMES := store_frame (uuid4_hex e)
                      \<lparr>chunks = chs, timestamp = time_now e, image_data = img\<rparr>
                      (IMAGE_FRAMES s)\<rparr>
         \<and> \<not> write_raises e"
proof -
  from assms obtain img where g: "generated_image e = Inr img"
    by (cases "generated_image e") (auto simp: handle_new_frame_def)
  obtain pm' rc where b: "build_candidates img (prev_frame_data_of (IMAGE_FRAMES s))
               (parse_cached_pids (cached_pids p)) (palette_manager s) = (pm', rc)"
    by (cases "build_candidates img (prev_frame_data_of (IMAGE_FRAMES s))
               (parse_cached_pids (cached_pids p)) (palette_manager s)")
  from assms g b obtain cands where rc: "rc = Inr cands"
    by (cases rc) (auto simp: handle_new_frame_def Let_def)
  from build_candidates_full[OF b[unfolded rc]]
  have "(FULL, create_full_update img) \<in> set (valid_candidates cands)"
    by (simp add: valid_candidates_iff)
  then have ne: "valid_candidates cands \<noteq> []" by auto
  from select_best_returns[OF ne] obtain k data
    where sb: "select_best (valid_candidates cands) = Inr (k, data)" by blast
  from make_chunks_returns obtain chs where mc: "make_chunks CHUNK_SIZE_LIMIT data = Inr chs"
    by blast
  from assms g b rc ne sb mc
  have "s' = s\<lparr>palette_manager := pm',
                    IMAGE_FRAMES := store_frame (uuid4_hex e)
                      \<lparr>chunks = chs, timestamp = time_now e, image_data = img\<rparr>
                      (IMAGE_FRAMES s)\<rparr> \<and> \<not> write_raises e"
    by (auto simp: handle_new_frame_def Let_def send_def split: if_splits)
  with g b rc sb mc show ?thesis by blast
qed

lemma map_of_od_set: "map_of (od_set k v od) k = Some v"
  by (induction od) auto

lemma length_od_set_present: "k \<in> fst ` set od \<Longrightarrow> length (od_set k v od) = length od"
  by (induction od) force+

lemma store_frame_lookup:
  assumes "length frames \<le> MAX_FRAMES_TO_KEEP"
  shows "map_of (store_frame fid fr frames) fid = Some fr"
proof (cases "fid \<in> fst ` set frames")
  case True
  with assms show ?thesis
    by (simp add: store_frame_def Let_def length_od_set_present map_of_od_set)
next
  case False
  then have a: "od_set fid fr frames = frames @ [(fid, fr)]"
    by (intro od_set_fresh) simp
  show ?thesis
  proof (cases frames)
    case Nil
    then show ?thesis by (simp add: store_frame_def MAX_FRAMES_TO_KEEP_def)
  next
    case (Cons x xs)
    with False have nx: "fid \<notin> fst ` set xs" and nf: "fst x \<noteq> fid" by auto
    from nx have none: "map_of xs fid = None" by (simp add: map_of_eq_None_iff)
    from Cons False have none': "map_of frames fid = None" by (simp add: map_of_eq_None_iff)
    have "store_frame fid fr frames = frames @ [(fid, fr)]
          \<or> store_frame fid fr frames = xs @ [(fid, fr)]"
      using a Cons by (simp add: store_frame_def Let_def)
    then show ?thesis
      using none none' by (auto simp: map_add_def)
  qed
qed

lemma store_frame_length:
  assumes "length frames \<le> MAX_FRAMES_TO_KEEP"
  shows "length (store_frame fid fr frames) \<le> MAX_FRAMES_TO_KEEP"
  using assms length_od_set[of fid fr frames]
  by (auto simp: store_frame_def Let_def)

lemma handle_new_frame_state:
  "fst (handle_new_frame e p s) = s
   \<or> (\<exists>img. generated_image e = Inr img
        \<and> (fst (handle_new_frame e p s)
              = s\<lparr>palette_manager := fst (build_candidates img
                    (prev_frame_data_of (IMAGE_FRAMES s))
                    (parse_cached_pids (cached_pids p)) (palette_manager s))\<rparr>
           \<or> (\<exists>fr. fst (handle_new_frame e p s)
              = s\<lparr>palette_manager := fst (build_candidates img
                    (prev_frame_data_of (IMAGE_FRAMES s))
                    (parse_cached_pids (cached_pids p)) (palette_manager s)),
                  IMAGE_FRAMES := store_frame (uuid4_hex e) fr (IMAGE_FRAMES s)\<rparr>)))"
proof (cases "generated_image e")
  case (Inl err)
  then show ?thesis by (simp add: handle_new_frame_def)
next
  case (Inr img)
  obtain pm' rc where b: "build_candidates img (prev_frame_data_of (IMAGE_FRAMES s))
               (parse_cached_pids (cached_pids p)) (palette_manager s) = (pm', rc)"
    by (cases "build_candidates img (prev_frame_data_of (IMAGE_FRAMES s))
               (parse_cached_pids (cached_pids p)) (palette_manager s)")
  have "fst (handle_new_frame e p s) = s\<lparr>palette_manager := pm'\<rparr>
        \<or> (\<exists>fr. fst (handle_new_frame e p s)
              = s\<lparr>palette_manager := pm',
                  IMAGE_FRAMES := store_frame (uuid4_hex e) fr (IMAGE_FRAMES s)\<rparr>)"
    using Inr b
    by (auto simp: handle_new_frame_def Let_def split: sum.splits prod.splits)
  with Inr b show ?thesis by auto
qed

lemma handle_get_chunk_state: "fst (handle_get_chunk e p s) = s"
  by (auto simp: handle_get_chunk_def split: sum.splits option.splits)

lemma do_GET_state:
  "fst (do_GET e p s) = s \<or> fst (do_GET e p s) = fst (handle_new_frame e p s)"
  using handle_get_chunk_state[of e p s]
  by (cases "handle_new_frame e p s"; cases "handle_get_chunk e p s")
     (auto simp: do_GET_def split: sum.splits)

lemma handle_new_frame_inv:
  assumes inv: "server_inv s"
  shows "server_inv (fst (handle_new_frame e p s))"
proof -
  from inv have ok: "pm_wf (palette_manager s) \<and> 0 < max_size (palette_manager s)"
    and len: "length (IMAGE_FRAMES s) \<le> MAX_FRAMES_TO_KEEP"
    by (simp_all add: server_inv_def)
  from handle_new_frame_state[of e p s] show ?thesis
    using inv build_candidates_pm_ok[OF ok] store_frame_length[OF len] len
    by (auto simp: server_inv_def)
qed

lemma do_GET_inv: "server_inv s \<Longrightarrow> server_inv (fst (do_GET e p s))"
  using do_GET_state[of e p s] handle_new_frame_inv[of s e p] by auto

lemma initial_state_inv: "server_inv initial_state"
  using pm_wf_init[of MAX_PALETTES_TO_KEEP]
  by (simp add: server_inv_def initial_state_def MAX_PALETTES_TO_KEEP_def
      PaletteManager_init_def)

lemma run_requests_inv: "server_inv s \<Longrightarrow> server_inv (run_requests reqs s)"
  by (induction reqs arbitrary: s) (auto simp: do_GET_inv)

lemma reachable_inv: "server_inv (run_requests reqs initial_state)"
  by (rule run_requests_inv[OF initial_state_inv])

subsection \<open>Stored chunks\<close>

lemma two_pixel_request:
  "do_GET \<lparr>generated_image = Inr [[(0, 0, 0), (255, 255, 255)]], uuid4_hex = ''0123456789abcdef0123456789abcdef'', time_now = 0, write_raises = False\<rparr> \<lparr>action = Some ''new_frame'', cached_pids = None, frame_id = None, chunk = None\<rparr> initial_state
     = (\<lparr>palette_manager = \<lparr>palettes = [(0, \<lparr>colors = [(0, 0, 0), (255, 255, 255)], colors_list = [(0, 0, 0), (255, 255, 255)]\<rparr>)], max_size = 500, next_palette_id = 1\<rparr>,
          IMAGE_FRAMES = [(''0123456789abcdef0123456789abcdef'', \<lparr>chunks = [''F|AAAA////''], timestamp = 0, image_data = [[(0, 0, 0), (255, 255, 255)]]\<rparr>)]\<rparr>, Body200 ''0123456789abcdef0123456789abcdef;1;F|AAAA////'')"
  by (simp add: handler_defs eval_defs)

text \<open>
  C8. The chunk list of a payload, cut at \<^verbatim>\<open>CHUNK_SIZE_LIMIT\<close> = 4000, consists of the
  consecutive slices of the payload; every chunk is non-empty and of at most 4000 bytes,
  their concatenation in order is the payload, there are as many chunks as the length
  divided by 4000, rounded up, and a payload of exactly \<open>j\<close> times 4000 bytes gives \<open>j\<close>
  chunks of 4000 bytes, with no empty chunk at the end. After every \<^verbatim>\<open>new_frame\<close>
  request answered with 200, in any state the server can reach, the frame stored under
  the new frame id holds the chunk list of the selected payload.
\<close>

theorem stored_chunks:
  "(make_chunks CHUNK_SIZE_LIMIT data = Inr chs \<longrightarrow>
      concat chs = data
      \<and> (\<forall>c \<in> set chs. 0 < length c \<and> length c \<le> CHUNK_SIZE_LIMIT)
      \<and> (\<forall>i < length chs. chs ! i = take CHUNK_SIZE_LIMIT (drop (i * CHUNK_SIZE_LIMIT) data))
      \<and> length chs = (length data + CHUNK_SIZE_LIMIT - 1) div CHUNK_SIZE_LIMIT
      \<and> (length data = j * CHUNK_SIZE_LIMIT \<longrightarrow>
           length chs = j \<and> (\<forall>c \<in> set chs. length c = CHUNK_SIZE_LIMIT)))
   \<and> (action p = Some ''new_frame''
        \<and> do_GET e p (run_requests reqs initial_state) = (s', Body200 body) \<longrightarrow>
      (\<exists>img pm' cands k payload f.
          generated_image e = Inr img
        \<and> build_candidates img
              (prev_frame_data_of (IMAGE_FRAMES (run_requests reqs initial_state)))
              (parse_cached_pids (cached_pids p))
              (palette_manager (run_requests reqs initial_state)) = (pm', Inr cands)
        \<and> select_best (valid_candidates cands) = Inr (k, payload)
        \<and> map_of (IMAGE_FRAMES s') (uuid4_hex e) = Some f
        \<and> make_chunks CHUNK_SIZE_LIMIT payload = Inr (chunks f)))"
proof (intro conjI impI)
  have L: "0 < CHUNK_SIZE_LIMIT" by (simp add: CHUNK_SIZE_LIMIT_def)
  assume mc: "make_chunks CHUNK_SIZE_LIMIT data = Inr chs"
  show "concat chs = data" by (rule make_chunks_props(1)[OF L mc])
  show "\<forall>c \<in> set chs. 0 < length c \<and> length c \<le> CHUNK_SIZE_LIMIT"
    by (rule make_chunks_props(2)[OF L mc])
  show "\<forall>i < length chs. chs ! i = take CHUNK_SIZE_LIMIT (drop (i * CHUNK_SIZE_LIMIT) data)"
    by (rule make_chunks_props(4)[OF L mc])
  show "length chs = (length data + CHUNK_SIZE_LIMIT - 1) div CHUNK_SIZE_LIMIT"
    by (rule make_chunks_props(3)[OF L mc])
  assume n: "length data = j * CHUNK_SIZE_LIMIT"
  from make_chunks_exact_multiple[OF L mc n]
  show "length chs = j" and "\<forall>c \<in> set chs. length c = CHUNK_SIZE_LIMIT" by simp_all
next
  let ?s = "run_requests reqs initial_state"
  assume a: "action p = Some ''new_frame''
        \<and> do_GET e p ?s = (s', Body200 body)"
  then have "handle_new_frame e p ?s = (s', Inr (Body200 body))"
    by (cases "handle_new_frame e p ?s")
       (auto simp: do_GET_def send_def split: sum.splits if_splits)
  from handle_new_frame_ok[OF this] obtain img pm' cands k payload chs'
    where g: "generated_image e = Inr img"
      and b: "build_candidates img (prev_frame_data_of (IMAGE_FRAMES ?s))
               (parse_cached_pids (cached_pids p)) (palette_manager ?s) = (pm', Inr cands)"
      and sb: "select_best (valid_candidates cands) = Inr (k, payload)"
      and mc: "make_chunks CHUNK_SIZE_LIMIT payload = Inr chs'"
      and s': "s' = ?s\<lparr>palette_manager := pm',
                    IMAGE_FRAMES := store_frame (uuid4_hex e)
                      \<lparr>chunks = chs', timestamp = time_now e, image_data = img\<rparr>
                      (IMAGE_FRAMES ?s)\<rparr>"
    by blast
  from reachable_inv[of reqs] have "length (IMAGE_FRAMES ?s) \<le> MAX_FRAMES_TO_KEEP"
    by (simp add: server_inv_def)
  from store_frame_lookup[OF this]
  have "map_of (IMAGE_FRAMES s') (uuid4_hex e)
          = Some \<lparr>chunks = chs', timestamp = time_now e, image_data = img\<rparr>"
    by (simp add: s')
  with g b sb mc
  show "\<exists>img pm' cands k payload f.
          generated_image e = Inr img
        \<and> build_candidates img (prev_frame_data_of (IMAGE_FRAMES ?s))
              (parse_cached_pids (cached_pids p)) (palette_manager ?s) = (pm', Inr cands)
        \<and> select_best (valid_candidates cands) = Inr (k, payload)
        \<and> map_of (IMAGE_FRAMES s') (uuid4_hex e) = Some f
        \<and> make_chunks CHUNK_SIZE_LIMIT payload = Inr (chunks f)"
    by force
qed

lemma chunks_of_8000:
  "make_chunks CHUNK_SIZE_LIMIT (replicate 8000 CHR ''a'')
     = Inr [replicate 4000 CHR ''a'', replicate 4000 CHR ''a'']"
proof -
  have "[0 ..< (8000 + 4000 - 1) div 4000] = [0, Suc 0 :: nat]"
    by (simp add: upt_rec)
  then show ?thesis
    by (simp add: make_chunks_def py_range_step_def CHUNK_SIZE_LIMIT_def)
qed

theorem stored_chunks_witness:
  "make_chunks CHUNK_SIZE_LIMIT (replicate 8000 CHR ''a'')
     = Inr [replicate 4000 CHR ''a'', replicate 4000 CHR ''a'']
   \<and> length (replicate 8000 CHR ''a'') = 2 * CHUNK_SIZE_LIMIT
   \<and> concat [replicate 4000 CHR ''a'', replicate 4000 CHR ''a''] = replicate 8000 CHR ''a''
   \<and> length [replicate 4000 CHR ''a'', replicate 4000 CHR ''a''] = 2
   \<and> action \<lparr>action = Some ''new_frame'', cached_pids = None, frame_id = None, chunk = None\<rparr> = Some ''new_frame''
   \<and> do_GET \<lparr>generated_image = Inr [[(0, 0, 0), (255, 255, 255)]], uuid4_hex = ''0123456789abcdef0123456789abcdef'', time_now = 0, write_raises = False\<rparr> \<lparr>action = Some ''new_frame'', cached_pids = None, frame_id = None, chunk = None\<rparr> (run_requests [] initial_state)
       = (\<lparr>palette_manager = \<lparr>palettes = [(0, \<lparr>colors = [(0, 0, 0), (255, 255, 255)], colors_list = [(0, 0, 0), (255, 255, 255)]\<rparr>)], max_size = 500, next_palette_id = 1\<rparr>,
          IMAGE_FRAMES = [(''0123456789abcdef0123456789abcdef'', \<lparr>chunks = [''F|AAAA////''], timestamp = 0, image_data = [[(0, 0, 0), (255, 255, 255)]]\<rparr>)]\<rparr>, Body200 ''0123456789abcdef0123456789abcdef;1;F|AAAA////'')
   \<and> map_of (IMAGE_FRAMES \<lparr>palette_manager = \<lparr>palettes = [(0, \<lparr>colors = [(0, 0, 0), (255, 255, 255)], colors_list = [(0, 0, 0), (255, 255, 255)]\<rparr>)], max_size = 500, next_palette_id = 1\<rparr>,
          IMAGE_FRAMES = [(''0123456789abcdef0123456789abcdef'', \<lparr>chunks = [''F|AAAA////''], timestamp = 0, image_data = [[(0, 0, 0), (255, 255, 255)]]\<rparr>)]\<rparr>) ''0123456789abcdef0123456789abcdef''
       = Some \<lparr>chunks = [''F|AAAA////''], timestamp = 0, image_data = [[(0, 0, 0), (255, 255, 255)]]\<rparr>
   \<and> make_chunks CHUNK_SIZE_LIMIT ''F|AAAA////''
       = Inr (chunks \<lparr>chunks = [''F|AAAA////''], timestamp = 0, image_data = [[(0, 0, 0), (255, 255, 255)]]\<rparr>)"
  using stored_chunks [where data = "replicate 8000 CHR ''a''"
      and chs = "[replicate 4000 CHR ''a'', replicate 4000 CHR ''a'']" and j = 2
      and p = "\<lparr>action = Some ''new_frame'', cached_pids = None, frame_id = None, chunk = None\<rparr>" and e = "\<lparr>generated_image = Inr [[(0, 0, 0), (255, 255, 255)]], uuid4_hex = ''0123456789abcdef0123456789abcdef'', time_now = 0, write_raises = False\<rparr>" and reqs = "[]"
      and s' = "\<lparr>palette_manager = \<lparr>palettes = [(0, \<lparr>colors = [(0, 0, 0), (255, 255, 255)], colors_list = [(0, 0, 0), (255, 255, 255)]\<rparr>)], max_size = 500, next_palette_id = 1\<rparr>,
          IMAGE_FRAMES = [(''0123456789abcdef0123456789abcdef'', \<lparr>chunks = [''F|AAAA////''], timestamp = 0, image_data = [[(0, 0, 0), (255, 255, 255)]]\<rparr>)]\<rparr>" and body = "''0123456789abcdef0123456789abcdef;1;F|AAAA////''"]
    chunks_of_8000 two_pixel_request
  by (simp add: CHUNK_SIZE_LIMIT_def make_chunks_def py_range_step_def)

subsection \<open>Palette bound of the indexed encoders\<close>

lemma pixel_less_irrefl: "\<not> pixel_less p p"
  by (cases p) auto

lemma pixel_less_trans: "pixel_less p q \<Longrightarrow> pixel_less q r \<Longrightarrow> pixel_less p r"
  by (cases p; cases q; cases r) auto

lemma pixel_less_total: "p \<noteq> q \<Longrightarrow> \<not> pixel_less p q \<Longrightarrow> pixel_less q p"
  by (cases p; cases q) auto

lemma set_insert_unique: "set (insert_unique p qs) = insert p (set qs)"
  by (induction qs) auto

lemma sorted_insert_unique:
  "sorted_wrt pixel_less qs \<Longrightarrow> sorted_wrt pixel_less (insert_unique p qs)"
proof (induction qs)
  case Nil
  show ?case by simp
next
  case (Cons q qs)
  show ?case
  proof (cases "p = q")
    case True
    with Cons.prems show ?thesis by simp
  next
    case False
    show ?thesis
    proof (cases "pixel_less p q")
      case True
      with Cons.prems have "\<forall>x \<in> set (q # qs). pixel_less p x"
        by (auto intro: pixel_less_trans)
      with True False Cons.prems show ?thesis by simp
    next
      case nl: False
      from pixel_less_total[OF False nl] have "pixel_less q p" .
      with Cons nl False show ?thesis by (simp add: set_insert_unique)
    qed
  qed
qed

lemma set_np_unique: "set (np_unique ps) = set ps"
  by (induction ps) (simp_all add: np_unique_def set_insert_unique)

lemma sorted_np_unique: "sorted_wrt pixel_less (np_unique ps)"
  by (induction ps) (simp_all add: np_unique_def sorted_insert_unique)

lemma distinct_np_unique: "distinct (np_unique ps)"
proof -
  have "sorted_wrt pixel_less xs \<Longrightarrow> distinct xs" for xs
    by (induction xs) (auto simp: pixel_less_irrefl)
  from this[OF sorted_np_unique] show ?thesis .
qed

lemma length_np_unique: "length (np_unique ps) = card (set ps)"
  using distinct_card[OF distinct_np_unique, of ps] by (simp add: set_np_unique)

lemma lookup_all_length: "lookup_all d ks = Inr vs \<Longrightarrow> length vs = length ks"
  by (induction ks arbitrary: vs) (auto split: option.splits sum.splits)

lemma lookup_all_total:
  "\<forall>k \<in> set ks. d k \<noteq> None \<Longrightarrow> \<exists>vs. lookup_all d ks = Inr vs"
  by (induction ks) (auto split: option.splits sum.splits)

lemma color_to_idx_defined: "color_to_idx palette c \<noteq> None \<longleftrightarrow> c \<in> set palette"
proof -
  have "fst ` set (rev (map (\<lambda>(i, color). (color, i)) (enumerate 0 palette)))
          = snd ` set (enumerate 0 palette)"
    by (force simp: image_iff)
  also have "\<dots> = set (map snd (enumerate 0 palette))" by (simp only: set_map)
  also have "\<dots> = set palette" by (simp only: map_snd_enumerate)
  finally show ?thesis
    by (simp add: color_to_idx_def map_of_eq_None_iff)
qed

lemma rle_loop_not_Nil: "rle_loop p c enc xs \<noteq> []"
  by (induction xs arbitrary: p c enc) auto

lemma rle_encode_Nil_iff: "rle_encode xs = [] \<longleftrightarrow> xs = []"
  by (cases xs) (simp_all add: rle_loop_not_Nil)

lemma enumerate_all_snd:
  "(\<forall>t \<in> set (enumerate n xs). Q (snd t)) \<longleftrightarrow> (\<forall>x \<in> set xs. Q x)"
proof -
  have "set xs = snd ` set (enumerate n xs)"
    by (simp only: set_map[symmetric] map_snd_enumerate)
  then show ?thesis by simp
qed

lemma row_diff_Nil_iff:
  "filter (\<lambda>(x, pa, pb). pa \<noteq> pb) (enumerate 0 (zip ra rb)) = []
     \<longleftrightarrow> (\<forall>pp \<in> set (zip ra rb). fst pp = snd pp)"
proof -
  have "filter (\<lambda>(x, pa, pb). pa \<noteq> pb) (enumerate 0 (zip ra rb)) = []
          \<longleftrightarrow> (\<forall>t \<in> set (enumerate 0 (zip ra rb)). fst (snd t) = snd (snd t))"
    by (auto simp: filter_empty_conv)
  also have "\<dots> \<longleftrightarrow> (\<forall>pp \<in> set (zip ra rb). fst pp = snd pp)"
    by (rule enumerate_all_snd[where Q = "\<lambda>pp. fst pp = snd pp"])
  finally show ?thesis .
qed

lemma diff_coords_Nil:
  "diff_coords a b = []
     \<longleftrightarrow> (\<forall>rr \<in> set (zip a b). \<forall>pp \<in> set (zip (fst rr) (snd rr)). fst pp = snd pp)"
proof -
  have "diff_coords a b = []
          \<longleftrightarrow> (\<forall>t \<in> set (enumerate 0 (zip a b)).
                filter (\<lambda>(x, pa, pb). pa \<noteq> pb)
                  (enumerate 0 (zip (fst (snd t)) (snd (snd t)))) = [])"
    by (auto simp: diff_coords_def)
  also have "\<dots> \<longleftrightarrow> (\<forall>rr \<in> set (zip a b).
                filter (\<lambda>(x, pa, pb). pa \<noteq> pb)
                  (enumerate 0 (zip (fst rr) (snd rr))) = [])"
    by (rule enumerate_all_snd[where Q = "\<lambda>rr. filter (\<lambda>(x, pa, pb). pa \<noteq> pb)
                  (enumerate 0 (zip (fst rr) (snd rr))) = []"])
  finally show ?thesis by (simp only: row_diff_Nil_iff)
qed

lemma zip_same_map:
  "map f a = map f b \<Longrightarrow> (x, y) \<in> set (zip a b) \<Longrightarrow> f x = f y"
proof (induction a arbitrary: b)
  case Nil
  then show ?case by simp
next
  case (Cons u a)
  then show ?case by (cases b) auto
qed

lemma list_eq_zip_fst_snd:
  "length xs = length ys \<Longrightarrow> (\<forall>pp \<in> set (zip xs ys). fst pp = snd pp) \<longleftrightarrow> xs = ys"
  by (simp add: list_eq_iff_zip_eq case_prod_beta)

lemma coords_in_range:
  fixes a b :: "'a list list"
  assumes "(y, x) \<in> set (concat (map (\<lambda>(y, ra, rb).
                map (\<lambda>(x, pa, pb). (y, x)) (filter P (enumerate 0 (zip ra rb))))
             (enumerate 0 (zip a b))))"
  shows "y < length a \<and> x < length (a ! y)"
proof -
  from assms obtain ra rb pp where
    r: "(y, ra, rb) \<in> set (enumerate 0 (zip a b))"
    and c: "(x, pp) \<in> set (enumerate 0 (zip ra rb))"
    by auto
  from r have y: "y < length (zip a b)" and ry: "zip a b ! y = (ra, rb)"
    by (auto simp: in_set_enumerate_eq)
  from c have x: "x < length (zip ra rb)" by (auto simp: in_set_enumerate_eq)
  from y ry have "a ! y = ra" by (simp add: nth_zip)
  with y x show ?thesis by simp
qed

lemma diff_coords_Nil_iff:
  assumes "same_shape a b"
  shows "diff_coords a b = [] \<longleftrightarrow> a = b"
proof -
  from assms have m: "map length a = map length b" by (simp add: same_shape_def)
  then have len: "length a = length b" by (rule map_eq_imp_length_eq)
  have rows: "(\<forall>pp \<in> set (zip ra rb). fst pp = snd pp) \<longleftrightarrow> ra = rb"
    if "(ra, rb) \<in> set (zip a b)" for ra rb
  proof -
    from zip_same_map[OF m that] have "length ra = length rb" .
    then show ?thesis by (rule list_eq_zip_fst_snd)
  qed
  have "(\<forall>pp \<in> set (zip (fst rr) (snd rr)). fst pp = snd pp) \<longleftrightarrow> fst rr = snd rr"
    if "rr \<in> set (zip a b)" for rr
    using rows[of "fst rr" "snd rr"] that by simp
  then have "diff_coords a b = [] \<longleftrightarrow> (\<forall>rr \<in> set (zip a b). fst rr = snd rr)"
    unfolding diff_coords_Nil by blast
  also have "\<dots> \<longleftrightarrow> a = b" using len by (rule list_eq_zip_fst_snd)
  finally show ?thesis .
qed

lemma diff_coords_in_range:
  assumes "(y, x) \<in> set (diff_coords a b)"
  shows "y < length a \<and> x < length (a ! y)"
  using assms unfolding diff_coords_def by (rule coords_in_range)

lemma diff_pixels_in_image:
  "(y, x) \<in> set (diff_coords a b) \<Longrightarrow> a ! y ! x \<in> set (reshape_pixels a)"
  using diff_coords_in_range[of y x a b]
  by (auto simp: reshape_pixels_def intro!: bexI[of _ "a ! y"])

lemma indexed_declines_iff:
  "snd (create_indexed_update img c pm) = Inr None
     \<longleftrightarrow> \<not> color_count_ok (card (set (reshape_pixels img)))"
  by (auto simp: create_indexed_update_def Let_def length_np_unique
           split: prod.splits sum.splits)

lemma indexed_rle_declines_iff:
  "snd (create_indexed_rle_update img c pm) = Inr None
     \<longleftrightarrow> \<not> color_count_ok (card (set (reshape_pixels img)))"
proof (cases "color_count_ok (card (set (reshape_pixels img)))")
  case False
  then show ?thesis
    by (simp add: create_indexed_rle_update_def Let_def length_np_unique)
next
  case True
  then have ne: "reshape_pixels img \<noteq> []" by (auto simp: color_count_ok_def)
  have "rle_encode indices \<noteq> []"
    if "lookup_all d (reshape_pixels img) = Inr indices" for d :: "pixel \<rightharpoonup> nat" and indices
    using lookup_all_length[OF that] ne by (auto simp: rle_encode_Nil_iff)
  with True show ?thesis
    by (auto simp: create_indexed_rle_update_def Let_def length_np_unique
             split: prod.splits sum.splits)
qed

lemma diff_indexed_declines_iff:
  assumes "same_shape img prev"
  shows "snd (create_diff_indexed_update img (Some prev) c pm) = Inr None
     \<longleftrightarrow> \<not> color_count_ok (card (set (reshape_pixels img))) \<or> img = prev"
  using assms diff_coords_Nil_iff[OF assms]
  by (auto simp: create_diff_indexed_update_def Let_def length_np_unique
           split: prod.splits sum.splits)

lemma diff_indexed_no_prev: "snd (create_diff_indexed_update img None c pm) = Inr None"
  by (simp add: create_diff_indexed_update_def)

lemma palette_resolves:
  assumes ok: "pm_wf pm \<and> 0 < max_size pm"
  obtains pm' pid created where
    "get_or_create_palette (np_unique (reshape_pixels img)) pm
       = (pm', Inr (pid, created, np_unique (reshape_pixels img)))"
proof -
  from ok goc_returns[of pm "np_unique (reshape_pixels img)"]
  obtain pid created where
    "snd (get_or_create_palette (np_unique (reshape_pixels img)) pm)
       = Inr (pid, created, np_unique (reshape_pixels img))" by blast
  then have "get_or_create_palette (np_unique (reshape_pixels img)) pm
       = (fst (get_or_create_palette (np_unique (reshape_pixels img)) pm),
          Inr (pid, created, np_unique (reshape_pixels img)))"
    by (simp add: prod_eq_iff)
  then show ?thesis by (rule that)
qed

lemma indices_resolve:
  assumes "set ks \<subseteq> set (reshape_pixels img)"
  obtains indices where
    "lookup_all (color_to_idx (np_unique (reshape_pixels img))) ks = Inr indices"
proof -
  have "\<forall>k \<in> set ks. color_to_idx (np_unique (reshape_pixels img)) k \<noteq> None"
  proof
    fix k assume "k \<in> set ks"
    with assms have "k \<in> set (np_unique (reshape_pixels img))"
      by (simp only: set_np_unique) blast
    then show "color_to_idx (np_unique (reshape_pixels img)) k \<noteq> None"
      by (simp only: color_to_idx_defined)
  qed
  from lookup_all_total[OF this] show ?thesis using that by blast
qed

lemma indexed_produces:
  assumes ok: "pm_wf pm \<and> 0 < max_size pm"
    and n: "color_count_ok (card (set (reshape_pixels img)))"
  shows "\<exists>str. snd (create_indexed_update img c pm) = Inr (Some str)"
proof -
  from palette_resolves[OF ok, of img] obtain pm' pid created where
    g: "get_or_create_palette (np_unique (reshape_pixels img)) pm
       = (pm', Inr (pid, created, np_unique (reshape_pixels img)))" .
  from indices_resolve[of "reshape_pixels img" img] obtain indices where
    l: "lookup_all (color_to_idx (np_unique (reshape_pixels img))) (reshape_pixels img)
          = Inr indices" by blast
  from n g l show ?thesis
    by (simp add: create_indexed_update_def Let_def length_np_unique)
qed

lemma indexed_rle_produces:
  assumes ok: "pm_wf pm \<and> 0 < max_size pm"
    and n: "color_count_ok (card (set (reshape_pixels img)))"
  shows "\<exists>str. snd (create_indexed_rle_update img c pm) = Inr (Some str)"
proof -
  from palette_resolves[OF ok, of img] obtain pm' pid created where
    g: "get_or_create_palette (np_unique (reshape_pixels img)) pm
       = (pm', Inr (pid, created, np_unique (reshape_pixels img)))" .
  from indices_resolve[of "reshape_pixels img" img] obtain indices where
    l: "lookup_all (color_to_idx (np_unique (reshape_pixels img))) (reshape_pixels img)
          = Inr indices" by blast
  from n have "reshape_pixels img \<noteq> []" by (auto simp: color_count_ok_def)
  with lookup_all_length[OF l] have "rle_encode indices \<noteq> []"
    by (auto simp: rle_encode_Nil_iff)
  with n g l show ?thesis
    by (simp add: create_indexed_rle_update_def Let_def length_np_unique)
qed

lemma diff_indexed_produces:
  assumes ok: "pm_wf pm \<and> 0 < max_size pm"
    and n: "color_count_ok (card (set (reshape_pixels img)))"
    and sh: "same_shape img prev" and ne: "img \<noteq> prev"
  shows "\<exists>str. snd (create_diff_indexed_update img (Some prev) c pm) = Inr (Some str)"
proof -
  from palette_resolves[OF ok, of img] obtain pm' pid created where
    g: "get_or_create_palette (np_unique (reshape_pixels img)) pm
       = (pm', Inr (pid, created, np_unique (reshape_pixels img)))" .
  have "set (map (\<lambda>(y, x). img ! y ! x) (diff_coords img prev)) \<subseteq> set (reshape_pixels img)"
    using diff_pixels_in_image[of _ _ img prev] by auto
  from indices_resolve[OF this] obtain idxs where
    l: "lookup_all (color_to_idx (np_unique (reshape_pixels img)))
          (map (\<lambda>(y, x). img ! y ! x) (diff_coords img prev)) = Inr idxs" by blast
  from ne diff_coords_Nil_iff[OF sh] have "diff_coords img prev \<noteq> []" by simp
  with n g l sh show ?thesis
    by (simp add: create_diff_indexed_update_def Let_def length_np_unique)
qed

text \<open>
  C7. With \<open>n\<close> the number of distinct colors of the buffer, INDEXED and INDEXED_RLE
  decline exactly when \<open>n\<close> is at most 1 or more than 256. DIFF_INDEXED declines without
  a previous buffer, and against a previous buffer of the same shape it declines exactly
  when \<open>n\<close> is out of that range or no pixel has changed. In every state the server can
  reach, a buffer with \<open>1 < n \<le> 256\<close> gets a candidate from INDEXED and INDEXED_RLE, and
  from DIFF_INDEXED when a pixel has changed.
\<close>

theorem indexed_encoders_decline:
  "(snd (create_indexed_update img c pm) = Inr None
      \<longleftrightarrow> \<not> (1 < card (set (reshape_pixels img)) \<and> card (set (reshape_pixels img)) \<le> 256))
   \<and> (snd (create_indexed_rle_update img c pm) = Inr None
      \<longleftrightarrow> \<not> (1 < card (set (reshape_pixels img)) \<and> card (set (reshape_pixels img)) \<le> 256))
   \<and> snd (create_diff_indexed_update img None c pm) = Inr None
   \<and> (same_shape img prev \<longrightarrow>
        (snd (create_diff_indexed_update img (Some prev) c pm) = Inr None
           \<longleftrightarrow> \<not> (1 < card (set (reshape_pixels img))
                    \<and> card (set (reshape_pixels img)) \<le> 256) \<or> img = prev))
   \<and> (1 < card (set (reshape_pixels img)) \<and> card (set (reshape_pixels img)) \<le> 256 \<longrightarrow>
        (\<exists>str. snd (create_indexed_update img c
                  (palette_manager (run_requests reqs initial_state))) = Inr (Some str))
      \<and> (\<exists>str. snd (create_indexed_rle_update img c
                  (palette_manager (run_requests reqs initial_state))) = Inr (Some str))
      \<and> (same_shape img prev \<and> img \<noteq> prev \<longrightarrow>
           (\<exists>str. snd (create_diff_indexed_update img (Some prev) c
                  (palette_manager (run_requests reqs initial_state))) = Inr (Some str))))"
proof -
  have cc: "color_count_ok (card (set (reshape_pixels img)))
        \<longleftrightarrow> 1 < card (set (reshape_pixels img)) \<and> card (set (reshape_pixels img)) \<le> 256"
    by (simp add: color_count_ok_def MAX_PALETTE_COLORS_def)
  from reachable_inv[of reqs]
  have ok: "pm_wf (palette_manager (run_requests reqs initial_state))
            \<and> 0 < max_size (palette_manager (run_requests reqs initial_state))"
    by (simp add: server_inv_def)
  show ?thesis
    using indexed_declines_iff[of img c pm] indexed_rle_declines_iff[of img c pm]
      diff_indexed_no_prev[of img c pm] diff_indexed_declines_iff[of img prev c pm]
      indexed_produces[OF ok, of img c] indexed_rle_produces[OF ok, of img c]
      diff_indexed_produces[OF ok, of img prev c]
    unfolding cc by blast
qed

theorem indexed_encoders_decline_witness:
  "card (set (reshape_pixels [[(0, 0, 0), (255, 255, 255)]])) = 2
   \<and> same_shape [[(0, 0, 0), (255, 255, 255)]] [[(0, 0, 0), (0, 0, 0)]]
   \<and> ([[(0, 0, 0), (255, 255, 255)]] :: image) \<noteq> [[(0, 0, 0), (0, 0, 0)]]
   \<and> snd (create_indexed_update [[(0, 0, 0), (255, 255, 255)]] {} (palette_manager (run_requests [] initial_state)))
       = Inr (Some ''I|0|000000,ffffff|01'')
   \<and> snd (create_indexed_rle_update [[(0, 0, 0), (255, 255, 255)]] {} (palette_manager (run_requests [] initial_state)))
       = Inr (Some ''IR|0|000000,ffffff|0,1|1,1'')
   \<and> snd (create_diff_indexed_update [[(0, 0, 0), (255, 255, 255)]] (Some [[(0, 0, 0), (0, 0, 0)]]) {} (palette_manager (run_requests [] initial_state)))
       = Inr (Some ''DI|0|000000,ffffff|1:1'')
   \<and> card (set (reshape_pixels [[(7, 7, 7), (7, 7, 7)]])) = 1
   \<and> snd (create_indexed_update [[(7, 7, 7), (7, 7, 7)]] {} (palette_manager (run_requests [] initial_state))) = Inr None
   \<and> snd (create_indexed_rle_update [[(7, 7, 7), (7, 7, 7)]] {} (palette_manager (run_requests [] initial_state))) = Inr None
   \<and> snd (create_diff_indexed_update [[(7, 7, 7), (7, 7, 7)]] (Some [[(0, 0, 0), (0, 0, 0)]]) {} (palette_manager (run_requests [] initial_state))) = Inr None
   \<and> snd (create_diff_indexed_update [[(0, 0, 0), (255, 255, 255)]] (Some [[(0, 0, 0), (255, 255, 255)]]) {} (palette_manager (run_requests [] initial_state))) = Inr None"
  using indexed_encoders_decline [where img = "[[(0, 0, 0), (255, 255, 255)]]" and prev = "[[(0, 0, 0), (0, 0, 0)]]" and c = "{}"
      and pm = "(palette_manager (run_requests [] initial_state))" and reqs = "[]"]
    indexed_encoders_decline [where img = "[[(7, 7, 7), (7, 7, 7)]]" and prev = "[[(0, 0, 0), (0, 0, 0)]]" and c = "{}"
      and pm = "(palette_manager (run_requests [] initial_state))" and reqs = "[]"]
    indexed_encoders_decline [where img = "[[(0, 0, 0), (255, 255, 255)]]" and prev = "[[(0, 0, 0), (255, 255, 255)]]" and c = "{}"
      and pm = "(palette_manager (run_requests [] initial_state))" and reqs = "[]"]
  by (simp add: eval_defs initial_state_def MAX_PALETTES_TO_KEEP_def)

subsection \<open>Failed requests\<close>

lemma indexed_no_error:
  assumes ok: "pm_wf pm \<and> 0 < max_size pm"
  shows "\<exists>r. snd (create_indexed_update img c pm) = Inr r"
  using indexed_produces[OF ok, of img c] indexed_declines_iff[of img c pm] by blast

lemma indexed_rle_no_error:
  assumes ok: "pm_wf pm \<and> 0 < max_size pm"
  shows "\<exists>r. snd (create_indexed_rle_update img c pm) = Inr r"
  using indexed_rle_produces[OF ok, of img c] indexed_rle_declines_iff[of img c pm] by blast

lemma diff_indexed_no_error:
  assumes ok: "pm_wf pm \<and> 0 < max_size pm"
    and d: "create_diff_update img prev = Inr d"
  shows "\<exists>r. snd (create_diff_indexed_update img prev c pm) = Inr r"
proof (cases prev)
  case None
  then show ?thesis by (simp add: diff_indexed_no_prev)
next
  case (Some pv)
  with d have sh: "same_shape img pv"
    by (auto simp: create_diff_update_def split: if_splits)
  show ?thesis
    using diff_indexed_produces[OF ok _ sh, of c] diff_indexed_declines_iff[OF sh, of c pm] Some
    by blast
qed

lemma build_candidates_error_state:
  assumes ok: "pm_wf pm \<and> 0 < max_size pm"
    and b: "build_candidates img prev c pm = (pm', Inl err)"
  shows "pm' = pm"
proof (cases "create_diff_update img prev")
  case (Inl e)
  with b show ?thesis by (simp add: build_candidates_def)
next
  case (Inr d)
  obtain pm1 r1 where i: "create_indexed_update img c pm = (pm1, r1)"
    by (cases "create_indexed_update img c pm")
  from indexed_no_error[OF ok, of img c] i obtain idx where r1: "r1 = Inr idx" by auto
  have ok1: "pm_wf pm1 \<and> 0 < max_size pm1"
    using pm_ok_step[OF ok, of pm1 "np_unique (reshape_pixels img)"]
      create_indexed_update_fst[of img c pm] i by simp
  obtain pm2 r2 where di: "create_diff_indexed_update img prev c pm1 = (pm2, r2)"
    by (cases "create_diff_indexed_update img prev c pm1")
  from diff_indexed_no_error[OF ok1 Inr, of c] di obtain d_idx where r2: "r2 = Inr d_idx" by auto
  have ok2: "pm_wf pm2 \<and> 0 < max_size pm2"
    using pm_ok_step[OF ok1, of pm2 "np_unique (reshape_pixels img)"]
      create_diff_indexed_update_fst[of img prev c pm1] di by simp
  obtain pm3 r3 where ir: "create_indexed_rle_update img c pm2 = (pm3, r3)"
    by (cases "create_indexed_rle_update img c pm2")
  from indexed_rle_no_error[OF ok2, of img c] ir obtain irv where r3: "r3 = Inr irv" by auto
  from b Inr i r1 di r2 ir r3 show ?thesis
    by (simp add: build_candidates_def Let_def)
qed

lemma handle_new_frame_error_state:
  assumes inv: "server_inv s" and w: "\<not> write_raises e"
    and h: "handle_new_frame e p s = (s', Inl err)"
  shows "s' = s"
proof (cases "generated_image e")
  case (Inl e')
  with h show ?thesis by (simp add: handle_new_frame_def)
next
  case (Inr img)
  from inv have ok: "pm_wf (palette_manager s) \<and> 0 < max_size (palette_manager s)"
    by (simp add: server_inv_def)
  obtain pm' rc where b: "build_candidates img (prev_frame_data_of (IMAGE_FRAMES s))
               (parse_cached_pids (cached_pids p)) (palette_manager s) = (pm', rc)"
    by (cases "build_candidates img (prev_frame_data_of (IMAGE_FRAMES s))
               (parse_cached_pids (cached_pids p)) (palette_manager s)")
  show ?thesis
  proof (cases rc)
    case (Inl e')
    from build_candidates_error_state[OF ok b[unfolded Inl]] have "pm' = palette_manager s" .
    with h Inr b Inl show ?thesis by (simp add: handle_new_frame_def Let_def)
  next
    case rcr: (Inr cands)
    from build_candidates_full[OF b[unfolded rcr]]
    have "(FULL, create_full_update img) \<in> set (valid_candidates cands)"
      by (simp add: valid_candidates_iff)
    then have ne: "valid_candidates cands \<noteq> []" by auto
    from select_best_returns[OF ne] obtain k v
      where sb: "select_best (valid_candidates cands) = Inr (k, v)" by blast
    from make_chunks_returns obtain chs where mc: "make_chunks CHUNK_SIZE_LIMIT v = Inr chs"
      by blast
    from h Inr b rcr ne sb mc w show ?thesis
      by (simp add: handle_new_frame_def Let_def send_def)
  qed
qed

lemma do_GET_state_write: "fst (do_GET e p s) = fst (do_GET (e\<lparr>write_raises := False\<rparr>) p s)"
proof -
  have n: "fst (handle_new_frame e p s) = fst (handle_new_frame (e\<lparr>write_raises := False\<rparr>) p s)"
    by (auto simp: handle_new_frame_def Let_def split: sum.splits prod.splits)
  have g: "fst (handle_get_chunk e p s) = fst (handle_get_chunk (e\<lparr>write_raises := False\<rparr>) p s)"
    by (simp add: handle_get_chunk_state)
  have "fst (do_GET e' p s) =
          (if action p = Some ''new_frame'' then fst (handle_new_frame e' p s)
           else if action p = Some ''get_chunk'' then fst (handle_get_chunk e' p s) else s)" for e'
    by (cases "handle_new_frame e' p s"; cases "handle_get_chunk e' p s")
       (auto simp: do_GET_def send_def split: sum.splits)
  with n g show ?thesis by simp
qed

text \<open>On a closed connection every handler raises, at the latest when it writes.\<close>

lemma handle_new_frame_closed:
  assumes w: "write_raises e"
  shows "\<exists>err. snd (handle_new_frame e p s) = Inl err"
  using w handle_new_frame_result[of e p s]
  by (auto simp: handle_new_frame_def Let_def send_def split: sum.splits prod.splits if_splits)

lemma handle_get_chunk_closed:
  assumes w: "write_raises e"
  shows "\<exists>err. snd (handle_get_chunk e p s) = Inl err"
  using w
  by (auto simp: handle_get_chunk_def send_def split: sum.splits option.splits)

lemma do_GET_closed:
  assumes w: "write_raises e"
  shows "snd (do_GET e p s) = Raised IOError"
  using w handle_new_frame_closed[OF w, of p s] handle_get_chunk_closed[OF w, of p s]
  by (cases "handle_new_frame e p s"; cases "handle_get_chunk e p s")
     (auto simp: do_GET_def send_def)

lemma do_GET_open:
  assumes w: "\<not> write_raises e"
  shows "status (snd (do_GET e p s)) \<noteq> None"
proof -
  have n: "snd (handle_new_frame e p s) = Inr r \<Longrightarrow> status r \<noteq> None" for r
    using handle_new_frame_result[of e p s] by auto
  have g: "snd (handle_get_chunk e p s) = Inr r \<Longrightarrow> status r \<noteq> None" for r
    using handle_get_chunk_result[of e p s] by auto
  from w n g show ?thesis
    by (cases "handle_new_frame e p s"; cases "handle_get_chunk e p s")
       (auto simp: do_GET_def send_def split: sum.splits)
qed

lemma new_frame_producer_raises:
  assumes "action p = Some ''new_frame''" and "generated_image e = Inl err"
    and "\<not> write_raises e"
  shows "do_GET e p s = (s, SendError 500)"
  using assms by (simp add: do_GET_def handle_new_frame_def send_def)

subsection \<open>A tie between DIFF and FULL_RLE\<close>

lemma length_b64encode: "length (b64encode bs) = 4 * ((length bs + 2) div 3)"
proof (induction bs rule: b64encode.induct)
  case (4 a b c rest)
  have "(length (a # b # c # rest) + 2) div 3 = Suc ((length rest + 2) div 3)" by simp
  with 4 show ?case by simp
qed simp_all

lemma length_tobytes: "length (tobytes img) = 3 * length (reshape_pixels img)"
proof -
  have "length (concat (map (\<lambda>(r, g, b). [r, g, b]) ps)) = 3 * length ps" for ps :: "pixel list"
    by (induction ps) auto
  then show ?thesis by (simp add: tobytes_def)
qed

lemma length_create_full_update:
  "length (create_full_update img) = 2 + 4 * length (reshape_pixels img)"
  by (simp add: create_full_update_def length_b64encode length_tobytes)

lemma rle_loop_replicate: "rle_loop p c enc (replicate n p) = enc @ [(p, c + n)]"
  by (induction n arbitrary: c) simp_all

lemma rle_encode_two_runs:
  assumes "x \<noteq> y"
  shows "rle_encode (x # replicate (Suc m) y) = [(x, 1), (y, Suc m)]"
  using assms by (simp add: rle_loop_replicate)

lemma concat_replicate_replicate: "concat (replicate k (replicate m x)) = replicate (k * m) x"
  by (induction k) (simp_all add: replicate_add)

lemma concat_replicate_single: "concat (replicate n [c]) = replicate n c"
  by (induction n) simp_all

lemma np_unique_replicate: "np_unique (replicate (Suc n) x) = [x]"
  by (induction n) (simp_all add: np_unique_def)

lemma np_unique_Cons: "np_unique (p # ps) = insert_unique p (np_unique ps)"
  by (simp add: np_unique_def)

lemma lookup_all_replicate: "d k = Some v \<Longrightarrow> lookup_all d (replicate n k) = Inr (replicate n v)"
  by (induction n) simp_all

lemma row_same:
  "filter (\<lambda>(x, pa, pb). pa \<noteq> pb) (enumerate m (zip r r)) = []"
  by (auto simp: filter_empty_conv in_set_enumerate_eq in_set_zip)

lemma row_same_replicate:
  "filter (\<lambda>(x, pa, pb). pa \<noteq> pb) (enumerate m (replicate k (p, p))) = []"
  by (auto simp: filter_empty_conv in_set_enumerate_eq)

lemma row_one_diff:
  assumes "p \<noteq> q"
  shows "filter (\<lambda>(x, pa, pb). pa \<noteq> pb)
           (enumerate 0 (zip (replicate (i + Suc j) p) (replicate i p @ q # replicate j p)))
         = [(i, p, q)]"
proof -
  have "replicate (i + Suc j) p = replicate i p @ (p # replicate j p)"
    by (simp only: replicate_add replicate_Suc)
  then have "zip (replicate (i + Suc j) p) (replicate i p @ q # replicate j p)
          = zip (replicate i p) (replicate i p) @ (p, q) # zip (replicate j p) (replicate j p)"
    by (simp only: zip_append zip_Cons_Cons)
  then show ?thesis
    using assms by (simp add: enumerate_append_eq row_same_replicate)
qed

lemma rows_same:
  "concat (map (\<lambda>(y, ra, rb). map (\<lambda>(x, pa, pb). (y, x))
                  (filter (\<lambda>(x, pa, pb). pa \<noteq> pb) (enumerate 0 (zip ra rb))))
             (enumerate n (replicate k (r, r)))) = []"
  by (induction k arbitrary: n) (simp_all add: row_same)

lemma tie_frame_pixels:
  "reshape_pixels tie_frame = (255, 255, 255) # replicate 29999 (0, 0, 0)"
  by (simp add: tie_frame_def reshape_pixels_def concat_replicate_replicate
      replicate_add[symmetric])

lemma tie_frame_shape: "length tie_frame = 150 \<and> (\<forall>row \<in> set tie_frame. length row = 200)"
  by (simp add: tie_frame_def)

lemma tie_prev_shape: "same_shape tie_frame tie_prev"
  by (simp add: tie_frame_def tie_prev_def same_shape_def)

lemma tie_diff_coords: "diff_coords tie_frame tie_prev = [(1, 56), (2, 112)]"
proof -
  let ?b = "(0, 0, 0) :: pixel" and ?c = "(1, 1, 1) :: pixel"
  have r1: "filter (\<lambda>(x, pa, pb). pa \<noteq> pb)
           (enumerate 0 (zip (replicate 200 ?b) (replicate 56 ?b @ ?c # replicate 143 ?b)))
         = [(56, ?b, ?c)]"
    using row_one_diff[of ?b ?c 56 143] by simp
  have r2: "filter (\<lambda>(x, pa, pb). pa \<noteq> pb)
           (enumerate 0 (zip (replicate 200 ?b) (replicate 112 ?b @ ?c # replicate 87 ?b)))
         = [(112, ?b, ?c)]"
    using row_one_diff[of ?b ?c 112 87] by simp
  show ?thesis
    by (simp add: diff_coords_def tie_frame_def tie_prev_def row_same row_same_replicate
        rows_same r1 r2)
qed

lemma rle_encode_29999:
  "x \<noteq> y \<Longrightarrow> rle_encode (x # replicate 29999 y) = [(x, 1), (y, 29999)]"
  using rle_encode_two_runs[of x y 29998] by simp

lemma tie_unique_colors:
  "np_unique (reshape_pixels tie_frame) = [(0, 0, 0), (255, 255, 255)]"
  using np_unique_replicate[of 29998 "(0, 0, 0)"]
  by (simp add: tie_frame_pixels np_unique_Cons)

lemma tie_indices:
  "lookup_all (color_to_idx [(0, 0, 0), (255, 255, 255)]) (reshape_pixels tie_frame)
     = Inr (1 # replicate 29999 0)"
proof -
  have b: "color_to_idx [(0, 0, 0), (255, 255, 255)] (0, 0, 0) = Some 0"
    and w: "color_to_idx [(0, 0, 0), (255, 255, 255)] (255, 255, 255) = Some 1"
    by (simp_all add: color_to_idx_def)
  have "lookup_all (color_to_idx [(0, 0, 0), (255, 255, 255)]) (replicate 29999 (0, 0, 0))
          = Inr (replicate 29999 0)"
    using b by (rule lookup_all_replicate[where d = "color_to_idx [(0, 0, 0), (255, 255, 255)]"
          and k = "(0, 0, 0)" and v = 0])
  with w show ?thesis
    by (simp add: tie_frame_pixels)
qed

lemma tie_full_length: "length (create_full_update tie_frame) = 120002"
  by (simp add: length_create_full_update tie_frame_pixels)

lemma tie_full_rle:
  "create_full_rle_update tie_frame = Some ''FR|ffffff,1|000000,752f''"
proof -
  have "map hex_color (reshape_pixels tie_frame) = ''ffffff'' # replicate 29999 ''000000''"
    by (simp add: tie_frame_pixels hex_02x_def hex_x.simps hex_digit_def)
  moreover have "rle_encode (''ffffff'' # replicate 29999 ''000000'')
                   = [(''ffffff'', 1), (''000000'', 29999)]"
    by (rule rle_encode_29999) simp
  ultimately show ?thesis
    by (simp add: create_full_rle_update_def hex_x.simps hex_digit_def)
qed

lemma tie_diff:
  "create_diff_update tie_frame (Some tie_prev) = Inr (Some ''D|100:000000|200:000000'')"
proof -
  have "tie_frame ! 1 ! 56 = (0, 0, 0)" and "tie_frame ! 2 ! 112 = (0, 0, 0)"
    by (simp_all add: tie_frame_def)
  then show ?thesis
    by (simp add: create_diff_update_def tie_prev_shape tie_diff_coords IMG_WIDTH_def
        hex_02x_def hex_x.simps hex_digit_def)
qed

lemmas palette_eval = get_or_create_palette_def PaletteManager_init_def od_move_to_end_def
  MAX_PALETTES_TO_KEEP_def color_count_ok_def MAX_PALETTE_COLORS_def palette_payload_def
  hex_format_def str_int_def dec_nat.simps dec_digit_def hex_02x_def hex_x.simps hex_digit_def
  Let_def

lemma tie_indexed:
  "create_indexed_update tie_frame {}
       \<lparr>palettes = [(0, \<lparr>colors = [(0, 0, 0), (1, 1, 1), (255, 255, 255)], colors_list = [(0, 0, 0), (1, 1, 1), (255, 255, 255)]\<rparr>)], max_size = 500, next_palette_id = 1\<rparr>
     = (\<lparr>palettes = [(0, \<lparr>colors = [(0, 0, 0), (1, 1, 1), (255, 255, 255)], colors_list = [(0, 0, 0), (1, 1, 1), (255, 255, 255)]\<rparr>),
                    (1, \<lparr>colors = [(0, 0, 0), (255, 255, 255)], colors_list = [(0, 0, 0), (255, 255, 255)]\<rparr>)],
        max_size = 500, next_palette_id = 2\<rparr>,
        Inr (Some (''I|1|000000,ffffff|1'' @ replicate 29999 CHR ''0'')))"
  by (simp add: create_indexed_update_def tie_unique_colors tie_indices palette_eval
      concat_replicate_single)

lemma tie_diff_indexed:
  "create_diff_indexed_update tie_frame (Some tie_prev) {}
       \<lparr>palettes = [(0, \<lparr>colors = [(0, 0, 0), (1, 1, 1), (255, 255, 255)], colors_list = [(0, 0, 0), (1, 1, 1), (255, 255, 255)]\<rparr>),
                    (1, \<lparr>colors = [(0, 0, 0), (255, 255, 255)], colors_list = [(0, 0, 0), (255, 255, 255)]\<rparr>)],
        max_size = 500, next_palette_id = 2\<rparr>
     = (\<lparr>palettes = [(0, \<lparr>colors = [(0, 0, 0), (1, 1, 1), (255, 255, 255)], colors_list = [(0, 0, 0), (1, 1, 1), (255, 255, 255)]\<rparr>),
                    (1, \<lparr>colors = [(0, 0, 0), (255, 255, 255)], colors_list = [(0, 0, 0), (255, 255, 255)]\<rparr>)],
        max_size = 500, next_palette_id = 2\<rparr>,
        Inr (Some ''DI|1|000000,ffffff|100:0|200:0''))"
proof -
  have "tie_frame ! 1 ! 56 = (0, 0, 0)" and "tie_frame ! 2 ! 112 = (0, 0, 0)"
    by (simp_all add: tie_frame_def)
  then show ?thesis
    by (simp add: create_diff_indexed_update_def tie_unique_colors tie_prev_shape
        tie_diff_coords palette_eval color_to_idx_def IMG_WIDTH_def)
qed

lemma tie_indexed_rle:
  "create_indexed_rle_update tie_frame {}
       \<lparr>palettes = [(0, \<lparr>colors = [(0, 0, 0), (1, 1, 1), (255, 255, 255)], colors_list = [(0, 0, 0), (1, 1, 1), (255, 255, 255)]\<rparr>),
                    (1, \<lparr>colors = [(0, 0, 0), (255, 255, 255)], colors_list = [(0, 0, 0), (255, 255, 255)]\<rparr>)],
        max_size = 500, next_palette_id = 2\<rparr>
     = (\<lparr>palettes = [(0, \<lparr>colors = [(0, 0, 0), (1, 1, 1), (255, 255, 255)], colors_list = [(0, 0, 0), (1, 1, 1), (255, 255, 255)]\<rparr>),
                    (1, \<lparr>colors = [(0, 0, 0), (255, 255, 255)], colors_list = [(0, 0, 0), (255, 255, 255)]\<rparr>)],
        max_size = 500, next_palette_id = 2\<rparr>,
        Inr (Some ''IR|1|000000,ffffff|1,1|0,752f''))"
proof -
  have "rle_encode (1 # replicate 29999 (0 :: nat)) = [(1, 1), (0, 29999)]"
    by (rule rle_encode_29999) simp
  then show ?thesis
    by (simp add: create_indexed_rle_update_def tie_unique_colors tie_indices palette_eval)
qed

lemma tie_candidates:
  "build_candidates tie_frame (Some tie_prev) {}
       \<lparr>palettes = [(0, \<lparr>colors = [(0, 0, 0), (1, 1, 1), (255, 255, 255)], colors_list = [(0, 0, 0), (1, 1, 1), (255, 255, 255)]\<rparr>)], max_size = 500, next_palette_id = 1\<rparr>
     = (\<lparr>palettes = [(0, \<lparr>colors = [(0, 0, 0), (1, 1, 1), (255, 255, 255)], colors_list = [(0, 0, 0), (1, 1, 1), (255, 255, 255)]\<rparr>),
                    (1, \<lparr>colors = [(0, 0, 0), (255, 255, 255)], colors_list = [(0, 0, 0), (255, 255, 255)]\<rparr>)],
        max_size = 500, next_palette_id = 2\<rparr>,
        Inr [(FULL, Some (create_full_update tie_frame)),
           (DIFF, Some ''D|100:000000|200:000000''),
           (FR, Some ''FR|ffffff,1|000000,752f''),
           (IDX, Some (''I|1|000000,ffffff|1'' @ replicate 29999 CHR ''0'')),
           (D_IDX, Some ''DI|1|000000,ffffff|100:0|200:0''),
           (IR, Some ''IR|1|000000,ffffff|1,1|0,752f'')])"
  by (simp add: build_candidates_def tie_diff tie_full_rle tie_indexed tie_diff_indexed
      tie_indexed_rle)

lemma tie_selected:
  "select_best (valid_candidates [(FULL, Some (create_full_update tie_frame)),
           (DIFF, Some ''D|100:000000|200:000000''),
           (FR, Some ''FR|ffffff,1|000000,752f''),
           (IDX, Some (''I|1|000000,ffffff|1'' @ replicate 29999 CHR ''0'')),
           (D_IDX, Some ''DI|1|000000,ffffff|100:0|200:0''),
           (IR, Some ''IR|1|000000,ffffff|1,1|0,752f'')])
     = Inr (DIFF, ''D|100:000000|200:000000'')"
  by (simp add: select_best_def py_min_def tie_full_length)

lemma strict_sorted_unique:
  "sorted_wrt pixel_less xs \<Longrightarrow> sorted_wrt pixel_less ys \<Longrightarrow> set xs = set ys \<Longrightarrow> xs = ys"
proof (induction xs arbitrary: ys)
  case Nil
  then show ?case by simp
next
  case (Cons x xs)
  from Cons.prems(3) obtain y ys' where ys: "ys = y # ys'" by (cases ys) auto
  from Cons.prems(1) have xlt: "\<forall>z \<in> set xs. pixel_less x z" and sx: "sorted_wrt pixel_less xs"
    by simp_all
  from Cons.prems(2) ys have ylt: "\<forall>z \<in> set ys'. pixel_less y z" and sy: "sorted_wrt pixel_less ys'"
    by simp_all
  have xy: "x = y"
  proof (rule ccontr)
    assume ne: "x \<noteq> y"
    with Cons.prems(3) ys have "x \<in> set ys'" and "y \<in> set xs" by auto
    with xlt ylt have "pixel_less y x" and "pixel_less x y" by auto
    then have "pixel_less x x" by (rule pixel_less_trans[rotated])
    then show False by (simp add: pixel_less_irrefl)
  qed
  from xlt have "x \<notin> set xs" by (auto simp: pixel_less_irrefl)
  moreover from ylt have "y \<notin> set ys'" by (auto simp: pixel_less_irrefl)
  ultimately have "set xs = set ys'" using Cons.prems(3) ys xy by auto
  from Cons.IH[OF sx sy this] xy ys show ?case by simp
qed

lemma np_unique_eqI:
  "sorted_wrt pixel_less qs \<Longrightarrow> set ps = set qs \<Longrightarrow> np_unique ps = qs"
  by (rule strict_sorted_unique[OF sorted_np_unique]) (simp_all add: set_np_unique)

lemma tie_prev_unique_colors:
  "np_unique (reshape_pixels tie_prev) = [(0, 0, 0), (1, 1, 1), (255, 255, 255)]"
  by (rule np_unique_eqI) (auto simp: tie_prev_def reshape_pixels_def)

lemma tie_prev_cache_ok:
  "pm_wf \<lparr>palettes = [(0, \<lparr>colors = [(0, 0, 0), (1, 1, 1), (255, 255, 255)], colors_list = [(0, 0, 0), (1, 1, 1), (255, 255, 255)]\<rparr>)], max_size = 500, next_palette_id = 1\<rparr>
   \<and> 0 < max_size \<lparr>palettes = [(0, \<lparr>colors = [(0, 0, 0), (1, 1, 1), (255, 255, 255)], colors_list = [(0, 0, 0), (1, 1, 1), (255, 255, 255)]\<rparr>)], max_size = 500, next_palette_id = 1\<rparr>"
  by (simp add: pm_wf_def)

lemma tie_prev_indexed_state:
  "fst (create_indexed_update tie_prev {} (PaletteManager_init MAX_PALETTES_TO_KEEP))
     = \<lparr>palettes = [(0, \<lparr>colors = [(0, 0, 0), (1, 1, 1), (255, 255, 255)], colors_list = [(0, 0, 0), (1, 1, 1), (255, 255, 255)]\<rparr>)], max_size = 500, next_palette_id = 1\<rparr>"
  by (simp add: create_indexed_update_def tie_prev_unique_colors palette_eval
           split: sum.splits)

lemma tie_prev_indexed_rle_state:
  "fst (create_indexed_rle_update tie_prev {}
          \<lparr>palettes = [(0, \<lparr>colors = [(0, 0, 0), (1, 1, 1), (255, 255, 255)], colors_list = [(0, 0, 0), (1, 1, 1), (255, 255, 255)]\<rparr>)], max_size = 500, next_palette_id = 1\<rparr>)
     = \<lparr>palettes = [(0, \<lparr>colors = [(0, 0, 0), (1, 1, 1), (255, 255, 255)], colors_list = [(0, 0, 0), (1, 1, 1), (255, 255, 255)]\<rparr>)], max_size = 500, next_palette_id = 1\<rparr>"
  by (simp add: create_indexed_rle_update_def tie_prev_unique_colors palette_eval
           split: sum.splits)

lemma tie_prev_candidates:
  "\<exists>cands. build_candidates tie_prev None {} (PaletteManager_init MAX_PALETTES_TO_KEEP)
            = (\<lparr>palettes = [(0, \<lparr>colors = [(0, 0, 0), (1, 1, 1), (255, 255, 255)], colors_list = [(0, 0, 0), (1, 1, 1), (255, 255, 255)]\<rparr>)], max_size = 500, next_palette_id = 1\<rparr>, Inr cands)"
proof -
  let ?pm0 = "PaletteManager_init MAX_PALETTES_TO_KEEP"
  let ?pmp = "\<lparr>palettes = [(0, \<lparr>colors = [(0, 0, 0), (1, 1, 1), (255, 255, 255)], colors_list = [(0, 0, 0), (1, 1, 1), (255, 255, 255)]\<rparr>)], max_size = 500, next_palette_id = 1\<rparr>"
  have ok0: "pm_wf ?pm0 \<and> 0 < max_size ?pm0"
    using pm_wf_init[of MAX_PALETTES_TO_KEEP]
    by (simp add: PaletteManager_init_def MAX_PALETTES_TO_KEEP_def)
  from indexed_no_error[OF ok0, of tie_prev "{}"] obtain idx
    where "snd (create_indexed_update tie_prev {} ?pm0) = Inr idx" by blast
  with tie_prev_indexed_state
  have i: "create_indexed_update tie_prev {} ?pm0 = (?pmp, Inr idx)"
    by (simp add: prod_eq_iff)
  from indexed_rle_no_error[OF tie_prev_cache_ok, of tie_prev "{}"] obtain ir
    where "snd (create_indexed_rle_update tie_prev {} ?pmp) = Inr ir" by blast
  with tie_prev_indexed_rle_state
  have r: "create_indexed_rle_update tie_prev {} ?pmp = (?pmp, Inr ir)"
    by (simp add: prod_eq_iff)
  show ?thesis
    by (simp add: build_candidates_def create_diff_update_def create_diff_indexed_update_def i r)
qed

lemma tie_first_request:
  "\<exists>chs. fst (do_GET \<lparr>generated_image = Inr tie_prev, uuid4_hex = ''0123456789abcdef0123456789abcdef'', time_now = 0, write_raises = False\<rparr> \<lparr>action = Some ''new_frame'', cached_pids = None, frame_id = None, chunk = None\<rparr> initial_state)
          = \<lparr>palette_manager = \<lparr>palettes = [(0, \<lparr>colors = [(0, 0, 0), (1, 1, 1), (255, 255, 255)], colors_list = [(0, 0, 0), (1, 1, 1), (255, 255, 255)]\<rparr>)], max_size = 500, next_palette_id = 1\<rparr>,
             IMAGE_FRAMES = [(''0123456789abcdef0123456789abcdef'',
                \<lparr>chunks = chs, timestamp = 0, image_data = tie_prev\<rparr>)]\<rparr>"
proof -
  from tie_prev_candidates obtain cands
    where b: "build_candidates tie_prev None {} (PaletteManager_init MAX_PALETTES_TO_KEEP)
            = (\<lparr>palettes = [(0, \<lparr>colors = [(0, 0, 0), (1, 1, 1), (255, 255, 255)], colors_list = [(0, 0, 0), (1, 1, 1), (255, 255, 255)]\<rparr>)], max_size = 500, next_palette_id = 1\<rparr>, Inr cands)" by blast
  from build_candidates_full[OF b]
  have "(FULL, create_full_update tie_prev) \<in> set (valid_candidates cands)"
    by (simp add: valid_candidates_iff)
  then have ne: "valid_candidates cands \<noteq> []" by auto
  from select_best_returns[OF ne] obtain k v
    where sb: "select_best (valid_candidates cands) = Inr (k, v)" by blast
  from make_chunks_returns obtain chs where mc: "make_chunks CHUNK_SIZE_LIMIT v = Inr chs"
    by blast
  have "fst (do_GET \<lparr>generated_image = Inr tie_prev, uuid4_hex = ''0123456789abcdef0123456789abcdef'', time_now = 0, write_raises = False\<rparr> \<lparr>action = Some ''new_frame'', cached_pids = None, frame_id = None, chunk = None\<rparr> initial_state)
          = \<lparr>palette_manager = \<lparr>palettes = [(0, \<lparr>colors = [(0, 0, 0), (1, 1, 1), (255, 255, 255)], colors_list = [(0, 0, 0), (1, 1, 1), (255, 255, 255)]\<rparr>)], max_size = 500, next_palette_id = 1\<rparr>,
             IMAGE_FRAMES = [(''0123456789abcdef0123456789abcdef'',
                \<lparr>chunks = chs, timestamp = 0, image_data = tie_prev\<rparr>)]\<rparr>"
    using b ne sb mc
    by (simp add: do_GET_def handle_new_frame_def initial_state_def parse_cached_pids_def
        prev_frame_data_of_def store_frame_def MAX_FRAMES_TO_KEEP_def Let_def send_def)
  then show ?thesis by blast
qed

lemma tie_second_request:
  "snd (do_GET \<lparr>generated_image = Inr tie_frame, uuid4_hex = ''123456789abcdef0123456789abcdef0'', time_now = 1, write_raises = False\<rparr> \<lparr>action = Some ''new_frame'', cached_pids = None, frame_id = None, chunk = None\<rparr>
          (fst (do_GET \<lparr>generated_image = Inr tie_prev, uuid4_hex = ''0123456789abcdef0123456789abcdef'', time_now = 0, write_raises = False\<rparr> \<lparr>action = Some ''new_frame'', cached_pids = None, frame_id = None, chunk = None\<rparr> initial_state)))
     = Body200 ''123456789abcdef0123456789abcdef0;1;D|100:000000|200:000000''"
proof -
  from tie_first_request obtain chs where
    s: "fst (do_GET \<lparr>generated_image = Inr tie_prev, uuid4_hex = ''0123456789abcdef0123456789abcdef'', time_now = 0, write_raises = False\<rparr> \<lparr>action = Some ''new_frame'', cached_pids = None, frame_id = None, chunk = None\<rparr> initial_state)
          = \<lparr>palette_manager = \<lparr>palettes = [(0, \<lparr>colors = [(0, 0, 0), (1, 1, 1), (255, 255, 255)], colors_list = [(0, 0, 0), (1, 1, 1), (255, 255, 255)]\<rparr>)], max_size = 500, next_palette_id = 1\<rparr>,
             IMAGE_FRAMES = [(''0123456789abcdef0123456789abcdef'',
                \<lparr>chunks = chs, timestamp = 0, image_data = tie_prev\<rparr>)]\<rparr>" by blast
  show ?thesis
    unfolding s
    by (simp add: do_GET_def handle_new_frame_def parse_cached_pids_def prev_frame_data_of_def
        tie_candidates select_best_def py_min_def tie_full_length make_chunks_def
        py_range_step_def CHUNK_SIZE_LIMIT_def str_int_def dec_nat.simps dec_digit_def Let_def
        send_def)
qed

text \<open>
  The server's first two frames are \<open>tie_prev\<close> and \<open>tie_frame\<close>, both of the production
  size. For the second, DIFF and FULL_RLE both take 23 bytes, fewer than every other
  candidate, and the response carries DIFF, which the table order FULL, FULL_RLE, DIFF, ...
  places after FULL_RLE.
\<close>

theorem table_order_counterexample:
  "length tie_frame = 150
   \<and> same_shape tie_frame tie_prev
   \<and> build_candidates tie_frame (Some tie_prev) {}
       \<lparr>palettes = [(0, \<lparr>colors = [(0, 0, 0), (1, 1, 1), (255, 255, 255)], colors_list = [(0, 0, 0), (1, 1, 1), (255, 255, 255)]\<rparr>)], max_size = 500, next_palette_id = 1\<rparr>
     = (\<lparr>palettes = [(0, \<lparr>colors = [(0, 0, 0), (1, 1, 1), (255, 255, 255)], colors_list = [(0, 0, 0), (1, 1, 1), (255, 255, 255)]\<rparr>),
                    (1, \<lparr>colors = [(0, 0, 0), (255, 255, 255)], colors_list = [(0, 0, 0), (255, 255, 255)]\<rparr>)],
        max_size = 500, next_palette_id = 2\<rparr>,
        Inr [(FULL, Some (create_full_update tie_frame)),
           (DIFF, Some ''D|100:000000|200:000000''),
           (FR, Some ''FR|ffffff,1|000000,752f''),
           (IDX, Some (''I|1|000000,ffffff|1'' @ replicate 29999 CHR ''0'')),
           (D_IDX, Some ''DI|1|000000,ffffff|100:0|200:0''),
           (IR, Some ''IR|1|000000,ffffff|1,1|0,752f'')])
   \<and> select_best (valid_candidates [(FULL, Some (create_full_update tie_frame)),
           (DIFF, Some ''D|100:000000|200:000000''),
           (FR, Some ''FR|ffffff,1|000000,752f''),
           (IDX, Some (''I|1|000000,ffffff|1'' @ replicate 29999 CHR ''0'')),
           (D_IDX, Some ''DI|1|000000,ffffff|100:0|200:0''),
           (IR, Some ''IR|1|000000,ffffff|1,1|0,752f'')])
     = Inr (DIFF, ''D|100:000000|200:000000'')
   \<and> length ''FR|ffffff,1|000000,752f'' = length ''D|100:000000|200:000000''
   \<and> table_rank FR < table_rank DIFF
   \<and> snd (do_GET \<lparr>generated_image = Inr tie_frame, uuid4_hex = ''123456789abcdef0123456789abcdef0'', time_now = 1, write_raises = False\<rparr> \<lparr>action = Some ''new_frame'', cached_pids = None, frame_id = None, chunk = None\<rparr>
          (fst (do_GET \<lparr>generated_image = Inr tie_prev, uuid4_hex = ''0123456789abcdef0123456789abcdef'', time_now = 0, write_raises = False\<rparr> \<lparr>action = Some ''new_frame'', cached_pids = None, frame_id = None, chunk = None\<rparr> initial_state)))
     = Body200 ''123456789abcdef0123456789abcdef0;1;D|100:000000|200:000000''"
  using tie_frame_shape tie_prev_shape tie_candidates tie_selected tie_second_request
  by simp

subsection \<open>The state after a failed request\<close>

lemma tie_prev_shape_150: "length tie_prev = 150"
  by (simp add: tie_prev_def)

lemma first_request_closed_state:
  "\<exists>chs. fst (do_GET \<lparr>generated_image = Inr tie_prev, uuid4_hex = ''0123456789abcdef0123456789abcdef'', time_now = 0, write_raises = True\<rparr> \<lparr>action = Some ''new_frame'', cached_pids = None, frame_id = None, chunk = None\<rparr> initial_state)
          = \<lparr>palette_manager = \<lparr>palettes = [(0, \<lparr>colors = [(0, 0, 0), (1, 1, 1), (255, 255, 255)], colors_list = [(0, 0, 0), (1, 1, 1), (255, 255, 255)]\<rparr>)], max_size = 500, next_palette_id = 1\<rparr>,
             IMAGE_FRAMES = [(''0123456789abcdef0123456789abcdef'',
                \<lparr>chunks = chs, timestamp = 0, image_data = tie_prev\<rparr>)]\<rparr>"
  using tie_first_request
    do_GET_state_write[of "\<lparr>generated_image = Inr tie_prev, uuid4_hex = ''0123456789abcdef0123456789abcdef'', time_now = 0, write_raises = True\<rparr>" "\<lparr>action = Some ''new_frame'', cached_pids = None, frame_id = None, chunk = None\<rparr>" initial_state]
  by simp

text \<open>
  C3, as the code has it. In every state the server can reach, a request that is answered
  500 (the producer raised, an encoder raised, or the chunk parameter did not convert)
  leaves the palette cache and the frame store exactly as they were. But the indexed
  encoders update the palette cache, and the frame is stored, before the response is
  written, and nothing is rolled back: the state a request leaves does not depend on
  whether its response can be written. A request on a closed connection fails in the
  write; it is not answered 500, since \<^verbatim>\<open>send_error(500)\<close> raises as well and the
  exception leaves \<^verbatim>\<open>do_GET\<close>, and it leaves the palette and the frame that the
  successful request would have left. On an open connection every request is answered.
\<close>

theorem failed_request_state:
  "(do_GET e p (run_requests reqs initial_state) = (s', r) \<and> status r = Some 500
      \<longrightarrow> s' = run_requests reqs initial_state)
   \<and> fst (do_GET e p s) = fst (do_GET (e\<lparr>write_raises := False\<rparr>) p s)
   \<and> (write_raises e \<longrightarrow> snd (do_GET e p s) = Raised IOError)
   \<and> (\<not> write_raises e \<longrightarrow> status (snd (do_GET e p s)) \<noteq> None)"
proof (intro conjI impI)
  let ?s = "run_requests reqs initial_state"
  assume a: "do_GET e p ?s = (s', r) \<and> status r = Some 500"
  have inv: "server_inv ?s" by (rule reachable_inv)
  have w: "\<not> write_raises e"
  proof
    assume "write_raises e"
    from do_GET_closed[OF this, of p ?s] a show False by simp
  qed
  show "s' = ?s"
  proof (cases "action p = Some ''new_frame''")
    case True
    obtain s1 r1 where h: "handle_new_frame e p ?s = (s1, r1)"
      by (cases "handle_new_frame e p ?s")
    show ?thesis
    proof (cases r1)
      case (Inl err)
      from handle_new_frame_error_state[OF inv w h[unfolded Inl]] have "s1 = ?s" .
      with a True h Inl w show ?thesis by (simp add: do_GET_def send_def)
    next
      case (Inr resp)
      from handle_new_frame_result[of e p ?s] h Inr obtain b where "resp = Body200 b" by auto
      with a True h Inr show ?thesis by (auto simp: do_GET_def)
    qed
  next
    case False
    with a handle_get_chunk_state[of e p ?s] show ?thesis
      by (cases "handle_get_chunk e p ?s")
         (auto simp: do_GET_def send_def split: sum.splits if_splits)
  qed
next
  show "fst (do_GET e p s) = fst (do_GET (e\<lparr>write_raises := False\<rparr>) p s)"
    by (rule do_GET_state_write)
next
  assume "write_raises e"
  then show "snd (do_GET e p s) = Raised IOError" by (rule do_GET_closed)
next
  assume "\<not> write_raises e"
  then show "status (snd (do_GET e p s)) \<noteq> None" by (rule do_GET_open)
qed

theorem failed_request_state_witness:
  "do_GET \<lparr>generated_image = Inl ProducerError, uuid4_hex = ''123456789abcdef0123456789abcdef0'', time_now = 1, write_raises = False\<rparr> \<lparr>action = Some ''new_frame'', cached_pids = None, frame_id = None, chunk = None\<rparr> (run_requests [(\<lparr>generated_image = Inr tie_prev, uuid4_hex = ''0123456789abcdef0123456789abcdef'', time_now = 0, write_raises = False\<rparr>, \<lparr>action = Some ''new_frame'', cached_pids = None, frame_id = None, chunk = None\<rparr>)] initial_state)
     = (run_requests [(\<lparr>generated_image = Inr tie_prev, uuid4_hex = ''0123456789abcdef0123456789abcdef'', time_now = 0, write_raises = False\<rparr>, \<lparr>action = Some ''new_frame'', cached_pids = None, frame_id = None, chunk = None\<rparr>)] initial_state, SendError 500)
   \<and> status (SendError 500) = Some 500
   \<and> write_raises \<lparr>generated_image = Inr tie_prev, uuid4_hex = ''0123456789abcdef0123456789abcdef'', time_now = 0, write_raises = True\<rparr>
   \<and> snd (do_GET \<lparr>generated_image = Inr tie_prev, uuid4_hex = ''0123456789abcdef0123456789abcdef'', time_now = 0, write_raises = True\<rparr> \<lparr>action = Some ''new_frame'', cached_pids = None, frame_id = None, chunk = None\<rparr> initial_state) = Raised IOError
   \<and> fst (do_GET \<lparr>generated_image = Inr tie_prev, uuid4_hex = ''0123456789abcdef0123456789abcdef'', time_now = 0, write_raises = True\<rparr> \<lparr>action = Some ''new_frame'', cached_pids = None, frame_id = None, chunk = None\<rparr> initial_state) = fst (do_GET \<lparr>generated_image = Inr tie_prev, uuid4_hex = ''0123456789abcdef0123456789abcdef'', time_now = 0, write_raises = False\<rparr> \<lparr>action = Some ''new_frame'', cached_pids = None, frame_id = None, chunk = None\<rparr> initial_state)
   \<and> \<not> write_raises \<lparr>generated_image = Inl ProducerError, uuid4_hex = ''123456789abcdef0123456789abcdef0'', time_now = 1, write_raises = False\<rparr>
   \<and> status (snd (do_GET \<lparr>generated_image = Inl ProducerError, uuid4_hex = ''123456789abcdef0123456789abcdef0'', time_now = 1, write_raises = False\<rparr> \<lparr>action = Some ''new_frame'', cached_pids = None, frame_id = None, chunk = None\<rparr> initial_state)) \<noteq> None"
  using failed_request_state [where e = "\<lparr>generated_image = Inl ProducerError, uuid4_hex = ''123456789abcdef0123456789abcdef0'', time_now = 1, write_raises = False\<rparr>" and p = "\<lparr>action = Some ''new_frame'', cached_pids = None, frame_id = None, chunk = None\<rparr>"
      and reqs = "[(\<lparr>generated_image = Inr tie_prev, uuid4_hex = ''0123456789abcdef0123456789abcdef'', time_now = 0, write_raises = False\<rparr>, \<lparr>action = Some ''new_frame'', cached_pids = None, frame_id = None, chunk = None\<rparr>)]"
      and s' = "run_requests [(\<lparr>generated_image = Inr tie_prev, uuid4_hex = ''0123456789abcdef0123456789abcdef'', time_now = 0, write_raises = False\<rparr>, \<lparr>action = Some ''new_frame'', cached_pids = None, frame_id = None, chunk = None\<rparr>)] initial_state" and r = "SendError 500"
      and s = initial_state]
    failed_request_state [where e = "\<lparr>generated_image = Inr tie_prev, uuid4_hex = ''0123456789abcdef0123456789abcdef'', time_now = 0, write_raises = True\<rparr>" and p = "\<lparr>action = Some ''new_frame'', cached_pids = None, frame_id = None, chunk = None\<rparr>" and s = initial_state
      and reqs = "[]" and s' = initial_state and r = "SendError 500"]
    new_frame_producer_raises [where e = "\<lparr>generated_image = Inl ProducerError, uuid4_hex = ''123456789abcdef0123456789abcdef0'', time_now = 1, write_raises = False\<rparr>" and p = "\<lparr>action = Some ''new_frame'', cached_pids = None, frame_id = None, chunk = None\<rparr>" and err = ProducerError
      and s = "run_requests [(\<lparr>generated_image = Inr tie_prev, uuid4_hex = ''0123456789abcdef0123456789abcdef'', time_now = 0, write_raises = False\<rparr>, \<lparr>action = Some ''new_frame'', cached_pids = None, frame_id = None, chunk = None\<rparr>)] initial_state"]
  by simp

text \<open>
  The first request of a server, for the buffer \<open>tie_prev\<close> of the production size, on a
  connection that the peer has closed. The request fails in the write of its response and
  the exception leaves \<^verbatim>\<open>do_GET\<close>; before the request the palette cache and the
  frame store were empty, after it the cache holds palette 0 and the store holds the frame.
\<close>

theorem failed_request_counterexample:
  "length tie_prev = 150
   \<and> write_raises \<lparr>generated_image = Inr tie_prev, uuid4_hex = ''0123456789abcdef0123456789abcdef'', time_now = 0, write_raises = True\<rparr>
   \<and> snd (do_GET \<lparr>generated_image = Inr tie_prev, uuid4_hex = ''0123456789abcdef0123456789abcdef'', time_now = 0, write_raises = True\<rparr> \<lparr>action = Some ''new_frame'', cached_pids = None, frame_id = None, chunk = None\<rparr> initial_state) = Raised IOError
   \<and> palettes (palette_manager initial_state) = []
   \<and> palettes (palette_manager (fst (do_GET \<lparr>generated_image = Inr tie_prev, uuid4_hex = ''0123456789abcdef0123456789abcdef'', time_now = 0, write_raises = True\<rparr> \<lparr>action = Some ''new_frame'', cached_pids = None, frame_id = None, chunk = None\<rparr> initial_state)))
       = [(0, \<lparr>colors = [(0, 0, 0), (1, 1, 1), (255, 255, 255)], colors_list = [(0, 0, 0), (1, 1, 1), (255, 255, 255)]\<rparr>)]
   \<and> IMAGE_FRAMES initial_state = []
   \<and> map fst (IMAGE_FRAMES (fst (do_GET \<lparr>generated_image = Inr tie_prev, uuid4_hex = ''0123456789abcdef0123456789abcdef'', time_now = 0, write_raises = True\<rparr> \<lparr>action = Some ''new_frame'', cached_pids = None, frame_id = None, chunk = None\<rparr> initial_state))) = [''0123456789abcdef0123456789abcdef'']
   \<and> fst (do_GET \<lparr>generated_image = Inr tie_prev, uuid4_hex = ''0123456789abcdef0123456789abcdef'', time_now = 0, write_raises = True\<rparr> \<lparr>action = Some ''new_frame'', cached_pids = None, frame_id = None, chunk = None\<rparr> initial_state) \<noteq> initial_state"
proof -
  from first_request_closed_state obtain chs where
    s: "fst (do_GET \<lparr>generated_image = Inr tie_prev, uuid4_hex = ''0123456789abcdef0123456789abcdef'', time_now = 0, write_raises = True\<rparr> \<lparr>action = Some ''new_frame'', cached_pids = None, frame_id = None, chunk = None\<rparr> initial_state)
          = \<lparr>palette_manager = \<lparr>palettes = [(0, \<lparr>colors = [(0, 0, 0), (1, 1, 1), (255, 255, 255)], colors_list = [(0, 0, 0), (1, 1, 1), (255, 255, 255)]\<rparr>)], max_size = 500, next_palette_id = 1\<rparr>,
             IMAGE_FRAMES = [(''0123456789abcdef0123456789abcdef'',
                \<lparr>chunks = chs, timestamp = 0, image_data = tie_prev\<rparr>)]\<rparr>" by blast
  have r: "snd (do_GET \<lparr>generated_image = Inr tie_prev, uuid4_hex = ''0123456789abcdef0123456789abcdef'', time_now = 0, write_raises = True\<rparr> \<lparr>action = Some ''new_frame'', cached_pids = None, frame_id = None, chunk = None\<rparr> initial_state) = Raised IOError"
    by (rule do_GET_closed) simp
  have i: "palettes (palette_manager initial_state) = []" "IMAGE_FRAMES initial_state = []"
    by (simp_all add: initial_state_def PaletteManager_init_def)
  have n: "fst (do_GET \<lparr>generated_image = Inr tie_prev, uuid4_hex = ''0123456789abcdef0123456789abcdef'', time_now = 0, write_raises = True\<rparr> \<lparr>action = Some ''new_frame'', cached_pids = None, frame_id = None, chunk = None\<rparr> initial_state) \<noteq> initial_state"
    unfolding s by (simp add: initial_state_def)
  from tie_prev_shape_150 r i n show ?thesis unfolding s by simp
qed

subsection \<open>Palette identity\<close>
















subsection \<open>The palette cache as an LRU cache\<close>

lemma run_palette_ops_append:
  "fst (run_palette_ops (xs @ ys) pm) = fst (run_palette_ops ys (fst (run_palette_ops xs pm)))"
proof (induction xs arbitrary: pm)
  case Nil
  show ?case by simp
next
  case (Cons cols xs)
  obtain pm1 r where g: "get_or_create_palette cols pm = (pm1, r)"
    by (cases "get_or_create_palette cols pm")
  have "fst (run_palette_ops (cols # zs) pm) = fst (run_palette_ops zs pm1)" for zs
    using g by (cases r; cases "run_palette_ops zs pm1") (auto split: prod.splits)
  with Cons.IH[of pm1] show ?case by simp
qed

lemma goc_as_run:
  "fst (get_or_create_palette cols pm) = fst (run_palette_ops [cols] pm)"
  by (cases "get_or_create_palette cols pm"; cases "snd (get_or_create_palette cols pm)")
     (auto split: prod.splits)

lemma step_as_run:
  assumes "pm' = pm \<or> pm' = fst (get_or_create_palette cols pm)"
  shows "\<exists>ops. pm' = fst (run_palette_ops ops pm)"
proof -
  from assms have "pm' = fst (run_palette_ops [] pm) \<or> pm' = fst (run_palette_ops [cols] pm)"
    by (simp add: goc_as_run)
  then show ?thesis by blast
qed

lemma run_as_run:
  assumes "\<exists>ops. pm1 = fst (run_palette_ops ops pm)"
    and "\<exists>ops. pm2 = fst (run_palette_ops ops pm1)"
  shows "\<exists>ops. pm2 = fst (run_palette_ops ops pm)"
proof -
  from assms obtain xs ys where "pm1 = fst (run_palette_ops xs pm)"
    and "pm2 = fst (run_palette_ops ys pm1)" by blast
  then have "pm2 = fst (run_palette_ops (xs @ ys) pm)"
    by (simp add: run_palette_ops_append)
  then show ?thesis by blast
qed

lemma build_candidates_as_run:
  "\<exists>ops. fst (build_candidates img prev c pm) = fst (run_palette_ops ops pm)"
proof -
  let ?u = "np_unique (reshape_pixels img)"
  define pm1 where "pm1 = fst (create_indexed_update img c pm)"
  define pm2 where "pm2 = fst (create_diff_indexed_update img prev c pm1)"
  define pm3 where "pm3 = fst (create_indexed_rle_update img c pm2)"
  have r0: "\<exists>ops. pm = fst (run_palette_ops ops pm)"
    by (rule exI[of _ "[]"]) simp
  have r1: "\<exists>ops. pm1 = fst (run_palette_ops ops pm)"
    using step_as_run[of pm1 pm ?u] create_indexed_update_fst[of img c pm]
    by (simp add: pm1_def)
  have "\<exists>ops. pm2 = fst (run_palette_ops ops pm1)"
    using step_as_run[of pm2 pm1 ?u] create_diff_indexed_update_fst[of img prev c pm1]
    by (simp add: pm2_def)
  with r1 have r2: "\<exists>ops. pm2 = fst (run_palette_ops ops pm)" by (rule run_as_run)
  have "\<exists>ops. pm3 = fst (run_palette_ops ops pm2)"
    using step_as_run[of pm3 pm2 ?u] create_indexed_rle_update_fst[of img c pm2]
    by (simp add: pm3_def)
  with r2 have r3: "\<exists>ops. pm3 = fst (run_palette_ops ops pm)" by (rule run_as_run)
  have "fst (build_candidates img prev c pm) \<in> {pm, pm1, pm2, pm3}"
    by (auto simp: build_candidates_def Let_def pm1_def pm2_def pm3_def
             split: prod.splits sum.splits)
  with r0 r1 r2 r3 show ?thesis by auto
qed

lemma do_GET_as_run:
  "\<exists>ops. palette_manager (fst (do_GET e p s)) = fst (run_palette_ops ops (palette_manager s))"
proof -
  have r0: "\<exists>ops. palette_manager s = fst (run_palette_ops ops (palette_manager s))"
    by (rule exI[of _ "[]"]) simp
  from do_GET_state[of e p s] handle_new_frame_state[of e p s]
  have "palette_manager (fst (do_GET e p s)) = palette_manager s
        \<or> (\<exists>img. palette_manager (fst (do_GET e p s))
              = fst (build_candidates img (prev_frame_data_of (IMAGE_FRAMES s))
                      (parse_cached_pids (cached_pids p)) (palette_manager s)))"
    by auto
  with r0 build_candidates_as_run show ?thesis by metis
qed

lemma run_requests_as_run:
  "\<exists>ops. palette_manager (run_requests reqs s) = fst (run_palette_ops ops (palette_manager s))"
proof (induction reqs arbitrary: s)
  case Nil
  show ?case by (rule exI[of _ "[]"]) simp
next
  case (Cons ep reqs)
  obtain e p where ep: "ep = (e, p)" by (cases ep)
  from do_GET_as_run[of e p s] Cons.IH[of "fst (do_GET e p s)"]
  have "\<exists>ops. palette_manager (run_requests reqs (fst (do_GET e p s)))
            = fst (run_palette_ops ops (palette_manager s))"
    by (rule run_as_run)
  then show ?case by (simp add: ep)
qed

lemma server_cache_reachable:
  "\<exists>ops. palette_manager (run_requests reqs initial_state)
          = fst (run_palette_ops ops (PaletteManager_init MAX_PALETTES_TO_KEEP))"
  using run_requests_as_run[of reqs initial_state] by (simp add: initial_state_def)

text \<open>
  C5. After every sequence of \<^verbatim>\<open>get_or_create_palette\<close> calls on a fresh cache of
  capacity \<open>n\<close>, the cache holds at most \<open>n\<close> entries, and its iteration order is the
  order of last touch: the keys are the last \<open>n\<close> of the returned ids, each at its last
  occurrence. A miss appends the new entry and, when the cache was full, drops exactly the
  first entry, the least recently touched one; a hit moves the matched entry to the last,
  most recently used, position and keeps the others in order. The palette cache of the
  server is such a cache of capacity 500: every state it reaches is reached by a sequence
  of \<^verbatim>\<open>get_or_create_palette\<close> calls, and it never holds more than 500 entries.
\<close>

theorem palette_cache_lru:
  assumes cap: "0 < n"
    and run: "run_palette_ops ops (PaletteManager_init n) = (pm, touched)"
  shows "int (length (palettes pm)) \<le> n
       \<and> map fst (palettes pm) = lastn (nat n) (remdups touched)
       \<and> (find_palette cols (palettes pm) = None \<longrightarrow>
            palettes (fst (get_or_create_palette cols pm))
              = (if int (length (palettes pm)) = n then tl (palettes pm) else palettes pm)
                @ [(next_palette_id pm, \<lparr>colors = cols, colors_list = cols\<rparr>)])
       \<and> (\<forall>pid d. find_palette cols (palettes pm) = Some (pid, d) \<longrightarrow>
            palettes (fst (get_or_create_palette cols pm))
              = filter (\<lambda>kv. fst kv \<noteq> pid) (palettes pm) @ [(pid, d)])
       \<and> (\<exists>calls. palette_manager (run_requests reqs initial_state)
              = fst (run_palette_ops calls (PaletteManager_init MAX_PALETTES_TO_KEEP)))
       \<and> int (length (palettes (palette_manager (run_requests reqs initial_state))))
           \<le> MAX_PALETTES_TO_KEEP"
proof -
  from reachable_wf[OF cap, of ops] run
  have wf: "pm_wf pm" and ms: "max_size pm = n"
    and keys: "map fst (palettes pm) = lastn (nat n) (remdups touched)" by simp_all
  from ms cap have cp: "0 < max_size pm" by simp
  have "int (length (palettes (PaletteManager_init n))) \<le> max_size (PaletteManager_init n)"
    using cap by (simp add: PaletteManager_init_def)
  from run_size[OF this, of ops] run
  have size: "int (length (palettes pm)) \<le> n" by (simp add: PaletteManager_init_def)
  have miss: "find_palette cols (palettes pm) = None \<longrightarrow>
            palettes (fst (get_or_create_palette cols pm))
              = (if int (length (palettes pm)) = n then tl (palettes pm) else palettes pm)
                @ [(next_palette_id pm, \<lparr>colors = cols, colors_list = cols\<rparr>)]"
  proof
    assume f: "find_palette cols (palettes pm) = None"
    show "palettes (fst (get_or_create_palette cols pm))
              = (if int (length (palettes pm)) = n then tl (palettes pm) else palettes pm)
                @ [(next_palette_id pm, \<lparr>colors = cols, colors_list = cols\<rparr>)]"
      using size ms by (simp add: goc_miss[OF wf f cp])
  qed
  have hit: "\<forall>pid d. find_palette cols (palettes pm) = Some (pid, d) \<longrightarrow>
            palettes (fst (get_or_create_palette cols pm))
              = filter (\<lambda>kv. fst kv \<noteq> pid) (palettes pm) @ [(pid, d)]"
    by (simp add: goc_hit[OF wf])
  from server_cache_reachable[of reqs] obtain calls where
    sc: "palette_manager (run_requests reqs initial_state)
           = fst (run_palette_ops calls (PaletteManager_init MAX_PALETTES_TO_KEEP))" by blast
  have "int (length (palettes (PaletteManager_init MAX_PALETTES_TO_KEEP)))
          \<le> max_size (PaletteManager_init MAX_PALETTES_TO_KEEP)"
    by (simp add: PaletteManager_init_def MAX_PALETTES_TO_KEEP_def)
  from run_size[OF this, of calls] sc
  have ssize: "int (length (palettes (palette_manager (run_requests reqs initial_state))))
           \<le> MAX_PALETTES_TO_KEEP"
    by (simp add: PaletteManager_init_def)
  from size keys miss hit sc ssize show ?thesis by blast
qed

theorem palette_cache_lru_witness:
  "(0::int) < 2
   \<and> int (length (palettes (fst (run_palette_ops [[(0, 0, 0), (255, 255, 255)], [(1, 1, 1), (2, 2, 2)]] (PaletteManager_init 2))))) \<le> 2
   \<and> map fst (palettes (fst (run_palette_ops [[(0, 0, 0), (255, 255, 255)], [(1, 1, 1), (2, 2, 2)]] (PaletteManager_init 2)))) = [0, 1]
   \<and> snd (run_palette_ops [[(0, 0, 0), (255, 255, 255)], [(1, 1, 1), (2, 2, 2)]] (PaletteManager_init 2)) = [0, 1]
   \<and> find_palette [(3, 3, 3), (4, 4, 4)] (palettes (fst (run_palette_ops [[(0, 0, 0), (255, 255, 255)], [(1, 1, 1), (2, 2, 2)]] (PaletteManager_init 2)))) = None
   \<and> palettes (fst (get_or_create_palette [(3, 3, 3), (4, 4, 4)] (fst (run_palette_ops [[(0, 0, 0), (255, 255, 255)], [(1, 1, 1), (2, 2, 2)]] (PaletteManager_init 2)))))
       = [(1, \<lparr>colors = [(1, 1, 1), (2, 2, 2)], colors_list = [(1, 1, 1), (2, 2, 2)]\<rparr>),
          (2, \<lparr>colors = [(3, 3, 3), (4, 4, 4)], colors_list = [(3, 3, 3), (4, 4, 4)]\<rparr>)]
   \<and> find_palette [(0, 0, 0), (255, 255, 255)] (palettes (fst (run_palette_ops [[(0, 0, 0), (255, 255, 255)], [(1, 1, 1), (2, 2, 2)]] (PaletteManager_init 2))))
       = Some (0, \<lparr>colors = [(0, 0, 0), (255, 255, 255)], colors_list = [(0, 0, 0), (255, 255, 255)]\<rparr>)
   \<and> palettes (fst (get_or_create_palette [(0, 0, 0), (255, 255, 255)] (fst (run_palette_ops [[(0, 0, 0), (255, 255, 255)], [(1, 1, 1), (2, 2, 2)]] (PaletteManager_init 2)))))
       = [(1, \<lparr>colors = [(1, 1, 1), (2, 2, 2)], colors_list = [(1, 1, 1), (2, 2, 2)]\<rparr>),
          (0, \<lparr>colors = [(0, 0, 0), (255, 255, 255)], colors_list = [(0, 0, 0), (255, 255, 255)]\<rparr>)]"
  using palette_cache_lru [of 2 "[[(0, 0, 0), (255, 255, 255)], [(1, 1, 1), (2, 2, 2)]]" "(fst (run_palette_ops [[(0, 0, 0), (255, 255, 255)], [(1, 1, 1), (2, 2, 2)]] (PaletteManager_init 2)))" "snd (run_palette_ops [[(0, 0, 0), (255, 255, 255)], [(1, 1, 1), (2, 2, 2)]] (PaletteManager_init 2))" "[(3, 3, 3), (4, 4, 4)]"]
    palette_cache_lru [of 2 "[[(0, 0, 0), (255, 255, 255)], [(1, 1, 1), (2, 2, 2)]]" "(fst (run_palette_ops [[(0, 0, 0), (255, 255, 255)], [(1, 1, 1), (2, 2, 2)]] (PaletteManager_init 2)))" "snd (run_palette_ops [[(0, 0, 0), (255, 255, 255)], [(1, 1, 1), (2, 2, 2)]] (PaletteManager_init 2))" "[(0, 0, 0), (255, 255, 255)]"]
  by (simp add: get_or_create_palette_def PaletteManager_init_def od_move_to_end_def Let_def
      lastn_def)

end
